theory Spec2Isabelle
  imports Complex_Main "HOL-Library.Word"
begin

section \<open>The Process subsystem of the simulator: src/main/host/process.c\<close>

text \<open>
  The embedding follows process.c function by function. One Process lives in a world
  that also holds the objects process.c reaches through pointers (threads, waiters,
  descriptor listeners, tasks), the worker and host counters it updates, the log, the
  scheduler queue, and a trace of the calls made into other modules, in call order.

  Pointers are addresses (\<open>ptr\<close>), a nullable pointer is an \<open>option\<close>. \<open>gint\<close>
  reference counts are \<open>int\<close>, \<open>SimulationTime\<close> (guint64) is a 64-bit word and
  \<open>gdouble\<close> is \<open>real\<close> (rounding is outside the model). \<open>utility_assert\<close> and the
  fatal \<open>error\<close> log are results \<open>Inl\<close>; \<open>MAGIC_ASSERT\<close> guards calls on a freed
  Process and is not a branch: every function below is called on a live Process.
  Names of static functions lose their leading underscore.
\<close>

subsection \<open>Data\<close>

type_synonym ptr = nat
type_synonym SimulationTime = "64 word"

datatype InterposeMethod = INTERPOSE_PTRACE | INTERPOSE_PRELOAD | INTERPOSE_OTHER int

datatype DescriptorStatus = DS_ACTIVE | DS_READABLE | DS_WRITABLE | DS_CLOSED

datatype DescriptorListenerFilter = DLF_NEVER | DLF_OFF_TO_ON

datatype error = AssertionFailed string | Fatal string | InvalidPointer ptr

datatype LogLevel = LOG_ERROR | LOG_WARNING | LOG_MESSAGE | LOG_INFO

datatype LogArg = ArgS string | ArgF real

type_synonym LogLine = "LogLevel \<times> string \<times> LogArg list"

datatype ObjectType = OBJECT_TYPE_PROCESS | OBJECT_TYPE_PROCESS_WAITER

datatype CounterType = COUNTER_TYPE_NEW | COUNTER_TYPE_FREE

datatype TaskCallback = RunStartTask | RunStopTask

text \<open>struct \_Process; the fields of the nested struct \<open>plugin\<close> are flattened.\<close>

record Process =
  host :: "ptr option"
  processID :: nat
  processName :: string
  interposeMethod :: InterposeMethod
  exeName :: "string option"
  exePath :: "string option"
  isExecuting :: bool
  totalRunTime :: real
  startTime :: SimulationTime
  stopTime :: SimulationTime
  argv :: "string list option"
  envv :: "string list option"
  returnCode :: int
  didLogReturnCode :: bool
  mainThread :: "ptr option"
  threadIDCounter :: int
  stderrFD :: int
  stdoutFD :: int
  referenceCount :: int

text \<open>struct \_ProcessWaiter; its \<open>referenceCount\<close> is \<open>waiterReferenceCount\<close> here.\<close>

record ProcessWaiter =
  thread :: "ptr option"
  timer :: "ptr option"
  timerListener :: "ptr option"
  descriptor :: "ptr option"
  descriptorListener :: "ptr option"
  waiterReferenceCount :: int

text \<open>
  Modelled from the spec: the Thread object of thread.h (spec 4.2): a running flag,
  an exit code and a reference count, with the id it was created under.
\<close>

record Thread =
  threadVariant :: InterposeMethod
  threadID :: int
  running :: bool
  exitCode :: int
  threadRefs :: int

text \<open>
  Modelled from the spec: the listener object of the descriptor layer (spec 6). Every
  listener built by process.c has the callback \<open>_process_notifyStatusChanged\<close>, the
  Process as object with \<open>process_unref\<close> as its free function, and a waiter as
  argument with \<open>_process_unrefWaiter\<close> as its free function.
\<close>

record DescriptorListener =
  listenerArgument :: ptr
  monitorStatus :: "DescriptorStatus set"
  monitorFilter :: DescriptorListenerFilter
  listenerRefs :: int

text \<open>Modelled from the spec: a Task is an (object, callback, free-callback) triple.\<close>

record Task =
  taskCallback :: TaskCallback
  taskRefs :: int

text \<open>
  What a burst of guest code does before control returns to the simulator: the guest
  exits with a code, or yields in a blocking call that waits for a timeout and/or a
  descriptor status.
\<close>

datatype GuestBurst =
    GuestExits int
  | GuestBlocks "ptr option" "ptr option" "DescriptorStatus set"

text \<open>Calls into other modules, recorded in call order.\<close>

datatype event =
    ThreadNew ptr InterposeMethod int
  | ThreadRun ptr "string list option" "string list option" int int
  | ThreadResume ptr
  | ThreadTerminate ptr
  | ThreadRef ptr
  | ThreadUnref ptr
  | ListenerNew ptr ptr
  | ListenerSetMonitorStatus ptr "DescriptorStatus set" DescriptorListenerFilter
  | ListenerUnref ptr
  | ListenerCallback ptr ptr
  | DescriptorAddListener ptr ptr
  | DescriptorRemoveListener ptr ptr
  | DescriptorRef ptr
  | DescriptorUnref ptr
  | HostRef ptr
  | HostUnref ptr
  | Open string
  | Close int
  | GStringFree string
  | GStrfreev "string list"
  | GTimerStart
  | GTimerDestroy
  | GFreeProcess
  | Malloc ptr
  | Free ptr
  | CountObject ObjectType CounterType
  | SetActiveProcess "nat option"
  | TaskNew ptr TaskCallback
  | ScheduleTask ptr SimulationTime
  | TaskUnref ptr

record world =
  proc :: Process
  threads :: "ptr \<Rightarrow> Thread option"
  waiters :: "ptr \<Rightarrow> ProcessWaiter option"
  freed :: "ptr list"
  listeners :: "ptr \<Rightarrow> DescriptorListener option"
  tasks :: "ptr \<Rightarrow> Task option"
  attached :: "ptr \<Rightarrow> ptr list"
  descStatus :: "ptr \<Rightarrow> DescriptorStatus set"
  descRefs :: "ptr \<Rightarrow> int"
  hostRefs :: int
  nextPtr :: ptr
  activeProcess :: "nat option"
  cpuDelay :: nat
  processingTime :: nat
  pluginErrors :: nat
  currentTime :: SimulationTime
  queue :: "(ptr \<times> SimulationTime) list"
  logged :: "LogLine list"
  guest :: "GuestBurst list"
  elapsedReadings :: "real list"
  dataPath :: string
  openResult :: "string \<Rightarrow> int"
  trace :: "event list"

subsection \<open>The environment: worker, host, logger, glib\<close>

definition call :: "event \<Rightarrow> world \<Rightarrow> world" where
  "call e w = w\<lparr>trace := trace w @ [e]\<rparr>"

definition logmsg :: "LogLevel \<Rightarrow> string \<Rightarrow> LogArg list \<Rightarrow> world \<Rightarrow> world" where
  "logmsg l fmt as w = w\<lparr>logged := logged w @ [(l, fmt, as)]\<rparr>"

definition setProc :: "(Process \<Rightarrow> Process) \<Rightarrow> world \<Rightarrow> world" where
  "setProc f w = w\<lparr>proc := f (proc w)\<rparr>"

definition alloc :: "world \<Rightarrow> ptr \<times> world" where
  "alloc w = (nextPtr w, w\<lparr>nextPtr := Suc (nextPtr w)\<rparr>)"

definition worker_setActiveProcess :: "nat option \<Rightarrow> world \<Rightarrow> world" where
  "worker_setActiveProcess p w = call (SetActiveProcess p) (w\<lparr>activeProcess := p\<rparr>)"

definition worker_incrementPluginError :: "world \<Rightarrow> world" where
  "worker_incrementPluginError w = w\<lparr>pluginErrors := pluginErrors w + 1\<rparr>"

definition worker_countObject :: "ObjectType \<Rightarrow> CounterType \<Rightarrow> world \<Rightarrow> world" where
  "worker_countObject ot ct w = call (CountObject ot ct) w"

definition worker_getCurrentTime :: "world \<Rightarrow> SimulationTime" where
  "worker_getCurrentTime w = currentTime w"

definition cpu_addDelay :: "SimulationTime \<Rightarrow> world \<Rightarrow> world" where
  "cpu_addDelay delay w = w\<lparr>cpuDelay := cpuDelay w + unat delay\<rparr>"

definition tracker_addProcessingTime :: "SimulationTime \<Rightarrow> world \<Rightarrow> world" where
  "tracker_addProcessingTime delay w = w\<lparr>processingTime := processingTime w + unat delay\<rparr>"

definition host_ref :: "ptr \<Rightarrow> world \<Rightarrow> world" where
  "host_ref h w = call (HostRef h) (w\<lparr>hostRefs := hostRefs w + 1\<rparr>)"

definition host_unref :: "ptr \<Rightarrow> world \<Rightarrow> world" where
  "host_unref h w = call (HostUnref h) (w\<lparr>hostRefs := hostRefs w - 1\<rparr>)"

definition g_timer_start :: "world \<Rightarrow> world" where
  "g_timer_start w = call GTimerStart w"

definition g_timer_elapsed :: "world \<Rightarrow> real \<times> world" where
  "g_timer_elapsed w =
     (case elapsedReadings w of
        [] \<Rightarrow> (0, w)
      | e # es \<Rightarrow> (e, w\<lparr>elapsedReadings := es\<rparr>))"

definition sys_open :: "string \<Rightarrow> world \<Rightarrow> int \<times> world" where
  "sys_open path w = (openResult w path, call (Open path) w)"

definition sys_close :: "int \<Rightarrow> world \<Rightarrow> world" where
  "sys_close fd w = call (Close fd) w"

definition SIMTIME_ONE_SECOND :: real where
  "SIMTIME_ONE_SECOND = 1000000000"

subsection \<open>The descriptor layer\<close>

text \<open>
  Modelled from the spec: descriptor.h and descriptor\_listener.h are not part of the
  sources; spec 6 gives their contract. A listener is created with one reference and
  no monitored status; it is attached to and detached from a descriptor's listener
  set; its last unref releases the object (\<open>process_unref\<close>) and the argument
  (\<open>_process_unrefWaiter\<close>), see \<open>descriptorlistener_unref\<close> below.
\<close>

definition descriptor_ref :: "ptr \<Rightarrow> world \<Rightarrow> world" where
  "descriptor_ref d w = call (DescriptorRef d) (w\<lparr>descRefs := (descRefs w)(d := descRefs w d + 1)\<rparr>)"

definition descriptor_unref :: "ptr \<Rightarrow> world \<Rightarrow> world" where
  "descriptor_unref d w = call (DescriptorUnref d) (w\<lparr>descRefs := (descRefs w)(d := descRefs w d - 1)\<rparr>)"

definition descriptorlistener_new :: "ptr \<Rightarrow> world \<Rightarrow> ptr \<times> world" where
  "descriptorlistener_new waiter w =
     (let (l, w1) = alloc w
      in (l, call (ListenerNew l waiter)
               (w1\<lparr>listeners := (listeners w1)(l \<mapsto>
                  \<lparr>listenerArgument = waiter, monitorStatus = {},
                   monitorFilter = DLF_NEVER, listenerRefs = 1\<rparr>)\<rparr>)))"

definition descriptorlistener_setMonitorStatus ::
  "ptr \<Rightarrow> DescriptorStatus set \<Rightarrow> DescriptorListenerFilter \<Rightarrow> world \<Rightarrow> world" where
  "descriptorlistener_setMonitorStatus l status flt w =
     call (ListenerSetMonitorStatus l status flt)
       (case listeners w l of
          None \<Rightarrow> w
        | Some L \<Rightarrow> w\<lparr>listeners := (listeners w)(l \<mapsto>
                      L\<lparr>monitorStatus := status, monitorFilter := flt\<rparr>)\<rparr>)"

definition descriptor_addListener :: "ptr \<Rightarrow> ptr \<Rightarrow> world \<Rightarrow> world" where
  "descriptor_addListener d l w =
     call (DescriptorAddListener d l)
       (if l \<in> set (attached w d) then w
        else w\<lparr>attached := (attached w)(d := attached w d @ [l])\<rparr>)"

definition descriptor_removeListener :: "ptr \<Rightarrow> ptr \<Rightarrow> world \<Rightarrow> world" where
  "descriptor_removeListener d l w =
     call (DescriptorRemoveListener d l)
       (w\<lparr>attached := (attached w)(d := removeAll l (attached w d))\<rparr>)"

subsection \<open>The thread layer\<close>

text \<open>
  Modelled from the spec: thread.h is not part of the sources; spec 4.2 gives the
  operations. \<open>isRunning\<close> and \<open>getReturnCode\<close> read the object, \<open>terminate\<close>
  force-stops it, the last \<open>unref\<close> frees it. On a pointer to no live thread the
  operations leave the world as it is.
\<close>

definition thread_isRunning :: "ptr \<Rightarrow> world \<Rightarrow> bool" where
  "thread_isRunning t w = (case threads w t of None \<Rightarrow> False | Some T \<Rightarrow> running T)"

definition thread_getReturnCode :: "ptr \<Rightarrow> world \<Rightarrow> int" where
  "thread_getReturnCode t w = (case threads w t of None \<Rightarrow> 0 | Some T \<Rightarrow> exitCode T)"

definition thread_terminate :: "ptr \<Rightarrow> world \<Rightarrow> world" where
  "thread_terminate t w =
     call (ThreadTerminate t)
       (case threads w t of
          None \<Rightarrow> w
        | Some T \<Rightarrow> w\<lparr>threads := (threads w)(t \<mapsto> T\<lparr>running := False\<rparr>)\<rparr>)"

definition thread_ref :: "ptr \<Rightarrow> world \<Rightarrow> world" where
  "thread_ref t w =
     call (ThreadRef t)
       (case threads w t of
          None \<Rightarrow> w
        | Some T \<Rightarrow> w\<lparr>threads := (threads w)(t \<mapsto> T\<lparr>threadRefs := threadRefs T + 1\<rparr>)\<rparr>)"

definition thread_unref :: "ptr \<Rightarrow> world \<Rightarrow> world" where
  "thread_unref t w =
     call (ThreadUnref t)
       (case threads w t of
          None \<Rightarrow> w
        | Some T \<Rightarrow>
            if threadRefs T - 1 \<le> 0 then w\<lparr>threads := (threads w)(t := None)\<rparr>
            else w\<lparr>threads := (threads w)(t \<mapsto> T\<lparr>threadRefs := threadRefs T - 1\<rparr>)\<rparr>)"

definition thread_new :: "InterposeMethod \<Rightarrow> int \<Rightarrow> world \<Rightarrow> ptr \<times> world" where
  "thread_new variant tid w =
     (let (t, w1) = alloc w
      in (t, call (ThreadNew t variant tid)
               (w1\<lparr>threads := (threads w1)(t \<mapsto>
                  \<lparr>threadVariant = variant, threadID = tid, running = False,
                   exitCode = 0, threadRefs = 1\<rparr>)\<rparr>)))"

subsection \<open>process.c: names, CPU accounting, logging of the return code\<close>

definition process_getName :: "world \<Rightarrow> string" where
  "process_getName w = processName (proc w)"

definition process_handleTimerResult :: "real \<Rightarrow> world \<Rightarrow> world" where
  "process_handleTimerResult elapsedTimeSec w =
     (let delay = (word_of_int \<lfloor>elapsedTimeSec * SIMTIME_ONE_SECOND\<rfloor> :: SimulationTime)
      in setProc (\<lambda>p. p\<lparr>totalRunTime := totalRunTime p + elapsedTimeSec\<rparr>)
           (tracker_addProcessingTime delay (cpu_addDelay delay w)))"

fun digits :: "nat \<Rightarrow> string" where
  "digits n =
     (if n < 10 then [''0123456789'' ! n]
      else digits (n div 10) @ [''0123456789'' ! (n mod 10)])"

definition printf_i :: "int \<Rightarrow> string" where
  "printf_i i = (if i < 0 then ''-'' @ digits (nat (- i)) else digits (nat i))"

definition mainResultString :: "int \<Rightarrow> string \<Rightarrow> string" where
  "mainResultString code name =
     ''main '' @ (if code = 0 then ''success'' else ''error'') @ '' code '' @ [CHR 0x27]
       @ printf_i code @ [CHR 0x27] @ '' for process '' @ [CHR 0x27] @ name @ [CHR 0x27]"

definition process_logReturnCode :: "int \<Rightarrow> world \<Rightarrow> world" where
  "process_logReturnCode code w =
     (if \<not> didLogReturnCode (proc w) then
        let s = mainResultString code (process_getName w);
            w1 = (if code = 0 then logmsg LOG_MESSAGE ''%s'' [ArgS s] w
                  else worker_incrementPluginError (logmsg LOG_WARNING ''%s'' [ArgS s] w))
        in setProc (\<lambda>p. p\<lparr>didLogReturnCode := True\<rparr>) w1
      else w)"

definition process_check :: "world \<Rightarrow> world" where
  "process_check w =
     (case mainThread (proc w) of
        None \<Rightarrow> w
      | Some t \<Rightarrow>
          if thread_isRunning t w then
            logmsg LOG_INFO
              ''process '%s' is running, but threads are blocked waiting for events''
              [ArgS (process_getName w)] w
          else
            let returnCode = thread_getReturnCode t w;
                w1 = logmsg LOG_MESSAGE
                       ''process '%s' has completed or is otherwise no longer running''
                       [ArgS (process_getName w)] w;
                w2 = process_logReturnCode returnCode w1;
                w3 = thread_terminate t w2;
                w4 = thread_unref t w3;
                w5 = setProc (\<lambda>p. p\<lparr>mainThread := None\<rparr>) w4
            in logmsg LOG_MESSAGE ''total runtime for process '%s' was %f seconds''
                 [ArgS (process_getName w5), ArgF (totalRunTime (proc w5))] w5)"

definition process_isRunning :: "world \<Rightarrow> bool" where
  "process_isRunning w =
     (case mainThread (proc w) of None \<Rightarrow> False | Some t \<Rightarrow> thread_isRunning t w)"

definition process_wantsNotify :: "world \<Rightarrow> int \<Rightarrow> bool" where
  "process_wantsNotify w epollfd = False"

definition process_ref :: "world \<Rightarrow> world" where
  "process_ref w = setProc (\<lambda>p. p\<lparr>referenceCount := referenceCount p + 1\<rparr>) w"

text \<open>
  \<open>process_new\<close> fills a zeroed struct; the plugin name and path are asserted to be
  present. \<open>pluginSymbol\<close> is not used by the function.
\<close>

definition process_new ::
  "ptr \<Rightarrow> nat \<Rightarrow> SimulationTime \<Rightarrow> SimulationTime \<Rightarrow> InterposeMethod \<Rightarrow> string \<Rightarrow>
   string option \<Rightarrow> string option \<Rightarrow> string list option \<Rightarrow> string list option \<Rightarrow>
   world \<Rightarrow> error + world" where
  "process_new h pid start stop method hostName pluginName pluginPath env args w =
     (case pluginName of
        None \<Rightarrow> Inl (AssertionFailed ''pluginName'')
      | Some name \<Rightarrow>
          (case pluginPath of
             None \<Rightarrow> Inl (AssertionFailed ''pluginPath'')
           | Some path \<Rightarrow>
               Inr (worker_countObject OBJECT_TYPE_PROCESS COUNTER_TYPE_NEW
                      (host_ref h
                         (w\<lparr>proc :=
                            \<lparr>host = Some h, processID = pid,
                             processName = hostName @ ''.'' @ name @ ''.'' @ digits pid,
                             interposeMethod = method, exeName = Some name,
                             exePath = Some path, isExecuting = False, totalRunTime = 0,
                             startTime = start, stopTime = stop, argv = args, envv = env,
                             returnCode = 0, didLogReturnCode = False, mainThread = None,
                             threadIDCounter = 0, stderrFD = - 1, stdoutFD = - 1,
                             referenceCount = 1\<rparr>\<rparr>)))))"

subsection \<open>process.c: arming a waiter\<close>

definition setWaiter :: "ptr \<Rightarrow> (ProcessWaiter \<Rightarrow> ProcessWaiter) \<Rightarrow> world \<Rightarrow> world" where
  "setWaiter waiter f w = w\<lparr>waiters := (waiters w)(waiter := map_option f (waiters w waiter))\<rparr>"

text \<open>The block of \<open>process_listenForStatus\<close> under \<open>if (waiter->timer)\<close>.\<close>

definition listenForStatus_timer :: "ptr \<Rightarrow> ptr \<Rightarrow> world \<Rightarrow> world" where
  "listenForStatus_timer waiter t w =
     (let (l, w1) = descriptorlistener_new waiter w;
          w2 = setWaiter waiter (\<lambda>W. W\<lparr>timerListener := Some l\<rparr>) w1;
          w3 = process_ref w2;
          w4 = setWaiter waiter
                 (\<lambda>W. W\<lparr>waiterReferenceCount := waiterReferenceCount W + 1\<rparr>) w3;
          w5 = descriptorlistener_setMonitorStatus l {DS_READABLE} DLF_OFF_TO_ON w4
      in descriptor_addListener t l w5)"

text \<open>The block of \<open>process_listenForStatus\<close> under \<open>if (waiter->descriptor)\<close>.\<close>

definition listenForStatus_descriptor ::
  "ptr \<Rightarrow> ptr \<Rightarrow> DescriptorStatus set \<Rightarrow> world \<Rightarrow> world" where
  "listenForStatus_descriptor waiter d status w =
     (let (l, w1) = descriptorlistener_new waiter w;
          w2 = setWaiter waiter (\<lambda>W. W\<lparr>descriptorListener := Some l\<rparr>) w1;
          w3 = process_ref w2;
          w4 = setWaiter waiter
                 (\<lambda>W. W\<lparr>waiterReferenceCount := waiterReferenceCount W + 1\<rparr>) w3;
          w5 = descriptorlistener_setMonitorStatus l status DLF_OFF_TO_ON w4
      in descriptor_addListener d l w5)"

definition process_listenForStatus ::
  "ptr option \<Rightarrow> ptr option \<Rightarrow> ptr option \<Rightarrow> DescriptorStatus set \<Rightarrow> world \<Rightarrow> world" where
  "process_listenForStatus thr timeout desc status w =
     (if timeout = None \<and> desc = None then w
      else
        let (waiter, w1) = alloc w;
            w2 = call (Malloc waiter) w1;
            w3 = w2\<lparr>waiters := (waiters w2)(waiter \<mapsto>
                   \<lparr>thread = thr, timer = timeout, timerListener = None,
                    descriptor = desc, descriptorListener = None,
                    waiterReferenceCount = 0\<rparr>)\<rparr>;
            w4 = (case thr of None \<Rightarrow> w3 | Some t \<Rightarrow> thread_ref t w3);
            w5 = (case timeout of None \<Rightarrow> w4 | Some t \<Rightarrow> descriptor_ref t w4);
            w6 = (case desc of None \<Rightarrow> w5 | Some d \<Rightarrow> descriptor_ref d w5);
            w7 = worker_countObject OBJECT_TYPE_PROCESS_WAITER COUNTER_TYPE_NEW w6;
            w8 = (case timeout of None \<Rightarrow> w7 | Some t \<Rightarrow> listenForStatus_timer waiter t w7)
        in (case desc of None \<Rightarrow> w8 | Some d \<Rightarrow> listenForStatus_descriptor waiter d status w8))"

subsection \<open>Guest bursts: thread\_run and thread\_resume\<close>

text \<open>
  Modelled from the spec: \<open>run\<close> and \<open>resume\<close> execute the guest to its next
  blocking point or exit (spec 4.2, 5). The bursts the guest will make are the list
  \<open>guest\<close> of the world: the guest exits with a code, or issues a blocking call, for
  which the thread calls \<open>process_listenForStatus\<close> before it yields (spec 2). With
  no burst left the thread stays blocked.
\<close>

definition setThread :: "ptr \<Rightarrow> (Thread \<Rightarrow> Thread) \<Rightarrow> world \<Rightarrow> world" where
  "setThread t f w = w\<lparr>threads := (threads w)(t := map_option f (threads w t))\<rparr>"

definition guestBurst :: "ptr \<Rightarrow> world \<Rightarrow> world" where
  "guestBurst t w =
     (case guest w of
        [] \<Rightarrow> w
      | g # gs \<Rightarrow>
          (case g of
             GuestExits code \<Rightarrow>
               setThread t (\<lambda>T. T\<lparr>running := False, exitCode := code\<rparr>) (w\<lparr>guest := gs\<rparr>)
           | GuestBlocks timeout desc status \<Rightarrow>
               process_listenForStatus (Some t) timeout desc status (w\<lparr>guest := gs\<rparr>)))"

text \<open>The number of listeners the next burst of the guest installs.\<close>

definition burstListeners :: "world \<Rightarrow> int" where
  "burstListeners w =
     (case guest w of
        GuestBlocks timeout desc status # gs \<Rightarrow>
          (if timeout = None then 0 else 1) + (if desc = None then 0 else 1)
      | _ \<Rightarrow> 0)"

definition thread_run ::
  "ptr \<Rightarrow> string list option \<Rightarrow> string list option \<Rightarrow> int \<Rightarrow> int \<Rightarrow> world \<Rightarrow> world" where
  "thread_run t args env err out w =
     guestBurst t (setThread t (\<lambda>T. T\<lparr>running := True\<rparr>) (call (ThreadRun t args env err out) w))"

definition thread_resume :: "ptr \<Rightarrow> world \<Rightarrow> world" where
  "thread_resume t w =
     (let w1 = call (ThreadResume t) w
      in if thread_isRunning t w1 then guestBurst t w1 else w1)"

subsection \<open>process.c: start, continue, stop\<close>

definition process_start :: "world \<Rightarrow> error + world" where
  "process_start w =
     (if process_isRunning w then Inr w
      else
        let stdoutFileName = dataPath w @ ''/'' @ processName (proc w) @ ''.stdout'';
            (fd1, wa) = sys_open stdoutFileName w;
            w1 = setProc (\<lambda>p. p\<lparr>stdoutFD := fd1\<rparr>) wa
        in if stdoutFD (proc w1) < 0 then Inl (Fatal (''Opening '' @ stdoutFileName))
        else
        let stderrFileName = dataPath w1 @ ''/'' @ processName (proc w1) @ ''.stderr'';
            (fd2, wb) = sys_open stderrFileName w1;
            w2 = setProc (\<lambda>p. p\<lparr>stderrFD := fd2\<rparr>) wb
        in if stderrFD (proc w2) < 0 then Inl (Fatal (''Opening '' @ stderrFileName))
        else if mainThread (proc w2) \<noteq> None
          then Inl (AssertionFailed ''proc->mainThread == NULL'')
        else
          (case interposeMethod (proc w2) of
             INTERPOSE_OTHER n \<Rightarrow> Inl (Fatal ''Bad interposeMethod'')
           | variant \<Rightarrow>
               let (t, wc) = thread_new variant (threadIDCounter (proc w2)) w2;
                   w3 = setProc (\<lambda>p. p\<lparr>mainThread := Some t,
                                        threadIDCounter := threadIDCounter p + 1\<rparr>) wc;
                   w4 = logmsg LOG_MESSAGE (''starting process '%s'' @ [CHR 0x27])
                          [ArgS (process_getName w3)] w3;
                   w5 = worker_setActiveProcess (Some (processID (proc w4))) w4;
                   w6 = g_timer_start w5;
                   w7 = setProc (\<lambda>p. p\<lparr>isExecuting := True\<rparr>) w6;
                   w8 = thread_run t (argv (proc w7)) (envv (proc w7))
                          (stderrFD (proc w7)) (stdoutFD (proc w7)) w7;
                   (elapsed, w9) = g_timer_elapsed w8;
                   w10 = process_handleTimerResult elapsed w9;
                   w11 = worker_setActiveProcess None w10;
                   w12 = logmsg LOG_MESSAGE ''process '%s' started in %f seconds''
                           [ArgS (process_getName w11), ArgF elapsed] w11
               in Inr (process_check w12)))"

definition process_getInterposeMethod :: "world \<Rightarrow> InterposeMethod" where
  "process_getInterposeMethod w = interposeMethod (proc w)"

definition process_continue :: "ptr option \<Rightarrow> world \<Rightarrow> world" where
  "process_continue thr w =
     (if \<not> process_isRunning w then w
      else
        let w1 = logmsg LOG_INFO
                   (''switching to thread controller to continue executing process '%s''
                      @ [CHR 0x27])
                   [ArgS (process_getName w)] w;
            w2 = worker_setActiveProcess (Some (processID (proc w1))) w1;
            w3 = g_timer_start w2;
            w4 = setProc (\<lambda>p. p\<lparr>isExecuting := True\<rparr>) w3;
            w5 = (case thr of
                    Some t \<Rightarrow> thread_resume t w4
                  | None \<Rightarrow> thread_resume (the (mainThread (proc w4))) w4);
            w6 = setProc (\<lambda>p. p\<lparr>isExecuting := False\<rparr>) w5;
            (elapsed, w7) = g_timer_elapsed w6;
            w8 = process_handleTimerResult elapsed w7;
            w9 = worker_setActiveProcess None w8;
            w10 = logmsg LOG_INFO ''process '%s' ran for %f seconds''
                    [ArgS (process_getName w9), ArgF elapsed] w9
        in process_check w10)"

definition process_stop :: "world \<Rightarrow> world" where
  "process_stop w =
     (let w1 = logmsg LOG_MESSAGE (''terminating process '%s'' @ [CHR 0x27])
                 [ArgS (process_getName w)] w;
          w2 = worker_setActiveProcess (Some (processID (proc w1))) w1;
          w3 = g_timer_start w2;
          w4 = setProc (\<lambda>p. p\<lparr>isExecuting := True\<rparr>) w3;
          w5 = (case mainThread (proc w4) of
                  None \<Rightarrow> w4
                | Some t \<Rightarrow>
                    setProc (\<lambda>p. p\<lparr>mainThread := None\<rparr>)
                      (thread_unref t (thread_terminate t w4)));
          w6 = setProc (\<lambda>p. p\<lparr>isExecuting := False\<rparr>) w5;
          (elapsed, w7) = g_timer_elapsed w6;
          w8 = process_handleTimerResult elapsed w7;
          w9 = worker_setActiveProcess None w8;
          w10 = logmsg LOG_MESSAGE ''process '%s' stopped in %f seconds''
                  [ArgS (process_getName w9), ArgF elapsed] w9
      in process_check w10)"

subsection \<open>process.c: reference counting and teardown\<close>

text \<open>The block of \<open>_process_free\<close> under \<open>if (proc->mainThread)\<close>.\<close>

definition process_free_mainThread :: "world \<Rightarrow> world" where
  "process_free_mainThread w =
     (case mainThread (proc w) of
        None \<Rightarrow> w
      | Some t \<Rightarrow>
          setProc (\<lambda>p. p\<lparr>mainThread := None\<rparr>)
            (thread_unref t (if thread_isRunning t w then thread_terminate t w else w)))"

definition process_free :: "world \<Rightarrow> world" where
  "process_free w =
     (let w1 = process_free_mainThread w;
          w2 = (case exePath (proc w1) of None \<Rightarrow> w1 | Some s \<Rightarrow> call (GStringFree s) w1);
          w3 = (case exeName (proc w2) of None \<Rightarrow> w2 | Some s \<Rightarrow> call (GStringFree s) w2);
          w4 = call (GStringFree (processName (proc w3))) w3;
          w5 = (case argv (proc w4) of None \<Rightarrow> w4 | Some a \<Rightarrow> call (GStrfreev a) w4);
          w6 = (case envv (proc w5) of None \<Rightarrow> w5 | Some e \<Rightarrow> call (GStrfreev e) w5);
          w7 = call GTimerDestroy w6;
          w8 = (case host (proc w7) of None \<Rightarrow> w7 | Some h \<Rightarrow> host_unref h w7);
          w9 = (if stderrFD (proc w8) \<ge> 0 then sys_close (stderrFD (proc w8)) w8 else w8);
          w10 = (if stdoutFD (proc w9) \<ge> 0 then sys_close (stdoutFD (proc w9)) w9 else w9);
          w11 = worker_countObject OBJECT_TYPE_PROCESS COUNTER_TYPE_FREE w10
      in call GFreeProcess w11)"

definition process_unref :: "world \<Rightarrow> error + world" where
  "process_unref w =
     (let w1 = setProc (\<lambda>p. p\<lparr>referenceCount := referenceCount p - 1\<rparr>) w
      in if \<not> referenceCount (proc w1) \<ge> 0
           then Inl (AssertionFailed ''proc->referenceCount >= 0'')
         else if referenceCount (proc w1) = 0 then Inr (process_free w1)
         else Inr w1)"

text \<open>
  \<open>free(waiter)\<close> leaves the bytes of the struct in place: the model keeps the
  contents of a freed waiter readable and records its address in \<open>freed\<close>.
\<close>

definition process_unrefWaiter :: "ptr \<Rightarrow> world \<Rightarrow> error + world" where
  "process_unrefWaiter waiter w =
     (case waiters w waiter of
        None \<Rightarrow> Inl (InvalidPointer waiter)
      | Some W0 \<Rightarrow>
          let w1 = setWaiter waiter
                     (\<lambda>W. W\<lparr>waiterReferenceCount := waiterReferenceCount W - 1\<rparr>) w
          in if \<not> waiterReferenceCount W0 - 1 \<ge> 0
               then Inl (AssertionFailed ''waiter->referenceCount >= 0'')
             else if waiterReferenceCount W0 - 1 = 0 then
               let w2 = (case thread W0 of None \<Rightarrow> w1 | Some t \<Rightarrow> thread_unref t w1);
                   w3 = (case timer W0 of None \<Rightarrow> w2 | Some t \<Rightarrow> descriptor_unref t w2);
                   w4 = (case descriptor W0 of None \<Rightarrow> w3 | Some d \<Rightarrow> descriptor_unref d w3);
                   w5 = call (Free waiter) (w4\<lparr>freed := freed w4 @ [waiter]\<rparr>)
               in Inr (worker_countObject OBJECT_TYPE_PROCESS_WAITER COUNTER_TYPE_FREE w5)
             else Inr w1)"

text \<open>
  Modelled from the spec: \<open>unref(listener)\<close>; the last unref of a listener releases
  its process reference and its waiter reference (spec 4.3, step 4).
\<close>

definition descriptorlistener_unref :: "ptr \<Rightarrow> world \<Rightarrow> error + world" where
  "descriptorlistener_unref l w =
     (let w1 = call (ListenerUnref l) w
      in case listeners w1 l of
           None \<Rightarrow> Inl (InvalidPointer l)
         | Some L \<Rightarrow>
             if listenerRefs L - 1 > 0
               then Inr (w1\<lparr>listeners := (listeners w1)(l \<mapsto>
                           L\<lparr>listenerRefs := listenerRefs L - 1\<rparr>)\<rparr>)
             else
               (case process_unref (w1\<lparr>listeners := (listeners w1)(l := None)\<rparr>) of
                  Inl e \<Rightarrow> Inl e
                | Inr w2 \<Rightarrow> process_unrefWaiter (listenerArgument L) w2))"

subsection \<open>process.c: scheduling the start and stop tasks\<close>

text \<open>
  Modelled from the spec: task.h and the scheduler are not part of the sources. A task
  is created with one reference, \<open>worker_scheduleTask\<close> takes one for the queue, and
  the last \<open>task_unref\<close> frees the task, which calls the object's free function,
  \<open>process_unref\<close> (spec 4.1: each posted task owns a Process reference, released
  when the task is freed).
\<close>

definition task_new :: "TaskCallback \<Rightarrow> world \<Rightarrow> ptr \<times> world" where
  "task_new cb w =
     (let (k, w1) = alloc w
      in (k, call (TaskNew k cb)
               (w1\<lparr>tasks := (tasks w1)(k \<mapsto> \<lparr>taskCallback = cb, taskRefs = 1\<rparr>)\<rparr>)))"

definition worker_scheduleTask :: "ptr \<Rightarrow> SimulationTime \<Rightarrow> world \<Rightarrow> world" where
  "worker_scheduleTask k delay w =
     call (ScheduleTask k delay)
       (w\<lparr>queue := queue w @ [(k, delay)],
          tasks := (tasks w)(k := map_option (\<lambda>T. T\<lparr>taskRefs := taskRefs T + 1\<rparr>) (tasks w k))\<rparr>)"

definition task_unref :: "ptr \<Rightarrow> world \<Rightarrow> error + world" where
  "task_unref k w =
     (let w1 = call (TaskUnref k) w
      in case tasks w1 k of
           None \<Rightarrow> Inl (InvalidPointer k)
         | Some T \<Rightarrow>
             if taskRefs T - 1 > 0
               then Inr (w1\<lparr>tasks := (tasks w1)(k \<mapsto> T\<lparr>taskRefs := taskRefs T - 1\<rparr>)\<rparr>)
             else process_unref (w1\<lparr>tasks := (tasks w1)(k := None)\<rparr>))"

text \<open>The two blocks of \<open>process_schedule\<close>, after their guards.\<close>

definition startDelay :: "world \<Rightarrow> SimulationTime" where
  "startDelay w =
     (if startTime (proc w) \<le> worker_getCurrentTime w then 1
      else startTime (proc w) - worker_getCurrentTime w)"

definition stopDelay :: "world \<Rightarrow> SimulationTime" where
  "stopDelay w =
     (if stopTime (proc w) \<le> worker_getCurrentTime w then 1
      else stopTime (proc w) - worker_getCurrentTime w)"

definition postTask :: "TaskCallback \<Rightarrow> SimulationTime \<Rightarrow> world \<Rightarrow> error + world" where
  "postTask cb delay w =
     (let w1 = process_ref w;
          (k, w2) = task_new cb w1;
          w3 = worker_scheduleTask k delay w2
      in task_unref k w3)"

definition process_schedule :: "world \<Rightarrow> error + world" where
  "process_schedule w =
     (case (if stopTime (proc w) = 0 \<or> startTime (proc w) < stopTime (proc w)
            then postTask RunStartTask (startDelay w) w else Inr w) of
        Inl e \<Rightarrow> Inl e
      | Inr w1 \<Rightarrow>
          if stopTime (proc w1) > 0 \<and> stopTime (proc w1) > startTime (proc w1)
          then postTask RunStopTask (stopDelay w1) w1 else Inr w1)"

subsection \<open>process.c: the waiter fires\<close>

definition process_notifyStatusChanged :: "ptr \<Rightarrow> world \<Rightarrow> error + world" where
  "process_notifyStatusChanged waiter w =
     (case waiters w waiter of
        None \<Rightarrow> Inl (InvalidPointer waiter)
      | Some W \<Rightarrow>
          let w1 = (case (timer W, timerListener W) of
                      (Some t, Some lt) \<Rightarrow>
                        descriptorlistener_setMonitorStatus lt {} DLF_NEVER
                          (descriptor_removeListener t lt w)
                    | _ \<Rightarrow> w);
              w2 = (case (descriptor W, descriptorListener W) of
                      (Some d, Some ld) \<Rightarrow>
                        descriptorlistener_setMonitorStatus ld {} DLF_NEVER
                          (descriptor_removeListener d ld w1)
                    | _ \<Rightarrow> w1);
              w3 = process_continue (thread W) w2
          in (case (case Option.bind (waiters w3 waiter) timerListener of
                      None \<Rightarrow> Inr w3
                    | Some lt \<Rightarrow> descriptorlistener_unref lt w3) of
                Inl e \<Rightarrow> Inl e
              | Inr w4 \<Rightarrow>
                  (case Option.bind (waiters w4 waiter) descriptorListener of
                     None \<Rightarrow> Inr w4
                   | Some ld \<Rightarrow> descriptorlistener_unref ld w4)))"

subsection \<open>Delivery of status changes\<close>

text \<open>
  Modelled from the spec: a listener fires when the monitored status transitions
  according to its edge mode while attached (spec 6); callbacks are delivered
  synchronously (spec 5). A change of a descriptor's status is offered to the
  listeners attached when the change happens, each one only if it is still attached
  when its turn comes.
\<close>

definition listenerFires ::
  "DescriptorListener \<Rightarrow> DescriptorStatus set \<Rightarrow> DescriptorStatus set \<Rightarrow> bool" where
  "listenerFires L current changed =
     (monitorFilter L = DLF_OFF_TO_ON \<and> monitorStatus L \<inter> changed \<inter> current \<noteq> {})"

fun notifyListeners :: "ptr \<Rightarrow> DescriptorStatus set \<Rightarrow> ptr list \<Rightarrow> world \<Rightarrow> error + world" where
  "notifyListeners d changed [] w = Inr w"
| "notifyListeners d changed (l # ls) w =
     (if l \<in> set (attached w d) then
        (case listeners w l of
           None \<Rightarrow> Inl (InvalidPointer l)
         | Some L \<Rightarrow>
             if listenerFires L (descStatus w d) changed then
               (case process_notifyStatusChanged (listenerArgument L)
                       (call (ListenerCallback l (listenerArgument L)) w) of
                  Inl e \<Rightarrow> Inl e
                | Inr w1 \<Rightarrow> notifyListeners d changed ls w1)
             else notifyListeners d changed ls w)
      else notifyListeners d changed ls w)"

definition descriptor_adjustStatus ::
  "ptr \<Rightarrow> DescriptorStatus set \<Rightarrow> bool \<Rightarrow> world \<Rightarrow> error + world" where
  "descriptor_adjustStatus d status doSetBits w =
     (let old = descStatus w d;
          new = (if doSetBits then old \<union> status else old - status);
          changed = (old - new) \<union> (new - old);
          w1 = w\<lparr>descStatus := (descStatus w)(d := new)\<rparr>
      in if changed = {} then Inr w1 else notifyListeners d changed (attached w1 d) w1)"

fun deliver :: "(ptr \<times> DescriptorStatus set \<times> bool) list \<Rightarrow> world \<Rightarrow> error + world" where
  "deliver [] w = Inr w"
| "deliver ((d, status, doSetBits) # evs) w =
     (case descriptor_adjustStatus d status doSetBits w of
        Inl e \<Rightarrow> Inl e
      | Inr w1 \<Rightarrow> deliver evs w1)"

subsection \<open>What an operation leaves in place\<close>

text \<open>
  \<open>isCallback\<close> picks the deliveries of a listener callback out of the trace.
  \<open>frame w w'\<close>: from \<open>w\<close> to \<open>w'\<close> objects were only allocated. Descriptor
  statuses, the freed addresses and the callbacks delivered are the same, the Process's
  count did not fall, and every waiter, listener and attachment of \<open>w'\<close> either is as in
  \<open>w\<close> or lies at an address allocated in between and refers only to such addresses.
\<close>

fun isCallback :: "event \<Rightarrow> bool" where
  "isCallback (ListenerCallback l waiter) = True"
| "isCallback _ = False"

definition frame :: "world \<Rightarrow> world \<Rightarrow> bool" where
  "frame w w' \<longleftrightarrow>
     nextPtr w \<le> nextPtr w' \<and>
     descStatus w' = descStatus w \<and>
     freed w' = freed w \<and>
     filter isCallback (trace w') = filter isCallback (trace w) \<and>
     referenceCount (proc w) \<le> referenceCount (proc w') \<and>
     (\<forall>p. waiters w' p = waiters w p \<or>
          (nextPtr w \<le> p \<and> p < nextPtr w' \<and>
           (\<forall>W l. waiters w' p = Some W \<longrightarrow>
                  timerListener W = Some l \<or> descriptorListener W = Some l \<longrightarrow>
                  nextPtr w \<le> l \<and> l < nextPtr w'))) \<and>
     (\<forall>p. listeners w' p = listeners w p \<or>
          (nextPtr w \<le> p \<and> p < nextPtr w' \<and>
           (\<forall>L. listeners w' p = Some L \<longrightarrow>
                nextPtr w \<le> listenerArgument L \<and> listenerArgument L < nextPtr w'))) \<and>
     (\<forall>d l. (l \<in> set (attached w' d) \<longleftrightarrow> l \<in> set (attached w d)) \<or>
            (nextPtr w \<le> l \<and> l < nextPtr w'))"

text \<open>
  The sides of a waiter: descriptor and listener of the timer side, then of the
  descriptor side, where the listener is installed. \<open>detachSides\<close> removes and
  disables the listeners of the given sides, in order; \<open>waiterRelease\<close> are the calls
  made when the count of a waiter reaches zero.
\<close>

definition waiterSides :: "ProcessWaiter \<Rightarrow> (ptr \<times> ptr) list" where
  "waiterSides W =
     (case (timer W, timerListener W) of (Some t, Some l) \<Rightarrow> [(t, l)] | _ \<Rightarrow> [])
     @ (case (descriptor W, descriptorListener W) of (Some d, Some l) \<Rightarrow> [(d, l)] | _ \<Rightarrow> [])"

fun detachSides :: "(ptr \<times> ptr) list \<Rightarrow> world \<Rightarrow> world" where
  "detachSides [] w = w"
| "detachSides ((d, l) # sides) w =
     detachSides sides
       (descriptorlistener_setMonitorStatus l {} DLF_NEVER (descriptor_removeListener d l w))"

definition waiterRelease :: "ptr \<Rightarrow> ProcessWaiter \<Rightarrow> event list" where
  "waiterRelease waiter W =
     (case thread W of None \<Rightarrow> [] | Some th \<Rightarrow> [ThreadUnref th])
     @ (case timer W of None \<Rightarrow> [] | Some t \<Rightarrow> [DescriptorUnref t])
     @ (case descriptor W of None \<Rightarrow> [] | Some d \<Rightarrow> [DescriptorUnref d])
     @ [Free waiter, CountObject OBJECT_TYPE_PROCESS_WAITER COUNTER_TYPE_FREE]"

subsection \<open>A waiter under a sequence of status changes\<close>

text \<open>
  \<open>callbacksFor waiter\<close> counts the deliveries of a listener callback bound to the
  waiter, that is the invocations of \<open>_process_notifyStatusChanged\<close> for it.
  \<open>triggered t d status st evs\<close>: among the status changes \<open>evs\<close>, applied from the
  statuses \<open>st\<close>, one turns \<open>DS_READABLE\<close> on at the timer \<open>t\<close> or turns one of the
  bits of \<open>status\<close> on at the descriptor \<open>d\<close>.
\<close>

fun isCallbackFor :: "ptr \<Rightarrow> event \<Rightarrow> bool" where
  "isCallbackFor waiter (ListenerCallback l p) = (p = waiter)"
| "isCallbackFor waiter _ = False"

definition callbacksFor :: "ptr \<Rightarrow> event list \<Rightarrow> nat" where
  "callbacksFor waiter es = length (filter (isCallbackFor waiter) es)"

fun triggered ::
  "ptr \<Rightarrow> ptr \<Rightarrow> DescriptorStatus set \<Rightarrow> (ptr \<Rightarrow> DescriptorStatus set) \<Rightarrow>
   (ptr \<times> DescriptorStatus set \<times> bool) list \<Rightarrow> bool" where
  "triggered t d status st [] = False"
| "triggered t d status st ((x, bits, doSetBits) # evs) =
     (let new = (if doSetBits then st x \<union> bits else st x - bits);
          changed = (st x - new) \<union> (new - st x)
      in (x = t \<and> DS_READABLE \<in> changed \<inter> new) \<or>
         (x = d \<and> status \<inter> changed \<inter> new \<noteq> {}) \<or>
         triggered t d status (st(x := new)) evs)"

text \<open>
  A world is well formed when the objects in it refer to allocated addresses only:
  listeners are bound to allocated waiters, waiters hold allocated listeners, the
  listeners attached to descriptors are allocated, and the callbacks delivered so far
  were for allocated waiters.
\<close>

definition wellformed :: "world \<Rightarrow> bool" where
  "wellformed w \<longleftrightarrow>
     (\<forall>l L. listeners w l = Some L \<longrightarrow> listenerArgument L < nextPtr w) \<and>
     (\<forall>p W l. waiters w p = Some W \<longrightarrow>
        timerListener W = Some l \<or> descriptorListener W = Some l \<longrightarrow> l < nextPtr w) \<and>
     (\<forall>d l. l \<in> set (attached w d) \<longrightarrow> l < nextPtr w) \<and>
     (\<forall>l p. ListenerCallback l p \<in> set (trace w) \<longrightarrow> p < nextPtr w)"

text \<open>
  The waiter at address \<open>n\<close>, armed on timer \<open>t\<close> and descriptor \<open>d\<close>, has its
  listeners at \<open>n + 1\<close> and \<open>n + 2\<close>. \<open>tidy\<close>: nothing else is bound to the waiter or
  holds its listeners, and they are attached nowhere but at \<open>t\<close> and \<open>d\<close>. \<open>armed\<close>:
  both listeners are attached and monitoring. \<open>detached\<close>: neither is attached.
  \<open>links\<close> are the pointers of a waiter to its descriptors and listeners.
\<close>

definition links :: "ProcessWaiter \<Rightarrow> ptr option \<times> ptr option \<times> ptr option \<times> ptr option" where
  "links W = (timer W, timerListener W, descriptor W, descriptorListener W)"

definition tidy :: "ptr \<Rightarrow> ptr \<Rightarrow> ptr \<Rightarrow> world \<Rightarrow> bool" where
  "tidy n t d w \<longleftrightarrow>
     Suc (Suc n) < nextPtr w \<and>
     (\<forall>l L. listeners w l = Some L \<longrightarrow> listenerArgument L = n \<longrightarrow>
        l = Suc n \<or> l = Suc (Suc n)) \<and>
     (\<forall>p W l. waiters w p = Some W \<longrightarrow> p \<noteq> n \<longrightarrow>
        timerListener W = Some l \<or> descriptorListener W = Some l \<longrightarrow>
        l \<noteq> Suc n \<and> l \<noteq> Suc (Suc n)) \<and>
     (\<forall>x. Suc n \<in> set (attached w x) \<longrightarrow> x = t) \<and>
     (\<forall>x. Suc (Suc n) \<in> set (attached w x) \<longrightarrow> x = d)"

definition armed :: "ptr \<Rightarrow> ptr \<Rightarrow> ptr \<Rightarrow> DescriptorStatus set \<Rightarrow> world \<Rightarrow> bool" where
  "armed n t d status w \<longleftrightarrow>
     (\<exists>W. waiters w n = Some W \<and> timer W = Some t \<and> timerListener W = Some (Suc n) \<and>
          descriptor W = Some d \<and> descriptorListener W = Some (Suc (Suc n))) \<and>
     Suc n \<in> set (attached w t) \<and> Suc (Suc n) \<in> set (attached w d) \<and>
     (\<exists>L. listeners w (Suc n) = Some L \<and> listenerArgument L = n \<and>
          monitorStatus L = {DS_READABLE} \<and> monitorFilter L = DLF_OFF_TO_ON) \<and>
     (\<exists>L. listeners w (Suc (Suc n)) = Some L \<and> listenerArgument L = n \<and>
          monitorStatus L = status \<and> monitorFilter L = DLF_OFF_TO_ON)"

definition detached :: "ptr \<Rightarrow> world \<Rightarrow> bool" where
  "detached n w \<longleftrightarrow>
     (\<forall>x. Suc n \<notin> set (attached w x) \<and> Suc (Suc n) \<notin> set (attached w x))"

text \<open>
  \<open>hits\<close>: among the listeners \<open>ls\<close> offered the change \<open>changed\<close> of the descriptor
  \<open>x\<close>, whose status is now \<open>current\<close>, one of the two listeners of the waiter fires.
\<close>

definition hits ::
  "ptr \<Rightarrow> ptr \<Rightarrow> ptr \<Rightarrow> DescriptorStatus set \<Rightarrow> ptr \<Rightarrow> DescriptorStatus set \<Rightarrow>
   DescriptorStatus set \<Rightarrow> ptr list \<Rightarrow> bool" where
  "hits n t d s x changed current ls \<longleftrightarrow>
     (x = t \<and> Suc n \<in> set ls \<and> DS_READABLE \<in> changed \<inter> current) \<or>
     (x = d \<and> Suc (Suc n) \<in> set ls \<and> s \<inter> changed \<inter> current \<noteq> {})"

subsection \<open>A worker with one process\<close>

text \<open>
  The process \<open>peer.tgen.7\<close> as \<open>process_new\<close> leaves it, on a worker at virtual
  time 500 with nothing else allocated; \<open>g\<close> is what the guest will do.
\<close>

definition exampleProcess :: Process where
  "exampleProcess =
     \<lparr>host = Some 1, processID = 7, processName = ''peer.tgen.7'',
      interposeMethod = INTERPOSE_PTRACE, exeName = Some ''tgen'',
      exePath = Some ''/usr/bin/tgen'', isExecuting = False, totalRunTime = 0,
      startTime = 1000, stopTime = 2000, argv = Some [''tgen'', ''client.xml''],
      envv = Some [], returnCode = 0, didLogReturnCode = False, mainThread = None,
      threadIDCounter = 0, stderrFD = - 1, stdoutFD = - 1, referenceCount = 1\<rparr>"

definition exampleWorld :: "GuestBurst list \<Rightarrow> world" where
  "exampleWorld g =
     \<lparr>proc = exampleProcess, threads = Map.empty, waiters = Map.empty, freed = [],
      listeners = Map.empty, tasks = Map.empty, attached = (\<lambda>d. []),
      descStatus = (\<lambda>d. {}), descRefs = (\<lambda>d. 1), hostRefs = 2, nextPtr = 10,
      activeProcess = None, cpuDelay = 0, processingTime = 0, pluginErrors = 0,
      currentTime = 500, queue = [], logged = [], guest = g,
      elapsedReadings = [1 / 4, 1 / 2, 1 / 8], dataPath = ''hosts/peer'',
      openResult = (\<lambda>path. if last path = CHR ''t'' then 3 else 4),
      trace = [HostRef 1, CountObject OBJECT_TYPE_PROCESS COUNTER_TYPE_NEW]\<rparr>"

text \<open>The world after the start task has fired.\<close>

definition started :: "GuestBurst list \<Rightarrow> world" where
  "started g = (case process_start (exampleWorld g) of Inr w \<Rightarrow> w | Inl e \<Rightarrow> exampleWorld g)"

section \<open>Selectors of the operations of the environment\<close>

lemma call_sel [simp]:
  "proc (call e w) = proc w"
  "threads (call e w) = threads w"
  "waiters (call e w) = waiters w"
  "freed (call e w) = freed w"
  "listeners (call e w) = listeners w"
  "tasks (call e w) = tasks w"
  "attached (call e w) = attached w"
  "descStatus (call e w) = descStatus w"
  "descRefs (call e w) = descRefs w"
  "hostRefs (call e w) = hostRefs w"
  "nextPtr (call e w) = nextPtr w"
  "activeProcess (call e w) = activeProcess w"
  "cpuDelay (call e w) = cpuDelay w"
  "processingTime (call e w) = processingTime w"
  "pluginErrors (call e w) = pluginErrors w"
  "currentTime (call e w) = currentTime w"
  "queue (call e w) = queue w"
  "logged (call e w) = logged w"
  "guest (call e w) = guest w"
  "elapsedReadings (call e w) = elapsedReadings w"
  "dataPath (call e w) = dataPath w"
  "openResult (call e w) = openResult w"
  "trace (call e w) = trace w @ [e]"
  by (auto simp: call_def split: option.splits)

lemma logmsg_sel [simp]:
  "proc (logmsg l f a w) = proc w"
  "threads (logmsg l f a w) = threads w"
  "waiters (logmsg l f a w) = waiters w"
  "freed (logmsg l f a w) = freed w"
  "listeners (logmsg l f a w) = listeners w"
  "tasks (logmsg l f a w) = tasks w"
  "attached (logmsg l f a w) = attached w"
  "descStatus (logmsg l f a w) = descStatus w"
  "descRefs (logmsg l f a w) = descRefs w"
  "hostRefs (logmsg l f a w) = hostRefs w"
  "nextPtr (logmsg l f a w) = nextPtr w"
  "activeProcess (logmsg l f a w) = activeProcess w"
  "cpuDelay (logmsg l f a w) = cpuDelay w"
  "processingTime (logmsg l f a w) = processingTime w"
  "pluginErrors (logmsg l f a w) = pluginErrors w"
  "currentTime (logmsg l f a w) = currentTime w"
  "queue (logmsg l f a w) = queue w"
  "logged (logmsg l f a w) = logged w @ [(l, f, a)]"
  "guest (logmsg l f a w) = guest w"
  "elapsedReadings (logmsg l f a w) = elapsedReadings w"
  "dataPath (logmsg l f a w) = dataPath w"
  "openResult (logmsg l f a w) = openResult w"
  "trace (logmsg l f a w) = trace w"
  by (auto simp: logmsg_def split: option.splits)

lemma setProc_sel [simp]:
  "proc (setProc f w) = f (proc w)"
  "threads (setProc f w) = threads w"
  "waiters (setProc f w) = waiters w"
  "freed (setProc f w) = freed w"
  "listeners (setProc f w) = listeners w"
  "tasks (setProc f w) = tasks w"
  "attached (setProc f w) = attached w"
  "descStatus (setProc f w) = descStatus w"
  "descRefs (setProc f w) = descRefs w"
  "hostRefs (setProc f w) = hostRefs w"
  "nextPtr (setProc f w) = nextPtr w"
  "activeProcess (setProc f w) = activeProcess w"
  "cpuDelay (setProc f w) = cpuDelay w"
  "processingTime (setProc f w) = processingTime w"
  "pluginErrors (setProc f w) = pluginErrors w"
  "currentTime (setProc f w) = currentTime w"
  "queue (setProc f w) = queue w"
  "logged (setProc f w) = logged w"
  "guest (setProc f w) = guest w"
  "elapsedReadings (setProc f w) = elapsedReadings w"
  "dataPath (setProc f w) = dataPath w"
  "openResult (setProc f w) = openResult w"
  "trace (setProc f w) = trace w"
  by (auto simp: setProc_def split: option.splits)

lemma worker_setActiveProcess_sel [simp]:
  "proc (worker_setActiveProcess p w) = proc w"
  "threads (worker_setActiveProcess p w) = threads w"
  "waiters (worker_setActiveProcess p w) = waiters w"
  "freed (worker_setActiveProcess p w) = freed w"
  "listeners (worker_setActiveProcess p w) = listeners w"
  "tasks (worker_setActiveProcess p w) = tasks w"
  "attached (worker_setActiveProcess p w) = attached w"
  "descStatus (worker_setActiveProcess p w) = descStatus w"
  "descRefs (worker_setActiveProcess p w) = descRefs w"
  "hostRefs (worker_setActiveProcess p w) = hostRefs w"
  "nextPtr (worker_setActiveProcess p w) = nextPtr w"
  "activeProcess (worker_setActiveProcess p w) = p"
  "cpuDelay (worker_setActiveProcess p w) = cpuDelay w"
  "processingTime (worker_setActiveProcess p w) = processingTime w"
  "pluginErrors (worker_setActiveProcess p w) = pluginErrors w"
  "currentTime (worker_setActiveProcess p w) = currentTime w"
  "queue (worker_setActiveProcess p w) = queue w"
  "logged (worker_setActiveProcess p w) = logged w"
  "guest (worker_setActiveProcess p w) = guest w"
  "elapsedReadings (worker_setActiveProcess p w) = elapsedReadings w"
  "dataPath (worker_setActiveProcess p w) = dataPath w"
  "openResult (worker_setActiveProcess p w) = openResult w"
  "trace (worker_setActiveProcess p w) = trace w @ [SetActiveProcess p]"
  by (auto simp: worker_setActiveProcess_def call_def split: option.splits)

lemma worker_incrementPluginError_sel [simp]:
  "proc (worker_incrementPluginError w) = proc w"
  "threads (worker_incrementPluginError w) = threads w"
  "waiters (worker_incrementPluginError w) = waiters w"
  "freed (worker_incrementPluginError w) = freed w"
  "listeners (worker_incrementPluginError w) = listeners w"
  "tasks (worker_incrementPluginError w) = tasks w"
  "attached (worker_incrementPluginError w) = attached w"
  "descStatus (worker_incrementPluginError w) = descStatus w"
  "descRefs (worker_incrementPluginError w) = descRefs w"
  "hostRefs (worker_incrementPluginError w) = hostRefs w"
  "nextPtr (worker_incrementPluginError w) = nextPtr w"
  "activeProcess (worker_incrementPluginError w) = activeProcess w"
  "cpuDelay (worker_incrementPluginError w) = cpuDelay w"
  "processingTime (worker_incrementPluginError w) = processingTime w"
  "pluginErrors (worker_incrementPluginError w) = pluginErrors w + 1"
  "currentTime (worker_incrementPluginError w) = currentTime w"
  "queue (worker_incrementPluginError w) = queue w"
  "logged (worker_incrementPluginError w) = logged w"
  "guest (worker_incrementPluginError w) = guest w"
  "elapsedReadings (worker_incrementPluginError w) = elapsedReadings w"
  "dataPath (worker_incrementPluginError w) = dataPath w"
  "openResult (worker_incrementPluginError w) = openResult w"
  "trace (worker_incrementPluginError w) = trace w"
  by (auto simp: worker_incrementPluginError_def split: option.splits)

lemma worker_countObject_sel [simp]:
  "proc (worker_countObject ot ct w) = proc w"
  "threads (worker_countObject ot ct w) = threads w"
  "waiters (worker_countObject ot ct w) = waiters w"
  "freed (worker_countObject ot ct w) = freed w"
  "listeners (worker_countObject ot ct w) = listeners w"
  "tasks (worker_countObject ot ct w) = tasks w"
  "attached (worker_countObject ot ct w) = attached w"
  "descStatus (worker_countObject ot ct w) = descStatus w"
  "descRefs (worker_countObject ot ct w) = descRefs w"
  "hostRefs (worker_countObject ot ct w) = hostRefs w"
  "nextPtr (worker_countObject ot ct w) = nextPtr w"
  "activeProcess (worker_countObject ot ct w) = activeProcess w"
  "cpuDelay (worker_countObject ot ct w) = cpuDelay w"
  "processingTime (worker_countObject ot ct w) = processingTime w"
  "pluginErrors (worker_countObject ot ct w) = pluginErrors w"
  "currentTime (worker_countObject ot ct w) = currentTime w"
  "queue (worker_countObject ot ct w) = queue w"
  "logged (worker_countObject ot ct w) = logged w"
  "guest (worker_countObject ot ct w) = guest w"
  "elapsedReadings (worker_countObject ot ct w) = elapsedReadings w"
  "dataPath (worker_countObject ot ct w) = dataPath w"
  "openResult (worker_countObject ot ct w) = openResult w"
  "trace (worker_countObject ot ct w) = trace w @ [CountObject ot ct]"
  by (auto simp: worker_countObject_def call_def split: option.splits)

lemma host_ref_sel [simp]:
  "proc (host_ref h w) = proc w"
  "threads (host_ref h w) = threads w"
  "waiters (host_ref h w) = waiters w"
  "freed (host_ref h w) = freed w"
  "listeners (host_ref h w) = listeners w"
  "tasks (host_ref h w) = tasks w"
  "attached (host_ref h w) = attached w"
  "descStatus (host_ref h w) = descStatus w"
  "descRefs (host_ref h w) = descRefs w"
  "hostRefs (host_ref h w) = hostRefs w + 1"
  "nextPtr (host_ref h w) = nextPtr w"
  "activeProcess (host_ref h w) = activeProcess w"
  "cpuDelay (host_ref h w) = cpuDelay w"
  "processingTime (host_ref h w) = processingTime w"
  "pluginErrors (host_ref h w) = pluginErrors w"
  "currentTime (host_ref h w) = currentTime w"
  "queue (host_ref h w) = queue w"
  "logged (host_ref h w) = logged w"
  "guest (host_ref h w) = guest w"
  "elapsedReadings (host_ref h w) = elapsedReadings w"
  "dataPath (host_ref h w) = dataPath w"
  "openResult (host_ref h w) = openResult w"
  "trace (host_ref h w) = trace w @ [HostRef h]"
  by (auto simp: host_ref_def call_def split: option.splits)

lemma host_unref_sel [simp]:
  "proc (host_unref h w) = proc w"
  "threads (host_unref h w) = threads w"
  "waiters (host_unref h w) = waiters w"
  "freed (host_unref h w) = freed w"
  "listeners (host_unref h w) = listeners w"
  "tasks (host_unref h w) = tasks w"
  "attached (host_unref h w) = attached w"
  "descStatus (host_unref h w) = descStatus w"
  "descRefs (host_unref h w) = descRefs w"
  "hostRefs (host_unref h w) = hostRefs w - 1"
  "nextPtr (host_unref h w) = nextPtr w"
  "activeProcess (host_unref h w) = activeProcess w"
  "cpuDelay (host_unref h w) = cpuDelay w"
  "processingTime (host_unref h w) = processingTime w"
  "pluginErrors (host_unref h w) = pluginErrors w"
  "currentTime (host_unref h w) = currentTime w"
  "queue (host_unref h w) = queue w"
  "logged (host_unref h w) = logged w"
  "guest (host_unref h w) = guest w"
  "elapsedReadings (host_unref h w) = elapsedReadings w"
  "dataPath (host_unref h w) = dataPath w"
  "openResult (host_unref h w) = openResult w"
  "trace (host_unref h w) = trace w @ [HostUnref h]"
  by (auto simp: host_unref_def call_def split: option.splits)

lemma g_timer_start_sel [simp]:
  "proc (g_timer_start w) = proc w"
  "threads (g_timer_start w) = threads w"
  "waiters (g_timer_start w) = waiters w"
  "freed (g_timer_start w) = freed w"
  "listeners (g_timer_start w) = listeners w"
  "tasks (g_timer_start w) = tasks w"
  "attached (g_timer_start w) = attached w"
  "descStatus (g_timer_start w) = descStatus w"
  "descRefs (g_timer_start w) = descRefs w"
  "hostRefs (g_timer_start w) = hostRefs w"
  "nextPtr (g_timer_start w) = nextPtr w"
  "activeProcess (g_timer_start w) = activeProcess w"
  "cpuDelay (g_timer_start w) = cpuDelay w"
  "processingTime (g_timer_start w) = processingTime w"
  "pluginErrors (g_timer_start w) = pluginErrors w"
  "currentTime (g_timer_start w) = currentTime w"
  "queue (g_timer_start w) = queue w"
  "logged (g_timer_start w) = logged w"
  "guest (g_timer_start w) = guest w"
  "elapsedReadings (g_timer_start w) = elapsedReadings w"
  "dataPath (g_timer_start w) = dataPath w"
  "openResult (g_timer_start w) = openResult w"
  "trace (g_timer_start w) = trace w @ [GTimerStart]"
  by (auto simp: g_timer_start_def call_def split: option.splits)

lemma sys_close_sel [simp]:
  "proc (sys_close fd w) = proc w"
  "threads (sys_close fd w) = threads w"
  "waiters (sys_close fd w) = waiters w"
  "freed (sys_close fd w) = freed w"
  "listeners (sys_close fd w) = listeners w"
  "tasks (sys_close fd w) = tasks w"
  "attached (sys_close fd w) = attached w"
  "descStatus (sys_close fd w) = descStatus w"
  "descRefs (sys_close fd w) = descRefs w"
  "hostRefs (sys_close fd w) = hostRefs w"
  "nextPtr (sys_close fd w) = nextPtr w"
  "activeProcess (sys_close fd w) = activeProcess w"
  "cpuDelay (sys_close fd w) = cpuDelay w"
  "processingTime (sys_close fd w) = processingTime w"
  "pluginErrors (sys_close fd w) = pluginErrors w"
  "currentTime (sys_close fd w) = currentTime w"
  "queue (sys_close fd w) = queue w"
  "logged (sys_close fd w) = logged w"
  "guest (sys_close fd w) = guest w"
  "elapsedReadings (sys_close fd w) = elapsedReadings w"
  "dataPath (sys_close fd w) = dataPath w"
  "openResult (sys_close fd w) = openResult w"
  "trace (sys_close fd w) = trace w @ [Close fd]"
  by (auto simp: sys_close_def call_def split: option.splits)

lemma descriptor_ref_sel [simp]:
  "proc (descriptor_ref d w) = proc w"
  "threads (descriptor_ref d w) = threads w"
  "waiters (descriptor_ref d w) = waiters w"
  "freed (descriptor_ref d w) = freed w"
  "listeners (descriptor_ref d w) = listeners w"
  "tasks (descriptor_ref d w) = tasks w"
  "attached (descriptor_ref d w) = attached w"
  "descStatus (descriptor_ref d w) = descStatus w"
  "descRefs (descriptor_ref d w) = (descRefs w)(d := descRefs w d + 1)"
  "hostRefs (descriptor_ref d w) = hostRefs w"
  "nextPtr (descriptor_ref d w) = nextPtr w"
  "activeProcess (descriptor_ref d w) = activeProcess w"
  "cpuDelay (descriptor_ref d w) = cpuDelay w"
  "processingTime (descriptor_ref d w) = processingTime w"
  "pluginErrors (descriptor_ref d w) = pluginErrors w"
  "currentTime (descriptor_ref d w) = currentTime w"
  "queue (descriptor_ref d w) = queue w"
  "logged (descriptor_ref d w) = logged w"
  "guest (descriptor_ref d w) = guest w"
  "elapsedReadings (descriptor_ref d w) = elapsedReadings w"
  "dataPath (descriptor_ref d w) = dataPath w"
  "openResult (descriptor_ref d w) = openResult w"
  "trace (descriptor_ref d w) = trace w @ [DescriptorRef d]"
  by (auto simp: descriptor_ref_def call_def split: option.splits)

lemma descriptor_unref_sel [simp]:
  "proc (descriptor_unref d w) = proc w"
  "threads (descriptor_unref d w) = threads w"
  "waiters (descriptor_unref d w) = waiters w"
  "freed (descriptor_unref d w) = freed w"
  "listeners (descriptor_unref d w) = listeners w"
  "tasks (descriptor_unref d w) = tasks w"
  "attached (descriptor_unref d w) = attached w"
  "descStatus (descriptor_unref d w) = descStatus w"
  "descRefs (descriptor_unref d w) = (descRefs w)(d := descRefs w d - 1)"
  "hostRefs (descriptor_unref d w) = hostRefs w"
  "nextPtr (descriptor_unref d w) = nextPtr w"
  "activeProcess (descriptor_unref d w) = activeProcess w"
  "cpuDelay (descriptor_unref d w) = cpuDelay w"
  "processingTime (descriptor_unref d w) = processingTime w"
  "pluginErrors (descriptor_unref d w) = pluginErrors w"
  "currentTime (descriptor_unref d w) = currentTime w"
  "queue (descriptor_unref d w) = queue w"
  "logged (descriptor_unref d w) = logged w"
  "guest (descriptor_unref d w) = guest w"
  "elapsedReadings (descriptor_unref d w) = elapsedReadings w"
  "dataPath (descriptor_unref d w) = dataPath w"
  "openResult (descriptor_unref d w) = openResult w"
  "trace (descriptor_unref d w) = trace w @ [DescriptorUnref d]"
  by (auto simp: descriptor_unref_def call_def split: option.splits)

lemma descriptorlistener_setMonitorStatus_sel [simp]:
  "proc (descriptorlistener_setMonitorStatus l s f w) = proc w"
  "threads (descriptorlistener_setMonitorStatus l s f w) = threads w"
  "waiters (descriptorlistener_setMonitorStatus l s f w) = waiters w"
  "freed (descriptorlistener_setMonitorStatus l s f w) = freed w"
  "listeners (descriptorlistener_setMonitorStatus l s f w) = (listeners w)(l := map_option (\<lambda>L. L\<lparr>monitorStatus := s, monitorFilter := f\<rparr>) (listeners w l))"
  "tasks (descriptorlistener_setMonitorStatus l s f w) = tasks w"
  "attached (descriptorlistener_setMonitorStatus l s f w) = attached w"
  "descStatus (descriptorlistener_setMonitorStatus l s f w) = descStatus w"
  "descRefs (descriptorlistener_setMonitorStatus l s f w) = descRefs w"
  "hostRefs (descriptorlistener_setMonitorStatus l s f w) = hostRefs w"
  "nextPtr (descriptorlistener_setMonitorStatus l s f w) = nextPtr w"
  "activeProcess (descriptorlistener_setMonitorStatus l s f w) = activeProcess w"
  "cpuDelay (descriptorlistener_setMonitorStatus l s f w) = cpuDelay w"
  "processingTime (descriptorlistener_setMonitorStatus l s f w) = processingTime w"
  "pluginErrors (descriptorlistener_setMonitorStatus l s f w) = pluginErrors w"
  "currentTime (descriptorlistener_setMonitorStatus l s f w) = currentTime w"
  "queue (descriptorlistener_setMonitorStatus l s f w) = queue w"
  "logged (descriptorlistener_setMonitorStatus l s f w) = logged w"
  "guest (descriptorlistener_setMonitorStatus l s f w) = guest w"
  "elapsedReadings (descriptorlistener_setMonitorStatus l s f w) = elapsedReadings w"
  "dataPath (descriptorlistener_setMonitorStatus l s f w) = dataPath w"
  "openResult (descriptorlistener_setMonitorStatus l s f w) = openResult w"
  "trace (descriptorlistener_setMonitorStatus l s f w) = trace w @ [ListenerSetMonitorStatus l s f]"
  by (auto simp: descriptorlistener_setMonitorStatus_def call_def split: option.splits)

lemma descriptor_addListener_sel [simp]:
  "proc (descriptor_addListener d l w) = proc w"
  "threads (descriptor_addListener d l w) = threads w"
  "waiters (descriptor_addListener d l w) = waiters w"
  "freed (descriptor_addListener d l w) = freed w"
  "listeners (descriptor_addListener d l w) = listeners w"
  "tasks (descriptor_addListener d l w) = tasks w"
  "attached (descriptor_addListener d l w) = (if l \<in> set (attached w d) then attached w else (attached w)(d := attached w d @ [l]))"
  "descStatus (descriptor_addListener d l w) = descStatus w"
  "descRefs (descriptor_addListener d l w) = descRefs w"
  "hostRefs (descriptor_addListener d l w) = hostRefs w"
  "nextPtr (descriptor_addListener d l w) = nextPtr w"
  "activeProcess (descriptor_addListener d l w) = activeProcess w"
  "cpuDelay (descriptor_addListener d l w) = cpuDelay w"
  "processingTime (descriptor_addListener d l w) = processingTime w"
  "pluginErrors (descriptor_addListener d l w) = pluginErrors w"
  "currentTime (descriptor_addListener d l w) = currentTime w"
  "queue (descriptor_addListener d l w) = queue w"
  "logged (descriptor_addListener d l w) = logged w"
  "guest (descriptor_addListener d l w) = guest w"
  "elapsedReadings (descriptor_addListener d l w) = elapsedReadings w"
  "dataPath (descriptor_addListener d l w) = dataPath w"
  "openResult (descriptor_addListener d l w) = openResult w"
  "trace (descriptor_addListener d l w) = trace w @ [DescriptorAddListener d l]"
  by (auto simp: descriptor_addListener_def call_def split: option.splits)

lemma descriptor_removeListener_sel [simp]:
  "proc (descriptor_removeListener d l w) = proc w"
  "threads (descriptor_removeListener d l w) = threads w"
  "waiters (descriptor_removeListener d l w) = waiters w"
  "freed (descriptor_removeListener d l w) = freed w"
  "listeners (descriptor_removeListener d l w) = listeners w"
  "tasks (descriptor_removeListener d l w) = tasks w"
  "attached (descriptor_removeListener d l w) = (attached w)(d := removeAll l (attached w d))"
  "descStatus (descriptor_removeListener d l w) = descStatus w"
  "descRefs (descriptor_removeListener d l w) = descRefs w"
  "hostRefs (descriptor_removeListener d l w) = hostRefs w"
  "nextPtr (descriptor_removeListener d l w) = nextPtr w"
  "activeProcess (descriptor_removeListener d l w) = activeProcess w"
  "cpuDelay (descriptor_removeListener d l w) = cpuDelay w"
  "processingTime (descriptor_removeListener d l w) = processingTime w"
  "pluginErrors (descriptor_removeListener d l w) = pluginErrors w"
  "currentTime (descriptor_removeListener d l w) = currentTime w"
  "queue (descriptor_removeListener d l w) = queue w"
  "logged (descriptor_removeListener d l w) = logged w"
  "guest (descriptor_removeListener d l w) = guest w"
  "elapsedReadings (descriptor_removeListener d l w) = elapsedReadings w"
  "dataPath (descriptor_removeListener d l w) = dataPath w"
  "openResult (descriptor_removeListener d l w) = openResult w"
  "trace (descriptor_removeListener d l w) = trace w @ [DescriptorRemoveListener d l]"
  by (auto simp: descriptor_removeListener_def call_def split: option.splits)

lemma thread_terminate_sel [simp]:
  "proc (thread_terminate t w) = proc w"
  "threads (thread_terminate t w) = (threads w)(t := map_option (\<lambda>T. T\<lparr>running := False\<rparr>) (threads w t))"
  "waiters (thread_terminate t w) = waiters w"
  "freed (thread_terminate t w) = freed w"
  "listeners (thread_terminate t w) = listeners w"
  "tasks (thread_terminate t w) = tasks w"
  "attached (thread_terminate t w) = attached w"
  "descStatus (thread_terminate t w) = descStatus w"
  "descRefs (thread_terminate t w) = descRefs w"
  "hostRefs (thread_terminate t w) = hostRefs w"
  "nextPtr (thread_terminate t w) = nextPtr w"
  "activeProcess (thread_terminate t w) = activeProcess w"
  "cpuDelay (thread_terminate t w) = cpuDelay w"
  "processingTime (thread_terminate t w) = processingTime w"
  "pluginErrors (thread_terminate t w) = pluginErrors w"
  "currentTime (thread_terminate t w) = currentTime w"
  "queue (thread_terminate t w) = queue w"
  "logged (thread_terminate t w) = logged w"
  "guest (thread_terminate t w) = guest w"
  "elapsedReadings (thread_terminate t w) = elapsedReadings w"
  "dataPath (thread_terminate t w) = dataPath w"
  "openResult (thread_terminate t w) = openResult w"
  "trace (thread_terminate t w) = trace w @ [ThreadTerminate t]"
  by (auto simp: thread_terminate_def call_def split: option.splits)

lemma thread_ref_sel [simp]:
  "proc (thread_ref t w) = proc w"
  "threads (thread_ref t w) = (threads w)(t := map_option (\<lambda>T. T\<lparr>threadRefs := threadRefs T + 1\<rparr>) (threads w t))"
  "waiters (thread_ref t w) = waiters w"
  "freed (thread_ref t w) = freed w"
  "listeners (thread_ref t w) = listeners w"
  "tasks (thread_ref t w) = tasks w"
  "attached (thread_ref t w) = attached w"
  "descStatus (thread_ref t w) = descStatus w"
  "descRefs (thread_ref t w) = descRefs w"
  "hostRefs (thread_ref t w) = hostRefs w"
  "nextPtr (thread_ref t w) = nextPtr w"
  "activeProcess (thread_ref t w) = activeProcess w"
  "cpuDelay (thread_ref t w) = cpuDelay w"
  "processingTime (thread_ref t w) = processingTime w"
  "pluginErrors (thread_ref t w) = pluginErrors w"
  "currentTime (thread_ref t w) = currentTime w"
  "queue (thread_ref t w) = queue w"
  "logged (thread_ref t w) = logged w"
  "guest (thread_ref t w) = guest w"
  "elapsedReadings (thread_ref t w) = elapsedReadings w"
  "dataPath (thread_ref t w) = dataPath w"
  "openResult (thread_ref t w) = openResult w"
  "trace (thread_ref t w) = trace w @ [ThreadRef t]"
  by (auto simp: thread_ref_def call_def split: option.splits)

lemma thread_unref_sel [simp]:
  "proc (thread_unref t w) = proc w"
  "waiters (thread_unref t w) = waiters w"
  "freed (thread_unref t w) = freed w"
  "listeners (thread_unref t w) = listeners w"
  "tasks (thread_unref t w) = tasks w"
  "attached (thread_unref t w) = attached w"
  "descStatus (thread_unref t w) = descStatus w"
  "descRefs (thread_unref t w) = descRefs w"
  "hostRefs (thread_unref t w) = hostRefs w"
  "nextPtr (thread_unref t w) = nextPtr w"
  "activeProcess (thread_unref t w) = activeProcess w"
  "cpuDelay (thread_unref t w) = cpuDelay w"
  "processingTime (thread_unref t w) = processingTime w"
  "pluginErrors (thread_unref t w) = pluginErrors w"
  "currentTime (thread_unref t w) = currentTime w"
  "queue (thread_unref t w) = queue w"
  "logged (thread_unref t w) = logged w"
  "guest (thread_unref t w) = guest w"
  "elapsedReadings (thread_unref t w) = elapsedReadings w"
  "dataPath (thread_unref t w) = dataPath w"
  "openResult (thread_unref t w) = openResult w"
  "trace (thread_unref t w) = trace w @ [ThreadUnref t]"
  by (auto simp: thread_unref_def call_def split: option.splits)

lemma setThread_sel [simp]:
  "proc (setThread t f w) = proc w"
  "threads (setThread t f w) = (threads w)(t := map_option f (threads w t))"
  "waiters (setThread t f w) = waiters w"
  "freed (setThread t f w) = freed w"
  "listeners (setThread t f w) = listeners w"
  "tasks (setThread t f w) = tasks w"
  "attached (setThread t f w) = attached w"
  "descStatus (setThread t f w) = descStatus w"
  "descRefs (setThread t f w) = descRefs w"
  "hostRefs (setThread t f w) = hostRefs w"
  "nextPtr (setThread t f w) = nextPtr w"
  "activeProcess (setThread t f w) = activeProcess w"
  "cpuDelay (setThread t f w) = cpuDelay w"
  "processingTime (setThread t f w) = processingTime w"
  "pluginErrors (setThread t f w) = pluginErrors w"
  "currentTime (setThread t f w) = currentTime w"
  "queue (setThread t f w) = queue w"
  "logged (setThread t f w) = logged w"
  "guest (setThread t f w) = guest w"
  "elapsedReadings (setThread t f w) = elapsedReadings w"
  "dataPath (setThread t f w) = dataPath w"
  "openResult (setThread t f w) = openResult w"
  "trace (setThread t f w) = trace w"
  by (auto simp: setThread_def split: option.splits)

lemma setWaiter_sel [simp]:
  "proc (setWaiter p f w) = proc w"
  "threads (setWaiter p f w) = threads w"
  "waiters (setWaiter p f w) = (waiters w)(p := map_option f (waiters w p))"
  "freed (setWaiter p f w) = freed w"
  "listeners (setWaiter p f w) = listeners w"
  "tasks (setWaiter p f w) = tasks w"
  "attached (setWaiter p f w) = attached w"
  "descStatus (setWaiter p f w) = descStatus w"
  "descRefs (setWaiter p f w) = descRefs w"
  "hostRefs (setWaiter p f w) = hostRefs w"
  "nextPtr (setWaiter p f w) = nextPtr w"
  "activeProcess (setWaiter p f w) = activeProcess w"
  "cpuDelay (setWaiter p f w) = cpuDelay w"
  "processingTime (setWaiter p f w) = processingTime w"
  "pluginErrors (setWaiter p f w) = pluginErrors w"
  "currentTime (setWaiter p f w) = currentTime w"
  "queue (setWaiter p f w) = queue w"
  "logged (setWaiter p f w) = logged w"
  "guest (setWaiter p f w) = guest w"
  "elapsedReadings (setWaiter p f w) = elapsedReadings w"
  "dataPath (setWaiter p f w) = dataPath w"
  "openResult (setWaiter p f w) = openResult w"
  "trace (setWaiter p f w) = trace w"
  by (auto simp: setWaiter_def split: option.splits)

lemma process_handleTimerResult_sel [simp]:
  "proc (process_handleTimerResult e w) = (proc w)\<lparr>totalRunTime := totalRunTime (proc w) + e\<rparr>"
  "threads (process_handleTimerResult e w) = threads w"
  "waiters (process_handleTimerResult e w) = waiters w"
  "freed (process_handleTimerResult e w) = freed w"
  "listeners (process_handleTimerResult e w) = listeners w"
  "tasks (process_handleTimerResult e w) = tasks w"
  "attached (process_handleTimerResult e w) = attached w"
  "descStatus (process_handleTimerResult e w) = descStatus w"
  "descRefs (process_handleTimerResult e w) = descRefs w"
  "hostRefs (process_handleTimerResult e w) = hostRefs w"
  "nextPtr (process_handleTimerResult e w) = nextPtr w"
  "activeProcess (process_handleTimerResult e w) = activeProcess w"
  "cpuDelay (process_handleTimerResult e w) = cpuDelay w + unat (word_of_int \<lfloor>e * SIMTIME_ONE_SECOND\<rfloor> :: SimulationTime)"
  "processingTime (process_handleTimerResult e w) = processingTime w + unat (word_of_int \<lfloor>e * SIMTIME_ONE_SECOND\<rfloor> :: SimulationTime)"
  "pluginErrors (process_handleTimerResult e w) = pluginErrors w"
  "currentTime (process_handleTimerResult e w) = currentTime w"
  "queue (process_handleTimerResult e w) = queue w"
  "logged (process_handleTimerResult e w) = logged w"
  "guest (process_handleTimerResult e w) = guest w"
  "elapsedReadings (process_handleTimerResult e w) = elapsedReadings w"
  "dataPath (process_handleTimerResult e w) = dataPath w"
  "openResult (process_handleTimerResult e w) = openResult w"
  "trace (process_handleTimerResult e w) = trace w"
  by (auto simp: process_handleTimerResult_def setProc_def cpu_addDelay_def tracker_addProcessingTime_def Let_def split: option.splits)

lemma process_ref_sel [simp]:
  "proc (process_ref w) = (proc w)\<lparr>referenceCount := referenceCount (proc w) + 1\<rparr>"
  "threads (process_ref w) = threads w"
  "waiters (process_ref w) = waiters w"
  "freed (process_ref w) = freed w"
  "listeners (process_ref w) = listeners w"
  "tasks (process_ref w) = tasks w"
  "attached (process_ref w) = attached w"
  "descStatus (process_ref w) = descStatus w"
  "descRefs (process_ref w) = descRefs w"
  "hostRefs (process_ref w) = hostRefs w"
  "nextPtr (process_ref w) = nextPtr w"
  "activeProcess (process_ref w) = activeProcess w"
  "cpuDelay (process_ref w) = cpuDelay w"
  "processingTime (process_ref w) = processingTime w"
  "pluginErrors (process_ref w) = pluginErrors w"
  "currentTime (process_ref w) = currentTime w"
  "queue (process_ref w) = queue w"
  "logged (process_ref w) = logged w"
  "guest (process_ref w) = guest w"
  "elapsedReadings (process_ref w) = elapsedReadings w"
  "dataPath (process_ref w) = dataPath w"
  "openResult (process_ref w) = openResult w"
  "trace (process_ref w) = trace w"
  by (auto simp: process_ref_def setProc_def split: option.splits)

lemma g_timer_elapsed_sel [simp]:
  "proc (snd (g_timer_elapsed w)) = proc w"
  "threads (snd (g_timer_elapsed w)) = threads w"
  "waiters (snd (g_timer_elapsed w)) = waiters w"
  "freed (snd (g_timer_elapsed w)) = freed w"
  "listeners (snd (g_timer_elapsed w)) = listeners w"
  "tasks (snd (g_timer_elapsed w)) = tasks w"
  "attached (snd (g_timer_elapsed w)) = attached w"
  "descStatus (snd (g_timer_elapsed w)) = descStatus w"
  "descRefs (snd (g_timer_elapsed w)) = descRefs w"
  "hostRefs (snd (g_timer_elapsed w)) = hostRefs w"
  "nextPtr (snd (g_timer_elapsed w)) = nextPtr w"
  "activeProcess (snd (g_timer_elapsed w)) = activeProcess w"
  "cpuDelay (snd (g_timer_elapsed w)) = cpuDelay w"
  "processingTime (snd (g_timer_elapsed w)) = processingTime w"
  "pluginErrors (snd (g_timer_elapsed w)) = pluginErrors w"
  "currentTime (snd (g_timer_elapsed w)) = currentTime w"
  "queue (snd (g_timer_elapsed w)) = queue w"
  "logged (snd (g_timer_elapsed w)) = logged w"
  "guest (snd (g_timer_elapsed w)) = guest w"
  "elapsedReadings (snd (g_timer_elapsed w)) = tl (elapsedReadings w)"
  "dataPath (snd (g_timer_elapsed w)) = dataPath w"
  "openResult (snd (g_timer_elapsed w)) = openResult w"
  "trace (snd (g_timer_elapsed w)) = trace w"
  by (simp_all add: g_timer_elapsed_def split: list.splits)

lemma sys_open_sel [simp]:
  "fst (sys_open path w) = openResult w path"
  "proc (snd (sys_open path w)) = proc w"
  "threads (snd (sys_open path w)) = threads w"
  "waiters (snd (sys_open path w)) = waiters w"
  "freed (snd (sys_open path w)) = freed w"
  "listeners (snd (sys_open path w)) = listeners w"
  "tasks (snd (sys_open path w)) = tasks w"
  "attached (snd (sys_open path w)) = attached w"
  "descStatus (snd (sys_open path w)) = descStatus w"
  "descRefs (snd (sys_open path w)) = descRefs w"
  "hostRefs (snd (sys_open path w)) = hostRefs w"
  "nextPtr (snd (sys_open path w)) = nextPtr w"
  "activeProcess (snd (sys_open path w)) = activeProcess w"
  "cpuDelay (snd (sys_open path w)) = cpuDelay w"
  "processingTime (snd (sys_open path w)) = processingTime w"
  "pluginErrors (snd (sys_open path w)) = pluginErrors w"
  "currentTime (snd (sys_open path w)) = currentTime w"
  "queue (snd (sys_open path w)) = queue w"
  "logged (snd (sys_open path w)) = logged w"
  "guest (snd (sys_open path w)) = guest w"
  "elapsedReadings (snd (sys_open path w)) = elapsedReadings w"
  "dataPath (snd (sys_open path w)) = dataPath w"
  "openResult (snd (sys_open path w)) = openResult w"
  "trace (snd (sys_open path w)) = trace w @ [Open path]"
  by (simp_all add: sys_open_def call_def)

lemma descriptorlistener_new_sel [simp]:
  "fst (descriptorlistener_new waiter w) = nextPtr w"
  "proc (snd (descriptorlistener_new waiter w)) = proc w"
  "threads (snd (descriptorlistener_new waiter w)) = threads w"
  "waiters (snd (descriptorlistener_new waiter w)) = waiters w"
  "freed (snd (descriptorlistener_new waiter w)) = freed w"
  "listeners (snd (descriptorlistener_new waiter w)) = (listeners w)(nextPtr w \<mapsto> \<lparr>listenerArgument = waiter, monitorStatus = {}, monitorFilter = DLF_NEVER, listenerRefs = 1\<rparr>)"
  "tasks (snd (descriptorlistener_new waiter w)) = tasks w"
  "attached (snd (descriptorlistener_new waiter w)) = attached w"
  "descStatus (snd (descriptorlistener_new waiter w)) = descStatus w"
  "descRefs (snd (descriptorlistener_new waiter w)) = descRefs w"
  "hostRefs (snd (descriptorlistener_new waiter w)) = hostRefs w"
  "nextPtr (snd (descriptorlistener_new waiter w)) = Suc (nextPtr w)"
  "activeProcess (snd (descriptorlistener_new waiter w)) = activeProcess w"
  "cpuDelay (snd (descriptorlistener_new waiter w)) = cpuDelay w"
  "processingTime (snd (descriptorlistener_new waiter w)) = processingTime w"
  "pluginErrors (snd (descriptorlistener_new waiter w)) = pluginErrors w"
  "currentTime (snd (descriptorlistener_new waiter w)) = currentTime w"
  "queue (snd (descriptorlistener_new waiter w)) = queue w"
  "logged (snd (descriptorlistener_new waiter w)) = logged w"
  "guest (snd (descriptorlistener_new waiter w)) = guest w"
  "elapsedReadings (snd (descriptorlistener_new waiter w)) = elapsedReadings w"
  "dataPath (snd (descriptorlistener_new waiter w)) = dataPath w"
  "openResult (snd (descriptorlistener_new waiter w)) = openResult w"
  "trace (snd (descriptorlistener_new waiter w)) = trace w @ [ListenerNew (nextPtr w) waiter]"
  by (simp_all add: descriptorlistener_new_def alloc_def call_def)

lemma thread_new_sel [simp]:
  "fst (thread_new variant tid w) = nextPtr w"
  "proc (snd (thread_new variant tid w)) = proc w"
  "threads (snd (thread_new variant tid w)) = (threads w)(nextPtr w \<mapsto> \<lparr>threadVariant = variant, threadID = tid, running = False, exitCode = 0, threadRefs = 1\<rparr>)"
  "waiters (snd (thread_new variant tid w)) = waiters w"
  "freed (snd (thread_new variant tid w)) = freed w"
  "listeners (snd (thread_new variant tid w)) = listeners w"
  "tasks (snd (thread_new variant tid w)) = tasks w"
  "attached (snd (thread_new variant tid w)) = attached w"
  "descStatus (snd (thread_new variant tid w)) = descStatus w"
  "descRefs (snd (thread_new variant tid w)) = descRefs w"
  "hostRefs (snd (thread_new variant tid w)) = hostRefs w"
  "nextPtr (snd (thread_new variant tid w)) = Suc (nextPtr w)"
  "activeProcess (snd (thread_new variant tid w)) = activeProcess w"
  "cpuDelay (snd (thread_new variant tid w)) = cpuDelay w"
  "processingTime (snd (thread_new variant tid w)) = processingTime w"
  "pluginErrors (snd (thread_new variant tid w)) = pluginErrors w"
  "currentTime (snd (thread_new variant tid w)) = currentTime w"
  "queue (snd (thread_new variant tid w)) = queue w"
  "logged (snd (thread_new variant tid w)) = logged w"
  "guest (snd (thread_new variant tid w)) = guest w"
  "elapsedReadings (snd (thread_new variant tid w)) = elapsedReadings w"
  "dataPath (snd (thread_new variant tid w)) = dataPath w"
  "openResult (snd (thread_new variant tid w)) = openResult w"
  "trace (snd (thread_new variant tid w)) = trace w @ [ThreadNew (nextPtr w) variant tid]"
  by (simp_all add: thread_new_def alloc_def call_def)

lemma alloc_sel [simp]:
  "fst (alloc w) = nextPtr w"
  "proc (snd (alloc w)) = proc w"
  "threads (snd (alloc w)) = threads w"
  "waiters (snd (alloc w)) = waiters w"
  "freed (snd (alloc w)) = freed w"
  "listeners (snd (alloc w)) = listeners w"
  "tasks (snd (alloc w)) = tasks w"
  "attached (snd (alloc w)) = attached w"
  "descStatus (snd (alloc w)) = descStatus w"
  "descRefs (snd (alloc w)) = descRefs w"
  "hostRefs (snd (alloc w)) = hostRefs w"
  "nextPtr (snd (alloc w)) = Suc (nextPtr w)"
  "activeProcess (snd (alloc w)) = activeProcess w"
  "cpuDelay (snd (alloc w)) = cpuDelay w"
  "processingTime (snd (alloc w)) = processingTime w"
  "pluginErrors (snd (alloc w)) = pluginErrors w"
  "currentTime (snd (alloc w)) = currentTime w"
  "queue (snd (alloc w)) = queue w"
  "logged (snd (alloc w)) = logged w"
  "guest (snd (alloc w)) = guest w"
  "elapsedReadings (snd (alloc w)) = elapsedReadings w"
  "dataPath (snd (alloc w)) = dataPath w"
  "openResult (snd (alloc w)) = openResult w"
  "trace (snd (alloc w)) = trace w"
  by (simp_all add: alloc_def)

lemma fst_g_timer_elapsed [simp]:
  "fst (g_timer_elapsed w) = (case elapsedReadings w of [] \<Rightarrow> 0 | e # es \<Rightarrow> e)"
  by (simp add: g_timer_elapsed_def split: list.splits)

lemma listenForStatus_timer_frame [simp]:
  "threads (listenForStatus_timer waiter t w) = threads w"
  "freed (listenForStatus_timer waiter t w) = freed w"
  "tasks (listenForStatus_timer waiter t w) = tasks w"
  "descStatus (listenForStatus_timer waiter t w) = descStatus w"
  "descRefs (listenForStatus_timer waiter t w) = descRefs w"
  "hostRefs (listenForStatus_timer waiter t w) = hostRefs w"
  "activeProcess (listenForStatus_timer waiter t w) = activeProcess w"
  "cpuDelay (listenForStatus_timer waiter t w) = cpuDelay w"
  "processingTime (listenForStatus_timer waiter t w) = processingTime w"
  "pluginErrors (listenForStatus_timer waiter t w) = pluginErrors w"
  "currentTime (listenForStatus_timer waiter t w) = currentTime w"
  "queue (listenForStatus_timer waiter t w) = queue w"
  "logged (listenForStatus_timer waiter t w) = logged w"
  "guest (listenForStatus_timer waiter t w) = guest w"
  "elapsedReadings (listenForStatus_timer waiter t w) = elapsedReadings w"
  "dataPath (listenForStatus_timer waiter t w) = dataPath w"
  "openResult (listenForStatus_timer waiter t w) = openResult w"
  by (simp_all add: listenForStatus_timer_def Let_def split_beta)

lemma listenForStatus_descriptor_frame [simp]:
  "threads (listenForStatus_descriptor waiter d s w) = threads w"
  "freed (listenForStatus_descriptor waiter d s w) = freed w"
  "tasks (listenForStatus_descriptor waiter d s w) = tasks w"
  "descStatus (listenForStatus_descriptor waiter d s w) = descStatus w"
  "descRefs (listenForStatus_descriptor waiter d s w) = descRefs w"
  "hostRefs (listenForStatus_descriptor waiter d s w) = hostRefs w"
  "activeProcess (listenForStatus_descriptor waiter d s w) = activeProcess w"
  "cpuDelay (listenForStatus_descriptor waiter d s w) = cpuDelay w"
  "processingTime (listenForStatus_descriptor waiter d s w) = processingTime w"
  "pluginErrors (listenForStatus_descriptor waiter d s w) = pluginErrors w"
  "currentTime (listenForStatus_descriptor waiter d s w) = currentTime w"
  "queue (listenForStatus_descriptor waiter d s w) = queue w"
  "logged (listenForStatus_descriptor waiter d s w) = logged w"
  "guest (listenForStatus_descriptor waiter d s w) = guest w"
  "elapsedReadings (listenForStatus_descriptor waiter d s w) = elapsedReadings w"
  "dataPath (listenForStatus_descriptor waiter d s w) = dataPath w"
  "openResult (listenForStatus_descriptor waiter d s w) = openResult w"
  by (simp_all add: listenForStatus_descriptor_def Let_def split_beta)

lemma process_listenForStatus_frame [simp]:
  "freed (process_listenForStatus thr timeout desc status w) = freed w"
  "tasks (process_listenForStatus thr timeout desc status w) = tasks w"
  "descStatus (process_listenForStatus thr timeout desc status w) = descStatus w"
  "hostRefs (process_listenForStatus thr timeout desc status w) = hostRefs w"
  "activeProcess (process_listenForStatus thr timeout desc status w) = activeProcess w"
  "cpuDelay (process_listenForStatus thr timeout desc status w) = cpuDelay w"
  "processingTime (process_listenForStatus thr timeout desc status w) = processingTime w"
  "pluginErrors (process_listenForStatus thr timeout desc status w) = pluginErrors w"
  "currentTime (process_listenForStatus thr timeout desc status w) = currentTime w"
  "queue (process_listenForStatus thr timeout desc status w) = queue w"
  "logged (process_listenForStatus thr timeout desc status w) = logged w"
  "guest (process_listenForStatus thr timeout desc status w) = guest w"
  "elapsedReadings (process_listenForStatus thr timeout desc status w) = elapsedReadings w"
  "dataPath (process_listenForStatus thr timeout desc status w) = dataPath w"
  "openResult (process_listenForStatus thr timeout desc status w) = openResult w"
  by (simp_all add: process_listenForStatus_def Let_def split_beta split: option.splits)

lemma guestBurst_frame [simp]:
  "freed (guestBurst t w) = freed w"
  "tasks (guestBurst t w) = tasks w"
  "descStatus (guestBurst t w) = descStatus w"
  "hostRefs (guestBurst t w) = hostRefs w"
  "activeProcess (guestBurst t w) = activeProcess w"
  "cpuDelay (guestBurst t w) = cpuDelay w"
  "processingTime (guestBurst t w) = processingTime w"
  "pluginErrors (guestBurst t w) = pluginErrors w"
  "currentTime (guestBurst t w) = currentTime w"
  "queue (guestBurst t w) = queue w"
  "logged (guestBurst t w) = logged w"
  "elapsedReadings (guestBurst t w) = elapsedReadings w"
  "dataPath (guestBurst t w) = dataPath w"
  "openResult (guestBurst t w) = openResult w"
  by (simp_all add: guestBurst_def split: list.splits GuestBurst.splits)

lemma thread_run_frame [simp]:
  "freed (thread_run t a e x y w) = freed w"
  "tasks (thread_run t a e x y w) = tasks w"
  "descStatus (thread_run t a e x y w) = descStatus w"
  "hostRefs (thread_run t a e x y w) = hostRefs w"
  "activeProcess (thread_run t a e x y w) = activeProcess w"
  "cpuDelay (thread_run t a e x y w) = cpuDelay w"
  "processingTime (thread_run t a e x y w) = processingTime w"
  "pluginErrors (thread_run t a e x y w) = pluginErrors w"
  "currentTime (thread_run t a e x y w) = currentTime w"
  "queue (thread_run t a e x y w) = queue w"
  "logged (thread_run t a e x y w) = logged w"
  "elapsedReadings (thread_run t a e x y w) = elapsedReadings w"
  "dataPath (thread_run t a e x y w) = dataPath w"
  "openResult (thread_run t a e x y w) = openResult w"
  by (simp_all add: thread_run_def)

lemma thread_resume_frame [simp]:
  "freed (thread_resume t w) = freed w"
  "tasks (thread_resume t w) = tasks w"
  "descStatus (thread_resume t w) = descStatus w"
  "hostRefs (thread_resume t w) = hostRefs w"
  "activeProcess (thread_resume t w) = activeProcess w"
  "cpuDelay (thread_resume t w) = cpuDelay w"
  "processingTime (thread_resume t w) = processingTime w"
  "pluginErrors (thread_resume t w) = pluginErrors w"
  "currentTime (thread_resume t w) = currentTime w"
  "queue (thread_resume t w) = queue w"
  "logged (thread_resume t w) = logged w"
  "elapsedReadings (thread_resume t w) = elapsedReadings w"
  "dataPath (thread_resume t w) = dataPath w"
  "openResult (thread_resume t w) = openResult w"
  by (simp_all add: thread_resume_def Let_def)

lemma process_logReturnCode_frame [simp]:
  "threads (process_logReturnCode c w) = threads w"
  "waiters (process_logReturnCode c w) = waiters w"
  "freed (process_logReturnCode c w) = freed w"
  "listeners (process_logReturnCode c w) = listeners w"
  "tasks (process_logReturnCode c w) = tasks w"
  "attached (process_logReturnCode c w) = attached w"
  "descStatus (process_logReturnCode c w) = descStatus w"
  "descRefs (process_logReturnCode c w) = descRefs w"
  "hostRefs (process_logReturnCode c w) = hostRefs w"
  "nextPtr (process_logReturnCode c w) = nextPtr w"
  "activeProcess (process_logReturnCode c w) = activeProcess w"
  "cpuDelay (process_logReturnCode c w) = cpuDelay w"
  "processingTime (process_logReturnCode c w) = processingTime w"
  "currentTime (process_logReturnCode c w) = currentTime w"
  "queue (process_logReturnCode c w) = queue w"
  "guest (process_logReturnCode c w) = guest w"
  "elapsedReadings (process_logReturnCode c w) = elapsedReadings w"
  "dataPath (process_logReturnCode c w) = dataPath w"
  "openResult (process_logReturnCode c w) = openResult w"
  "trace (process_logReturnCode c w) = trace w"
  by (simp_all add: process_logReturnCode_def Let_def)

lemma process_check_frame [simp]:
  "waiters (process_check w) = waiters w"
  "freed (process_check w) = freed w"
  "listeners (process_check w) = listeners w"
  "tasks (process_check w) = tasks w"
  "attached (process_check w) = attached w"
  "descStatus (process_check w) = descStatus w"
  "descRefs (process_check w) = descRefs w"
  "hostRefs (process_check w) = hostRefs w"
  "nextPtr (process_check w) = nextPtr w"
  "activeProcess (process_check w) = activeProcess w"
  "cpuDelay (process_check w) = cpuDelay w"
  "processingTime (process_check w) = processingTime w"
  "currentTime (process_check w) = currentTime w"
  "queue (process_check w) = queue w"
  "guest (process_check w) = guest w"
  "elapsedReadings (process_check w) = elapsedReadings w"
  "dataPath (process_check w) = dataPath w"
  "openResult (process_check w) = openResult w"
  by (simp_all add: process_check_def Let_def split: option.splits)

lemma process_continue_frame [simp]:
  "freed (process_continue thr w) = freed w"
  "tasks (process_continue thr w) = tasks w"
  "descStatus (process_continue thr w) = descStatus w"
  "hostRefs (process_continue thr w) = hostRefs w"
  "currentTime (process_continue thr w) = currentTime w"
  "queue (process_continue thr w) = queue w"
  "dataPath (process_continue thr w) = dataPath w"
  "openResult (process_continue thr w) = openResult w"
  by (simp_all add: process_continue_def Let_def split_beta split: option.splits)

lemma process_stop_frame [simp]:
  "waiters (process_stop w) = waiters w"
  "freed (process_stop w) = freed w"
  "listeners (process_stop w) = listeners w"
  "tasks (process_stop w) = tasks w"
  "attached (process_stop w) = attached w"
  "descStatus (process_stop w) = descStatus w"
  "descRefs (process_stop w) = descRefs w"
  "hostRefs (process_stop w) = hostRefs w"
  "nextPtr (process_stop w) = nextPtr w"
  "currentTime (process_stop w) = currentTime w"
  "queue (process_stop w) = queue w"
  "guest (process_stop w) = guest w"
  "dataPath (process_stop w) = dataPath w"
  "openResult (process_stop w) = openResult w"
  by (simp_all add: process_stop_def Let_def split_beta split: option.splits)

subsection \<open>Effects of the composite operations\<close>

lemma listenForStatus_timer_eff [simp]:
  "proc (listenForStatus_timer waiter t w) =
     (proc w)\<lparr>referenceCount := referenceCount (proc w) + 1\<rparr>"
  "nextPtr (listenForStatus_timer waiter t w) = Suc (nextPtr w)"
  "waiters (listenForStatus_timer waiter t w) =
     (waiters w)(waiter := map_option
        (\<lambda>W. W\<lparr>timerListener := Some (nextPtr w),
                 waiterReferenceCount := waiterReferenceCount W + 1\<rparr>) (waiters w waiter))"
  "listeners (listenForStatus_timer waiter t w) =
     (listeners w)(nextPtr w \<mapsto>
        \<lparr>listenerArgument = waiter, monitorStatus = {DS_READABLE},
         monitorFilter = DLF_OFF_TO_ON, listenerRefs = 1\<rparr>)"
  "attached (listenForStatus_timer waiter t w) =
     (if nextPtr w \<in> set (attached w t) then attached w
      else (attached w)(t := attached w t @ [nextPtr w]))"
  "trace (listenForStatus_timer waiter t w) =
     trace w @ [ListenerNew (nextPtr w) waiter,
                ListenerSetMonitorStatus (nextPtr w) {DS_READABLE} DLF_OFF_TO_ON,
                DescriptorAddListener t (nextPtr w)]"
  by (auto simp: listenForStatus_timer_def Let_def split_beta fun_eq_iff map_option_case
      split: option.splits)

lemma listenForStatus_descriptor_eff [simp]:
  "proc (listenForStatus_descriptor waiter d s w) =
     (proc w)\<lparr>referenceCount := referenceCount (proc w) + 1\<rparr>"
  "nextPtr (listenForStatus_descriptor waiter d s w) = Suc (nextPtr w)"
  "waiters (listenForStatus_descriptor waiter d s w) =
     (waiters w)(waiter := map_option
        (\<lambda>W. W\<lparr>descriptorListener := Some (nextPtr w),
                 waiterReferenceCount := waiterReferenceCount W + 1\<rparr>) (waiters w waiter))"
  "listeners (listenForStatus_descriptor waiter d s w) =
     (listeners w)(nextPtr w \<mapsto>
        \<lparr>listenerArgument = waiter, monitorStatus = s,
         monitorFilter = DLF_OFF_TO_ON, listenerRefs = 1\<rparr>)"
  "attached (listenForStatus_descriptor waiter d s w) =
     (if nextPtr w \<in> set (attached w d) then attached w
      else (attached w)(d := attached w d @ [nextPtr w]))"
  "trace (listenForStatus_descriptor waiter d s w) =
     trace w @ [ListenerNew (nextPtr w) waiter,
                ListenerSetMonitorStatus (nextPtr w) s DLF_OFF_TO_ON,
                DescriptorAddListener d (nextPtr w)]"
  by (auto simp: listenForStatus_descriptor_def Let_def split_beta fun_eq_iff map_option_case
      split: option.splits)

lemma proc_listenForStatus [simp]:
  "proc (process_listenForStatus thr timeout desc status w) =
     (proc w)\<lparr>referenceCount := referenceCount (proc w)
        + (if timeout = None then 0 else 1) + (if desc = None then 0 else 1)\<rparr>"
  by (simp add: process_listenForStatus_def Let_def split_beta split: option.splits)

lemma thread_isRunning_listenForStatus [simp]:
  "thread_isRunning t (process_listenForStatus thr timeout desc status w) = thread_isRunning t w"
  by (auto simp: process_listenForStatus_def Let_def split_beta thread_isRunning_def
      split: option.splits)

lemma thread_isRunning_frame:
  "threads w' t = threads w t \<Longrightarrow> thread_isRunning t w' = thread_isRunning t w"
  by (simp add: thread_isRunning_def)

lemma thread_isRunning_sel [simp]:
  "thread_isRunning t (call ev w) = thread_isRunning t w"
  "thread_isRunning t (logmsg l f a w) = thread_isRunning t w"
  "thread_isRunning t (setProc g w) = thread_isRunning t w"
  "thread_isRunning t (worker_setActiveProcess p w) = thread_isRunning t w"
  "thread_isRunning t (worker_countObject ot ct w) = thread_isRunning t w"
  "thread_isRunning t (g_timer_start w) = thread_isRunning t w"
  "thread_isRunning t (snd (g_timer_elapsed w)) = thread_isRunning t w"
  "thread_isRunning t (process_handleTimerResult e w) = thread_isRunning t w"
  "thread_isRunning t (descriptor_removeListener d l' w) = thread_isRunning t w"
  "thread_isRunning t (descriptorlistener_setMonitorStatus l' s fl w) = thread_isRunning t w"
  "thread_isRunning t (process_logReturnCode c w) = thread_isRunning t w"
  by (simp_all add: thread_isRunning_def)

lemma proc_guestBurst [simp]:
  "proc (guestBurst t w) =
     (proc w)\<lparr>referenceCount := referenceCount (proc w) + burstListeners w\<rparr>"
  by (simp add: guestBurst_def burstListeners_def split: list.splits GuestBurst.splits)

lemma thread_isRunning_guestBurst:
  "thread_isRunning t' (guestBurst t w) =
     (case guest w of
        GuestExits c # gs \<Rightarrow> t' \<noteq> t \<and> thread_isRunning t' w
      | _ \<Rightarrow> thread_isRunning t' w)"
  apply (simp add: guestBurst_def split: list.splits GuestBurst.splits)
  apply (auto simp: thread_isRunning_def split: option.splits)
  done

lemma proc_thread_run [simp]:
  "proc (thread_run t a e x y w) =
     (proc w)\<lparr>referenceCount := referenceCount (proc w) + burstListeners w\<rparr>"
  by (simp add: thread_run_def burstListeners_def)

lemma proc_thread_resume [simp]:
  "proc (thread_resume t w) =
     (proc w)\<lparr>referenceCount := referenceCount (proc w)
        + (if thread_isRunning t w then burstListeners w else 0)\<rparr>"
  by (simp add: thread_resume_def Let_def burstListeners_def thread_isRunning_def)

lemma thread_isRunning_thread_run:
  "thread_isRunning t (thread_run t a e x y w) =
     (case guest w of GuestExits c # gs \<Rightarrow> False | _ \<Rightarrow> threads w t \<noteq> None)"
  apply (simp add: thread_run_def thread_isRunning_guestBurst split: list.splits GuestBurst.splits)
  apply (auto simp: thread_isRunning_def split: option.splits)
  done

lemma proc_logReturnCode [simp]:
  "proc (process_logReturnCode c w) = (proc w)\<lparr>didLogReturnCode := True\<rparr>"
  by (simp add: process_logReturnCode_def Let_def)


lemma process_check_blocked:
  "mainThread (proc w) = Some t \<Longrightarrow> thread_isRunning t w \<Longrightarrow>
   process_check w = logmsg LOG_INFO
       ''process '%s' is running, but threads are blocked waiting for events''
       [ArgS (process_getName w)] w"
  by (simp add: process_check_def)

lemma proc_process_check:
  "proc (process_check w) =
     (case mainThread (proc w) of
        None \<Rightarrow> proc w
      | Some t \<Rightarrow> if thread_isRunning t w then proc w
                  else (proc w)\<lparr>didLogReturnCode := True, mainThread := None\<rparr>)"
  by (simp add: process_check_def Let_def split: option.splits)

lemma trace_process_check:
  "trace (process_check w) = trace w @
     (case mainThread (proc w) of
        None \<Rightarrow> []
      | Some t \<Rightarrow> if thread_isRunning t w then [] else [ThreadTerminate t, ThreadUnref t])"
  by (simp add: process_check_def Let_def split: option.splits)

lemma process_check_running:
  "process_isRunning w \<Longrightarrow> process_isRunning (process_check w)"
  by (auto simp: process_isRunning_def process_check_blocked thread_isRunning_def
      split: option.splits)

lemma process_check_mainThread:
  "mainThread (proc (process_check w)) = (if process_isRunning w then mainThread (proc w) else None)"
  by (simp add: proc_process_check process_isRunning_def split: option.splits)

lemma isExecuting_process_check [simp]:
  "isExecuting (proc (process_check w)) = isExecuting (proc w)"
  by (simp add: proc_process_check split: option.splits)

lemma trace_listenForStatus:
  "\<exists>es. trace (process_listenForStatus thr timeout desc status w) = trace w @ es"
  by (simp add: process_listenForStatus_def Let_def split_beta split: option.splits)

lemma trace_guestBurst: "\<exists>es. trace (guestBurst t w) = trace w @ es"
proof -
  obtain a where a: "\<And>thr timeout desc status w.
      trace (process_listenForStatus thr timeout desc status w) = trace w @ a thr timeout desc status w"
    using trace_listenForStatus by metis
  show ?thesis
    by (simp add: guestBurst_def a split: list.splits GuestBurst.splits)
qed

lemma trace_thread_resume: "\<exists>es. trace (thread_resume t w) = trace w @ ThreadResume t # es"
proof -
  obtain a where a: "\<And>t w. trace (guestBurst t w) = trace w @ a t w"
    using trace_guestBurst by metis
  show ?thesis by (simp add: thread_resume_def Let_def a)
qed

subsection \<open>The example world\<close>

lemma exampleWorld_sel [simp]:
  "proc (exampleWorld g) = exampleProcess" "guest (exampleWorld g) = g"
  "dataPath (exampleWorld g) = ''hosts/peer''"
  "openResult (exampleWorld g) = (\<lambda>path. if last path = CHR ''t'' then 3 else 4)"
  "trace (exampleWorld g) = [HostRef 1, CountObject OBJECT_TYPE_PROCESS COUNTER_TYPE_NEW]"
  "threads (exampleWorld g) = Map.empty" "nextPtr (exampleWorld g) = 10"
  "elapsedReadings (exampleWorld g) = [1 / 4, 1 / 2, 1 / 8]"
  "currentTime (exampleWorld g) = 500" "queue (exampleWorld g) = []"
  "logged (exampleWorld g) = []" "pluginErrors (exampleWorld g) = 0"
  by (simp_all add: exampleWorld_def)

lemma process_new_example:
  "process_new 1 7 1000 2000 INTERPOSE_PTRACE ''peer'' (Some ''tgen'') (Some ''/usr/bin/tgen'')
     (Some []) (Some [''tgen'', ''client.xml''])
     ((exampleWorld g)\<lparr>hostRefs := 1, trace := []\<rparr>) = Inr (exampleWorld g)"
  by (simp add: process_new_def exampleWorld_def exampleProcess_def worker_countObject_def
      host_ref_def call_def)

lemma exampleWorld_idle [simp]:
  "\<not> process_isRunning (exampleWorld g)" "mainThread (proc (exampleWorld g)) = None"
  by (simp_all add: process_isRunning_def exampleProcess_def)

subsection \<open>Starting the process\<close>

lemma process_start_returns:
  assumes "\<not> process_isRunning w" and "mainThread (proc w) = None"
    and "0 \<le> openResult w (dataPath w @ ''/'' @ processName (proc w) @ ''.stdout'')"
    and "0 \<le> openResult w (dataPath w @ ''/'' @ processName (proc w) @ ''.stderr'')"
    and "interposeMethod (proc w) = INTERPOSE_PTRACE \<or> interposeMethod (proc w) = INTERPOSE_PRELOAD"
  shows "\<exists>w'. process_start w = Inr w'"
  using assms
  by (auto simp: process_start_def Let_def split_beta split: InterposeMethod.splits)

lemma process_start_shape:
  assumes "process_start w = Inr w'" and "\<not> process_isRunning w"
  shows "\<exists>P. w' = process_check P \<and> mainThread (proc P) = Some (nextPtr w) \<and>
           isExecuting (proc P) \<and>
           thread_isRunning (nextPtr w) P =
             (case guest w of GuestExits c # gs \<Rightarrow> False | _ \<Rightarrow> True)"
  using assms
  apply (clarsimp simp: process_start_def Let_def split_beta
      split: if_splits InterposeMethod.splits)
   apply (rule exI, rule conjI, rule refl)
   apply (simp add: thread_isRunning_thread_run split: list.splits GuestBurst.splits)
  apply (rule exI, rule conjI, rule refl)
  apply (simp add: thread_isRunning_thread_run split: list.splits GuestBurst.splits)
  done

lemma process_start_isExecuting:
  assumes "process_start w = Inr w'" and "\<not> process_isRunning w"
  shows "isExecuting (proc w')"
  using process_start_shape[OF assms] by auto

lemma process_start_guest_exits:
  assumes "process_start w = Inr w'" and "\<not> process_isRunning w" and "guest w = GuestExits c # gs"
  shows "mainThread (proc w') = None"
  using process_start_shape[OF assms(1,2)] assms(3)
  by (auto simp: process_check_mainThread process_isRunning_def)

lemma process_start_guest_blocks:
  assumes "process_start w = Inr w'" and "\<not> process_isRunning w"
    and "guest w = GuestBlocks a b c # gs"
  shows "process_isRunning w' \<and> mainThread (proc w') = Some (nextPtr w)"
proof -
  from process_start_shape[OF assms(1,2)] assms(3)
  obtain P where P: "w' = process_check P" "mainThread (proc P) = Some (nextPtr w)"
    "thread_isRunning (nextPtr w) P"
    by auto
  then have "process_isRunning P" by (simp add: process_isRunning_def)
  with P show ?thesis
    by (simp add: process_check_running process_check_mainThread)
qed

lemma process_start_processID:
  assumes "process_start w = Inr w'"
  shows "processID (proc w') = processID (proc w)"
  using assms
  by (auto simp: process_start_def Let_def split_beta proc_process_check
      split: if_splits option.splits InterposeMethod.splits)

lemma process_start_example: "process_start (exampleWorld g) = Inr (started g)"
proof -
  have "\<exists>w'. process_start (exampleWorld g) = Inr w'"
    by (rule process_start_returns) (simp_all add: exampleProcess_def)
  then show ?thesis by (auto simp: started_def)
qed


lemma isExecuting_process_continue:
  "process_isRunning w \<Longrightarrow> isExecuting (proc (process_continue thr w)) = False"
  by (simp add: process_continue_def Let_def split_beta split: option.splits)

text \<open>
  Claim C6: \<open>isExecuting\<close> is true strictly between entering and exiting guest code; in
  particular it is false again once \<open>_process_start\<close> has returned from
  \<open>thread_run\<close>. The code sets the flag before \<open>thread_run\<close> and never clears it in
  \<open>_process_start\<close>: after the start task has fired on the example world, with a guest
  that exits at once with code 0, the call has returned, the main thread is gone, and
  \<open>isExecuting\<close> is still true. (\<open>process_continue\<close> and \<open>process_stop\<close> clear
  it: \<open>isExecuting_process_continue\<close>, \<open>isExecuting_process_stop\<close>.)
\<close>

theorem process_start_leaves_isExecuting:
  "process_start (exampleWorld [GuestExits 0]) = Inr (started [GuestExits 0]) \<and>
   mainThread (proc (started [GuestExits 0])) = None \<and>
   isExecuting (proc (started [GuestExits 0]))"
  using process_start_example[of "[GuestExits 0]"]
    process_start_isExecuting[of "exampleWorld [GuestExits 0]" "started [GuestExits 0]"]
    process_start_guest_exits[of "exampleWorld [GuestExits 0]" "started [GuestExits 0]" 0 "[]"]
  by simp

text \<open>
  Claim C10: whatever the state of the Process before, after \<open>process_stop\<close> returns
  \<open>mainThread\<close> is null, and so \<open>process_isRunning\<close> is false.
\<close>

theorem process_stop_not_running:
  "mainThread (proc (process_stop w)) = None \<and> \<not> process_isRunning (process_stop w)"
proof -
  have "mainThread (proc (process_stop w)) = None"
    unfolding process_stop_def Let_def split_beta
    by (simp add: process_check_mainThread process_isRunning_def split: option.splits)
  then show ?thesis by (simp add: process_isRunning_def)
qed




text \<open>
  Claim C8: when \<open>process_isRunning\<close> is false, \<open>process_continue\<close> returns the
  world as it is (no thread resumed; run time, CPU delay, active process,
  \<open>isExecuting\<close> and \<open>mainThread\<close> untouched). When the process is running and the
  thread argument is null, it resumes \<open>mainThread\<close>: the call behaves as the call with
  \<open>mainThread\<close> as argument, and \<open>thread_resume\<close> of \<open>mainThread\<close> is the third call
  it makes, after marking the process active and starting the CPU timer.
\<close>

theorem process_continue_not_running:
  "(\<not> process_isRunning w \<longrightarrow> process_continue thr w = w) \<and>
   (process_isRunning w \<longrightarrow>
      (\<exists>t es. mainThread (proc w) = Some t \<and>
         process_continue None w = process_continue (Some t) w \<and>
         trace (process_continue None w) =
           trace w @ [SetActiveProcess (Some (processID (proc w))), GTimerStart, ThreadResume t] @ es))"
proof (intro conjI impI)
  assume "\<not> process_isRunning w"
  then show "process_continue thr w = w" by (simp add: process_continue_def)
next
  assume run: "process_isRunning w"
  then obtain t where t: "mainThread (proc w) = Some t"
    by (auto simp: process_isRunning_def split: option.splits)
  obtain a where a: "\<And>t w. trace (thread_resume t w) = trace w @ ThreadResume t # a t w"
    using trace_thread_resume by metis
  have eq: "process_continue None w = process_continue (Some t) w"
    using t by (simp add: process_continue_def Let_def)
  have "\<exists>es. trace (process_continue (Some t) w) =
          trace w @ [SetActiveProcess (Some (processID (proc w))), GTimerStart, ThreadResume t] @ es"
    using run by (simp add: process_continue_def Let_def split_beta a trace_process_check)
  with t eq show "\<exists>t es. mainThread (proc w) = Some t \<and>
         process_continue None w = process_continue (Some t) w \<and>
         trace (process_continue None w) =
           trace w @ [SetActiveProcess (Some (processID (proc w))), GTimerStart, ThreadResume t] @ es"
    by auto
qed

theorem process_continue_not_running_witness:
  "\<not> process_isRunning (exampleWorld []) \<and>
   process_continue (Some 3) (exampleWorld []) = exampleWorld [] \<and>
   process_isRunning (started [GuestBlocks None (Some 3) {DS_READABLE}]) \<and>
   (\<exists>es. trace (process_continue None (started [GuestBlocks None (Some 3) {DS_READABLE}])) =
      trace (started [GuestBlocks None (Some 3) {DS_READABLE}])
        @ [SetActiveProcess (Some 7), GTimerStart, ThreadResume 10] @ es)"
proof -
  let ?g = "[GuestBlocks None (Some 3) {DS_READABLE}]"
  have run: "process_isRunning (started ?g) \<and> mainThread (proc (started ?g)) = Some 10"
    using process_start_guest_blocks[of "exampleWorld ?g" "started ?g" None "Some 3" "{DS_READABLE}" "[]"]
      process_start_example[of ?g]
    by simp
  have pid: "processID (proc (started ?g)) = 7"
    using process_start_processID[OF process_start_example[of ?g]]
    by (simp add: exampleProcess_def)
  show ?thesis
    using process_continue_not_running[of "exampleWorld []" "Some 3"]
      process_continue_not_running[of "started ?g" None] run pid
    by auto
qed

lemma opt_call_sel:
  "trace (case x of None \<Rightarrow> w | Some s \<Rightarrow> call (f s) w) =
     trace w @ (case x of None \<Rightarrow> [] | Some s \<Rightarrow> [f s])"
  "proc (case x of None \<Rightarrow> w | Some s \<Rightarrow> call (f s) w) = proc w"
  "threads (case x of None \<Rightarrow> w | Some s \<Rightarrow> call (f s) w) = threads w"
  by (cases x; simp)+

lemma opt_host_unref_sel:
  "trace (case x of None \<Rightarrow> w | Some h \<Rightarrow> host_unref h w) =
     trace w @ (case x of None \<Rightarrow> [] | Some h \<Rightarrow> [HostUnref h])"
  "proc (case x of None \<Rightarrow> w | Some h \<Rightarrow> host_unref h w) = proc w"
  "threads (case x of None \<Rightarrow> w | Some h \<Rightarrow> host_unref h w) = threads w"
  by (cases x; simp)+

lemma if_close_sel:
  "trace (if c then sys_close fd w else w) = trace w @ (if c then [Close fd] else [])"
  "proc (if c then sys_close fd w else w) = proc w"
  "threads (if c then sys_close fd w else w) = threads w"
  by simp_all

lemma process_free_mainThread_sel:
  "proc (process_free_mainThread w) = (proc w)\<lparr>mainThread := None\<rparr>"
  "trace (process_free_mainThread w) = trace w
     @ (case mainThread (proc w) of
          None \<Rightarrow> []
        | Some t \<Rightarrow> (if thread_isRunning t w then [ThreadTerminate t] else []) @ [ThreadUnref t])"
  by (cases "mainThread (proc w)"; simp add: process_free_mainThread_def)+


lemma process_free_trace:
  "trace (process_free w) = trace w
     @ (case mainThread (proc w) of
          None \<Rightarrow> []
        | Some t \<Rightarrow> (if thread_isRunning t w then [ThreadTerminate t] else []) @ [ThreadUnref t])
     @ (case exePath (proc w) of None \<Rightarrow> [] | Some s \<Rightarrow> [GStringFree s])
     @ (case exeName (proc w) of None \<Rightarrow> [] | Some s \<Rightarrow> [GStringFree s])
     @ [GStringFree (processName (proc w))]
     @ (case argv (proc w) of None \<Rightarrow> [] | Some a \<Rightarrow> [GStrfreev a])
     @ (case envv (proc w) of None \<Rightarrow> [] | Some e \<Rightarrow> [GStrfreev e])
     @ [GTimerDestroy]
     @ (case host (proc w) of None \<Rightarrow> [] | Some h \<Rightarrow> [HostUnref h])
     @ (if 0 \<le> stderrFD (proc w) then [Close (stderrFD (proc w))] else [])
     @ (if 0 \<le> stdoutFD (proc w) then [Close (stdoutFD (proc w))] else [])
     @ [CountObject OBJECT_TYPE_PROCESS COUNTER_TYPE_FREE, GFreeProcess]"
  unfolding process_free_def Let_def
  apply (simp only: opt_call_sel opt_host_unref_sel if_close_sel process_free_mainThread_sel call_sel
      worker_countObject_sel append_assoc)
  apply simp
  done

lemma process_free_proc:
  "proc (process_free w) = (proc w)\<lparr>mainThread := None\<rparr>"
  unfolding process_free_def Let_def
  by (simp only: opt_call_sel opt_host_unref_sel if_close_sel process_free_mainThread_sel call_sel
      worker_countObject_sel)






text \<open>
  Claim C3: \<open>process_listenForStatus\<close> with neither a timeout nor a descriptor
  returns the world as it is. Otherwise it allocates one waiter and, for each side
  supplied, one listener bound to that waiter, monitoring \<open>DS_READABLE\<close> on the timer
  or the requested status on the descriptor, from off to on, and attached to its
  descriptor; each listener adds one to the waiter's count and one to the Process's
  count, so the waiter's count after the call is the number of sides supplied.
\<close>

theorem process_listenForStatus_refs:
  "process_listenForStatus thr None None status w = w \<and>
   (let w' = process_listenForStatus thr timeout desc status w;
        n = (if timeout = None then 0 else 1) + (if desc = None then 0 else 1);
        waiter = nextPtr w;
        lt = Suc (nextPtr w);
        ld = (if timeout = None then Suc (nextPtr w) else Suc (Suc (nextPtr w)))
    in if timeout = None \<and> desc = None then w' = w
       else
         nextPtr w' = nextPtr w + 1 + n \<and>
         waiters w' waiter =
           Some \<lparr>thread = thr, timer = timeout,
                 timerListener = (if timeout = None then None else Some lt),
                 descriptor = desc,
                 descriptorListener = (if desc = None then None else Some ld),
                 waiterReferenceCount = int n\<rparr> \<and>
         referenceCount (proc w') = referenceCount (proc w) + int n \<and>
         (case timeout of
            None \<Rightarrow> True
          | Some t \<Rightarrow>
              listeners w' lt =
                Some \<lparr>listenerArgument = waiter, monitorStatus = {DS_READABLE},
                      monitorFilter = DLF_OFF_TO_ON, listenerRefs = 1\<rparr> \<and>
              lt \<in> set (attached w' t)) \<and>
         (case desc of
            None \<Rightarrow> True
          | Some d \<Rightarrow>
              listeners w' ld =
                Some \<lparr>listenerArgument = waiter, monitorStatus = status,
                      monitorFilter = DLF_OFF_TO_ON, listenerRefs = 1\<rparr> \<and>
              ld \<in> set (attached w' d)) \<and>
         trace w' = trace w @ [Malloc waiter]
           @ (case thr of None \<Rightarrow> [] | Some th \<Rightarrow> [ThreadRef th])
           @ (case timeout of None \<Rightarrow> [] | Some t \<Rightarrow> [DescriptorRef t])
           @ (case desc of None \<Rightarrow> [] | Some d \<Rightarrow> [DescriptorRef d])
           @ [CountObject OBJECT_TYPE_PROCESS_WAITER COUNTER_TYPE_NEW]
           @ (case timeout of None \<Rightarrow> []
              | Some t \<Rightarrow> [ListenerNew lt waiter,
                           ListenerSetMonitorStatus lt {DS_READABLE} DLF_OFF_TO_ON,
                           DescriptorAddListener t lt])
           @ (case desc of None \<Rightarrow> []
              | Some d \<Rightarrow> [ListenerNew ld waiter,
                           ListenerSetMonitorStatus ld status DLF_OFF_TO_ON,
                           DescriptorAddListener d ld]))"
proof -
  have noop: "process_listenForStatus thr None None status w = w"
    by (simp add: process_listenForStatus_def)
  show ?thesis
  proof (cases timeout)
    case None
    note tn = None
    show ?thesis
    proof (cases desc)
      case None
      with tn noop show ?thesis by (simp add: Let_def)
    next
      case (Some d)
      with tn noop show ?thesis
        by (simp add: Let_def process_listenForStatus_def split_beta split: option.splits)
    qed
  next
    case (Some t)
    note ts = Some
    show ?thesis
    proof (cases desc)
      case None
      with ts noop show ?thesis
        by (simp add: Let_def process_listenForStatus_def split_beta split: option.splits)
    next
      case (Some d)
      with ts noop show ?thesis
        by (simp add: Let_def process_listenForStatus_def split_beta split: option.splits)
    qed
  qed
qed

theorem process_listenForStatus_refs_witness:
  "(let w' = process_listenForStatus (Some 4) (Some 5) (Some 6) {DS_WRITABLE} (exampleWorld [])
    in nextPtr w' = 13 \<and>
       waiters w' 10 =
         Some \<lparr>thread = Some 4, timer = Some 5, timerListener = Some 11,
               descriptor = Some 6, descriptorListener = Some 12,
               waiterReferenceCount = 2\<rparr> \<and>
       referenceCount (proc w') = 3 \<and>
       11 \<in> set (attached w' 5) \<and> 12 \<in> set (attached w' 6)) \<and>
   process_listenForStatus (Some 4) None None {} (exampleWorld []) = exampleWorld []"
  using process_listenForStatus_refs[of "Some 4" "{DS_WRITABLE}" "exampleWorld []" "Some 5" "Some 6"]
    process_listenForStatus_refs[of "Some 4" "{}" "exampleWorld []" None None]
  by (simp add: Let_def exampleProcess_def)

lemma startDelay_uint:
  "uint (startDelay w) = max 1 (uint (startTime (proc w)) - uint (currentTime w))"
  unfolding startDelay_def worker_getCurrentTime_def
  by (auto simp: word_le_def uint_sub_if_size word_size max_def split: if_splits)

lemma stopDelay_uint:
  "uint (stopDelay w) = max 1 (uint (stopTime (proc w)) - uint (currentTime w))"
  unfolding stopDelay_def worker_getCurrentTime_def
  by (auto simp: word_le_def uint_sub_if_size word_size max_def split: if_splits)

lemma postTask_result:
  "\<exists>w1. postTask cb delay w = Inr w1 \<and>
     proc w1 = (proc w)\<lparr>referenceCount := referenceCount (proc w) + 1\<rparr> \<and>
     queue w1 = queue w @ [(nextPtr w, delay)] \<and>
     currentTime w1 = currentTime w \<and>
     nextPtr w1 = Suc (nextPtr w) \<and>
     tasks w1 = (tasks w)(nextPtr w \<mapsto> \<lparr>taskCallback = cb, taskRefs = 1\<rparr>)"
  by (simp add: postTask_def process_ref_def setProc_def task_new_def alloc_def
      worker_scheduleTask_def task_unref_def call_def Let_def)

lemma task_unref_last:
  "tasks w k = Some T \<Longrightarrow> taskRefs T = 1 \<Longrightarrow>
   task_unref k w = process_unref (call (TaskUnref k) w\<lparr>tasks := (tasks w)(k := None)\<rparr>)"
  by (simp add: task_unref_def call_def Let_def)

text \<open>
  Claim C5: \<open>process_schedule\<close> returns, and the tasks it appends to the scheduler
  queue are: a start task exactly when \<open>stopTime = 0\<close> or \<open>startTime < stopTime\<close>, with
  delay \<open>max 1 (startTime - now)\<close>, then a stop task exactly when \<open>stopTime > 0\<close> and
  \<open>stopTime > startTime\<close>, with delay \<open>max 1 (stopTime - now)\<close>. The Process's count
  grows by one for each task posted; each posted task is left with the one reference of
  the queue, and dropping that reference is a \<open>process_unref\<close>.
\<close>

theorem process_schedule_posts:
  "\<exists>w'. process_schedule w = Inr w' \<and>
     map (\<lambda>(k, delay). (map_option taskCallback (tasks w' k), uint delay))
         (drop (length (queue w)) (queue w'))
       = (if stopTime (proc w) = 0 \<or> startTime (proc w) < stopTime (proc w)
          then [(Some RunStartTask, max 1 (uint (startTime (proc w)) - uint (currentTime w)))]
          else [])
       @ (if stopTime (proc w) > 0 \<and> stopTime (proc w) > startTime (proc w)
          then [(Some RunStopTask, max 1 (uint (stopTime (proc w)) - uint (currentTime w)))]
          else []) \<and>
     take (length (queue w)) (queue w') = queue w \<and>
     referenceCount (proc w') =
       referenceCount (proc w) + int (length (queue w')) - int (length (queue w)) \<and>
     list_all (\<lambda>(k, delay). map_option taskRefs (tasks w' k) = Some 1 \<and>
        task_unref k w' = process_unref (call (TaskUnref k) w'\<lparr>tasks := (tasks w')(k := None)\<rparr>))
       (drop (length (queue w)) (queue w'))"
proof -
  obtain p where p: "\<And>cb delay w. postTask cb delay w = Inr (p cb delay w) \<and>
     proc (p cb delay w) = (proc w)\<lparr>referenceCount := referenceCount (proc w) + 1\<rparr> \<and>
     queue (p cb delay w) = queue w @ [(nextPtr w, delay)] \<and>
     currentTime (p cb delay w) = currentTime w \<and>
     nextPtr (p cb delay w) = Suc (nextPtr w) \<and>
     tasks (p cb delay w) = (tasks w)(nextPtr w \<mapsto> \<lparr>taskCallback = cb, taskRefs = 1\<rparr>)"
    using postTask_result by metis
  show ?thesis
    unfolding process_schedule_def
    by (auto simp: p startDelay_uint stopDelay_uint task_unref_last)
qed

theorem process_schedule_posts_witness:
  "\<exists>w'. process_schedule (exampleWorld []) = Inr w' \<and>
     map (\<lambda>(k, delay). (map_option taskCallback (tasks w' k), uint delay)) (queue w')
       = [(Some RunStartTask, 500), (Some RunStopTask, 1500)] \<and>
     referenceCount (proc w') = 3"
  using process_schedule_posts[of "exampleWorld []"]
  by (auto simp: exampleProcess_def)

subsection \<open>Frames\<close>

lemma frame_refl [simp]: "frame w w"
  by (simp add: frame_def)

lemma frame_trans:
  assumes a: "frame w w'" and b: "frame w' w''"
  shows "frame w w''"
proof -
  from a have n1: "nextPtr w \<le> nextPtr w'" by (simp add: frame_def)
  from b have n2: "nextPtr w' \<le> nextPtr w''" by (simp add: frame_def)
  from a have wa: "waiters w' p = waiters w p \<or>
          (nextPtr w \<le> p \<and> p < nextPtr w' \<and>
           (\<forall>W l. waiters w' p = Some W \<longrightarrow>
                  timerListener W = Some l \<or> descriptorListener W = Some l \<longrightarrow>
                  nextPtr w \<le> l \<and> l < nextPtr w'))" for p
    unfolding frame_def by blast
  from b have wb: "waiters w'' p = waiters w' p \<or>
          (nextPtr w' \<le> p \<and> p < nextPtr w'' \<and>
           (\<forall>W l. waiters w'' p = Some W \<longrightarrow>
                  timerListener W = Some l \<or> descriptorListener W = Some l \<longrightarrow>
                  nextPtr w' \<le> l \<and> l < nextPtr w''))" for p
    unfolding frame_def by blast
  from a have la: "listeners w' p = listeners w p \<or>
          (nextPtr w \<le> p \<and> p < nextPtr w' \<and>
           (\<forall>L. listeners w' p = Some L \<longrightarrow>
                nextPtr w \<le> listenerArgument L \<and> listenerArgument L < nextPtr w'))" for p
    unfolding frame_def by blast
  from b have lb: "listeners w'' p = listeners w' p \<or>
          (nextPtr w' \<le> p \<and> p < nextPtr w'' \<and>
           (\<forall>L. listeners w'' p = Some L \<longrightarrow>
                nextPtr w' \<le> listenerArgument L \<and> listenerArgument L < nextPtr w''))" for p
    unfolding frame_def by blast
  from a have aa: "(l \<in> set (attached w' d) \<longleftrightarrow> l \<in> set (attached w d)) \<or>
            (nextPtr w \<le> l \<and> l < nextPtr w')" for d l
    unfolding frame_def by blast
  from b have ab: "(l \<in> set (attached w'' d) \<longleftrightarrow> l \<in> set (attached w' d)) \<or>
            (nextPtr w' \<le> l \<and> l < nextPtr w'')" for d l
    unfolding frame_def by blast
  have W: "waiters w'' p = waiters w p \<or>
          (nextPtr w \<le> p \<and> p < nextPtr w'' \<and>
           (\<forall>W l. waiters w'' p = Some W \<longrightarrow>
                  timerListener W = Some l \<or> descriptorListener W = Some l \<longrightarrow>
                  nextPtr w \<le> l \<and> l < nextPtr w''))" for p
  proof (cases "waiters w'' p = waiters w' p")
    case True
    show ?thesis
    proof (cases "waiters w' p = waiters w p")
      case True
      with \<open>waiters w'' p = waiters w' p\<close> show ?thesis by simp
    next
      case False
      with wa[of p] have *: "nextPtr w \<le> p" "p < nextPtr w'"
        "\<And>W l. waiters w' p = Some W \<Longrightarrow>
                  timerListener W = Some l \<or> descriptorListener W = Some l \<Longrightarrow>
                  nextPtr w \<le> l \<and> l < nextPtr w'"
        by blast+
      have "p < nextPtr w''" using *(2) n2 by linarith
      moreover have "nextPtr w \<le> l \<and> l < nextPtr w''"
        if "waiters w'' p = Some W" "timerListener W = Some l \<or> descriptorListener W = Some l" for W l
        using *(3)[of W l] that True n2 by auto
      ultimately show ?thesis using *(1) by blast
    qed
  next
    case False
    with wb[of p] have *: "nextPtr w' \<le> p" "p < nextPtr w''"
        "\<And>W l. waiters w'' p = Some W \<Longrightarrow>
                  timerListener W = Some l \<or> descriptorListener W = Some l \<Longrightarrow>
                  nextPtr w' \<le> l \<and> l < nextPtr w''"
      by blast+
    have "nextPtr w \<le> p" using *(1) n1 by linarith
    moreover have "nextPtr w \<le> l \<and> l < nextPtr w''"
      if "waiters w'' p = Some W" "timerListener W = Some l \<or> descriptorListener W = Some l" for W l
      using *(3)[of W l] that n1 by auto
    ultimately show ?thesis using *(2) by blast
  qed
  have L: "listeners w'' p = listeners w p \<or>
          (nextPtr w \<le> p \<and> p < nextPtr w'' \<and>
           (\<forall>L. listeners w'' p = Some L \<longrightarrow>
                nextPtr w \<le> listenerArgument L \<and> listenerArgument L < nextPtr w''))" for p
  proof (cases "listeners w'' p = listeners w' p")
    case True
    show ?thesis
    proof (cases "listeners w' p = listeners w p")
      case True
      with \<open>listeners w'' p = listeners w' p\<close> show ?thesis by simp
    next
      case False
      with la[of p] have *: "nextPtr w \<le> p" "p < nextPtr w'"
        "\<And>L. listeners w' p = Some L \<Longrightarrow>
                nextPtr w \<le> listenerArgument L \<and> listenerArgument L < nextPtr w'"
        by blast+
      have "p < nextPtr w''" using *(2) n2 by linarith
      moreover have "nextPtr w \<le> listenerArgument L \<and> listenerArgument L < nextPtr w''"
        if "listeners w'' p = Some L" for L
        using *(3)[of L] that True n2 by auto
      ultimately show ?thesis using *(1) by blast
    qed
  next
    case False
    with lb[of p] have *: "nextPtr w' \<le> p" "p < nextPtr w''"
        "\<And>L. listeners w'' p = Some L \<Longrightarrow>
                nextPtr w' \<le> listenerArgument L \<and> listenerArgument L < nextPtr w''"
      by blast+
    have "nextPtr w \<le> p" using *(1) n1 by linarith
    moreover have "nextPtr w \<le> listenerArgument L \<and> listenerArgument L < nextPtr w''"
      if "listeners w'' p = Some L" for L
      using *(3)[of L] that n1 by auto
    ultimately show ?thesis using *(2) by blast
  qed
  have A: "(l \<in> set (attached w'' d) \<longleftrightarrow> l \<in> set (attached w d)) \<or>
            (nextPtr w \<le> l \<and> l < nextPtr w'')" for d l
    using aa[of l d] ab[of l d] n1 n2 by auto
  from a b have rest: "descStatus w'' = descStatus w" "freed w'' = freed w"
    "filter isCallback (trace w'') = filter isCallback (trace w)"
    "referenceCount (proc w) \<le> referenceCount (proc w'')"
    by (simp_all add: frame_def)
  show ?thesis
    unfolding frame_def
    using n1 n2 rest W L A by (intro conjI allI) auto
qed

lemma listenForStatus_none [simp]:
  "process_listenForStatus thr None None status w = w"
  by (simp add: process_listenForStatus_def)

lemma listenForStatus_timer_only:
  fixes w thr t status
  defines "w' \<equiv> process_listenForStatus thr (Some t) None status w"
  shows "nextPtr w' = nextPtr w + 2"
    and "waiters w' = (waiters w)(nextPtr w \<mapsto>
           \<lparr>thread = thr, timer = Some t, timerListener = Some (Suc (nextPtr w)),
            descriptor = None, descriptorListener = None, waiterReferenceCount = 1\<rparr>)"
    and "listeners w' = (listeners w)(Suc (nextPtr w) \<mapsto>
           \<lparr>listenerArgument = nextPtr w, monitorStatus = {DS_READABLE},
            monitorFilter = DLF_OFF_TO_ON, listenerRefs = 1\<rparr>)"
    and "attached w' = (if Suc (nextPtr w) \<in> set (attached w t) then attached w
                        else (attached w)(t := attached w t @ [Suc (nextPtr w)]))"
    and "filter isCallback (trace w') = filter isCallback (trace w)"
  unfolding w'_def
  by (auto simp: process_listenForStatus_def Let_def split_beta fun_eq_iff split: option.splits)

lemma listenForStatus_descriptor_only:
  fixes w thr d status
  defines "w' \<equiv> process_listenForStatus thr None (Some d) status w"
  shows "nextPtr w' = nextPtr w + 2"
    and "waiters w' = (waiters w)(nextPtr w \<mapsto>
           \<lparr>thread = thr, timer = None, timerListener = None,
            descriptor = Some d, descriptorListener = Some (Suc (nextPtr w)),
            waiterReferenceCount = 1\<rparr>)"
    and "listeners w' = (listeners w)(Suc (nextPtr w) \<mapsto>
           \<lparr>listenerArgument = nextPtr w, monitorStatus = status,
            monitorFilter = DLF_OFF_TO_ON, listenerRefs = 1\<rparr>)"
    and "attached w' = (if Suc (nextPtr w) \<in> set (attached w d) then attached w
                        else (attached w)(d := attached w d @ [Suc (nextPtr w)]))"
    and "filter isCallback (trace w') = filter isCallback (trace w)"
  unfolding w'_def
  by (auto simp: process_listenForStatus_def Let_def split_beta fun_eq_iff split: option.splits)

lemma listenForStatus_both:
  fixes w thr t d status
  defines "w' \<equiv> process_listenForStatus thr (Some t) (Some d) status w"
  shows "nextPtr w' = nextPtr w + 3"
    and "waiters w' = (waiters w)(nextPtr w \<mapsto>
           \<lparr>thread = thr, timer = Some t, timerListener = Some (Suc (nextPtr w)),
            descriptor = Some d, descriptorListener = Some (Suc (Suc (nextPtr w))),
            waiterReferenceCount = 2\<rparr>)"
    and "listeners w' = (listeners w)
           (Suc (nextPtr w) \<mapsto>
              \<lparr>listenerArgument = nextPtr w, monitorStatus = {DS_READABLE},
               monitorFilter = DLF_OFF_TO_ON, listenerRefs = 1\<rparr>,
            Suc (Suc (nextPtr w)) \<mapsto>
              \<lparr>listenerArgument = nextPtr w, monitorStatus = status,
               monitorFilter = DLF_OFF_TO_ON, listenerRefs = 1\<rparr>)"
    and "set (attached w' x) = set (attached w x)
           \<union> (if x = t then {Suc (nextPtr w)} else {})
           \<union> (if x = d then {Suc (Suc (nextPtr w))} else {})"
    and "filter isCallback (trace w') = filter isCallback (trace w)"
  unfolding w'_def
  by (auto simp: process_listenForStatus_def Let_def split_beta fun_eq_iff split: option.splits)

lemma frame_listenForStatus:
  "frame w (process_listenForStatus thr timeout desc status w)"
proof (cases timeout)
  case None
  note tn = None
  show ?thesis
  proof (cases desc)
    case None
    with tn show ?thesis by simp
  next
    case (Some d)
    show ?thesis
      unfolding frame_def tn Some
      by (auto simp: listenForStatus_descriptor_only)
  qed
next
  case (Some t)
  note ts = Some
  show ?thesis
  proof (cases desc)
    case None
    show ?thesis
      unfolding frame_def ts None
      by (auto simp: listenForStatus_timer_only)
  next
    case (Some d)
    show ?thesis
      unfolding frame_def ts Some
      by (auto simp: listenForStatus_both)
  qed
qed

lemma frame_same:
  assumes "nextPtr w' = nextPtr w" "descStatus w' = descStatus w" "freed w' = freed w"
    "filter isCallback (trace w') = filter isCallback (trace w)"
    "referenceCount (proc w) \<le> referenceCount (proc w')"
    "waiters w' = waiters w" "listeners w' = listeners w" "attached w' = attached w"
  shows "frame w w'"
  using assms by (simp add: frame_def)

lemma frame_cong:
  assumes "nextPtr a = nextPtr w" "descStatus a = descStatus w" "freed a = freed w"
    "filter isCallback (trace a) = filter isCallback (trace w)"
    "referenceCount (proc a) = referenceCount (proc w)"
    "waiters a = waiters w" "listeners a = listeners w" "attached a = attached w"
    and "nextPtr b = nextPtr w'" "descStatus b = descStatus w'" "freed b = freed w'"
    "filter isCallback (trace b) = filter isCallback (trace w')"
    "referenceCount (proc b) = referenceCount (proc w')"
    "waiters b = waiters w'" "listeners b = listeners w'" "attached b = attached w'"
  shows "frame a b = frame w w'"
  using assms by (simp add: frame_def)

lemma frame_guestBurst: "frame w (guestBurst t w)"
proof (cases "guest w")
  case Nil
  then show ?thesis by (simp add: guestBurst_def)
next
  case (Cons g gs)
  show ?thesis
  proof (cases g)
    case (GuestExits c)
    with Cons show ?thesis by (simp add: guestBurst_def frame_same)
  next
    case (GuestBlocks a b c)
    have "frame (w\<lparr>guest := gs\<rparr>) (process_listenForStatus (Some t) a b c (w\<lparr>guest := gs\<rparr>))"
      by (rule frame_listenForStatus)
    moreover have "frame w (w\<lparr>guest := gs\<rparr>)" by (simp add: frame_same)
    ultimately show ?thesis using Cons GuestBlocks
      by (simp add: guestBurst_def) (rule frame_trans)
  qed
qed

lemma frame_thread_resume: "frame w (thread_resume t w)"
proof -
  have "frame w (call (ThreadResume t) w)" by (simp add: frame_same)
  moreover have "frame (call (ThreadResume t) w) (guestBurst t (call (ThreadResume t) w))"
    by (rule frame_guestBurst)
  ultimately show ?thesis
    by (auto simp: thread_resume_def Let_def intro: frame_trans)
qed

lemma callbacks_process_check [simp]:
  "filter isCallback (trace (process_check w)) = filter isCallback (trace w)"
  by (simp add: trace_process_check split: option.splits)

lemma referenceCount_process_check [simp]:
  "referenceCount (proc (process_check w)) = referenceCount (proc w)"
  by (simp add: proc_process_check split: option.splits)

lemma frame_process_check: "frame w (process_check w)"
  by (simp add: frame_same)

lemma frame_process_continue: "frame w (process_continue thr w)"
proof (cases "process_isRunning w")
  case False
  then show ?thesis by (simp add: process_continue_def)
next
  case True
  define pre where "pre = setProc (\<lambda>p. p\<lparr>isExecuting := True\<rparr>)
      (g_timer_start (worker_setActiveProcess (Some (processID (proc w)))
        (logmsg LOG_INFO
           (''switching to thread controller to continue executing process '%s'' @ [CHR 0x27])
           [ArgS (process_getName w)] w)))"
  define t where "t = (case thr of Some t \<Rightarrow> t | None \<Rightarrow> the (mainThread (proc pre)))"
  have 1: "frame w pre" by (simp add: pre_def frame_same)
  have 2: "frame pre (thread_resume t pre)" by (rule frame_thread_resume)
  have 3: "frame (thread_resume t pre) (process_continue thr w)"
    using True
    by (cases thr) (simp_all add: process_continue_def Let_def split_beta pre_def t_def frame_same)
  from 1 2 3 show ?thesis by (blast intro: frame_trans)
qed

lemma frame_old:
  assumes "frame w w'" and "p < nextPtr w"
  shows "waiters w' p = waiters w p" "listeners w' p = listeners w p"
    "p \<in> set (attached w' d) \<longleftrightarrow> p \<in> set (attached w d)"
  using assms unfolding frame_def by (metis not_le)+

subsection \<open>Releasing listeners and waiters\<close>

lemma process_unref_keep:
  "1 < referenceCount (proc w) \<Longrightarrow>
   process_unref w = Inr (setProc (\<lambda>p. p\<lparr>referenceCount := referenceCount p - 1\<rparr>) w)"
  by (simp add: process_unref_def Let_def)

lemma process_unrefWaiter_keep:
  "waiters w waiter = Some W \<Longrightarrow> 1 < waiterReferenceCount W \<Longrightarrow>
   process_unrefWaiter waiter w =
     Inr (setWaiter waiter (\<lambda>W. W\<lparr>waiterReferenceCount := waiterReferenceCount W - 1\<rparr>) w)"
  by (simp add: process_unrefWaiter_def Let_def)

lemma opt_thread_unref_sel:
  "trace (case x of None \<Rightarrow> w | Some t \<Rightarrow> thread_unref t w) =
     trace w @ (case x of None \<Rightarrow> [] | Some t \<Rightarrow> [ThreadUnref t])"
  "proc (case x of None \<Rightarrow> w | Some t \<Rightarrow> thread_unref t w) = proc w"
  "waiters (case x of None \<Rightarrow> w | Some t \<Rightarrow> thread_unref t w) = waiters w"
  "listeners (case x of None \<Rightarrow> w | Some t \<Rightarrow> thread_unref t w) = listeners w"
  "attached (case x of None \<Rightarrow> w | Some t \<Rightarrow> thread_unref t w) = attached w"
  "freed (case x of None \<Rightarrow> w | Some t \<Rightarrow> thread_unref t w) = freed w"
  "nextPtr (case x of None \<Rightarrow> w | Some t \<Rightarrow> thread_unref t w) = nextPtr w"
  "descStatus (case x of None \<Rightarrow> w | Some t \<Rightarrow> thread_unref t w) = descStatus w"
  "logged (case x of None \<Rightarrow> w | Some t \<Rightarrow> thread_unref t w) = logged w"
  by (cases x; simp)+

lemma opt_descriptor_unref_sel:
  "trace (case x of None \<Rightarrow> w | Some d \<Rightarrow> descriptor_unref d w) =
     trace w @ (case x of None \<Rightarrow> [] | Some d \<Rightarrow> [DescriptorUnref d])"
  "proc (case x of None \<Rightarrow> w | Some d \<Rightarrow> descriptor_unref d w) = proc w"
  "waiters (case x of None \<Rightarrow> w | Some d \<Rightarrow> descriptor_unref d w) = waiters w"
  "listeners (case x of None \<Rightarrow> w | Some d \<Rightarrow> descriptor_unref d w) = listeners w"
  "attached (case x of None \<Rightarrow> w | Some d \<Rightarrow> descriptor_unref d w) = attached w"
  "freed (case x of None \<Rightarrow> w | Some d \<Rightarrow> descriptor_unref d w) = freed w"
  "nextPtr (case x of None \<Rightarrow> w | Some d \<Rightarrow> descriptor_unref d w) = nextPtr w"
  "descStatus (case x of None \<Rightarrow> w | Some d \<Rightarrow> descriptor_unref d w) = descStatus w"
  "logged (case x of None \<Rightarrow> w | Some d \<Rightarrow> descriptor_unref d w) = logged w"
  by (cases x; simp)+

lemma process_unrefWaiter_last:
  assumes "waiters w waiter = Some W" and "waiterReferenceCount W = 1"
  shows "\<exists>w'. process_unrefWaiter waiter w = Inr w' \<and>
           trace w' = trace w @ waiterRelease waiter W \<and>
           proc w' = proc w \<and>
           waiters w' = (waiters w)(waiter \<mapsto> W\<lparr>waiterReferenceCount := 0\<rparr>) \<and>
           listeners w' = listeners w \<and> attached w' = attached w \<and>
           freed w' = freed w @ [waiter] \<and> nextPtr w' = nextPtr w \<and>
           descStatus w' = descStatus w \<and> logged w' = logged w"
  using assms
  by (simp add: process_unrefWaiter_def Let_def waiterRelease_def
      opt_thread_unref_sel opt_descriptor_unref_sel)

lemma listener_unref_keep:
  assumes "listeners w l = Some L" and "listenerRefs L = 1" and "listenerArgument L = waiter"
    and "1 < referenceCount (proc w)"
    and "waiters w waiter = Some W" and "1 < waiterReferenceCount W"
  shows "\<exists>w'. descriptorlistener_unref l w = Inr w' \<and>
           trace w' = trace w @ [ListenerUnref l] \<and>
           proc w' = (proc w)\<lparr>referenceCount := referenceCount (proc w) - 1\<rparr> \<and>
           waiters w' = (waiters w)(waiter \<mapsto>
              W\<lparr>waiterReferenceCount := waiterReferenceCount W - 1\<rparr>) \<and>
           listeners w' = (listeners w)(l := None) \<and> attached w' = attached w \<and>
           freed w' = freed w \<and> nextPtr w' = nextPtr w \<and>
           descStatus w' = descStatus w \<and> logged w' = logged w"
  using assms
  by (simp add: descriptorlistener_unref_def Let_def process_unref_keep
      process_unrefWaiter_keep)

lemma listener_unref_last:
  assumes "listeners w l = Some L" and "listenerRefs L = 1" and "listenerArgument L = waiter"
    and "1 < referenceCount (proc w)"
    and "waiters w waiter = Some W" and "waiterReferenceCount W = 1"
  shows "\<exists>w'. descriptorlistener_unref l w = Inr w' \<and>
           trace w' = trace w @ ListenerUnref l # waiterRelease waiter W \<and>
           proc w' = (proc w)\<lparr>referenceCount := referenceCount (proc w) - 1\<rparr> \<and>
           waiters w' = (waiters w)(waiter \<mapsto> W\<lparr>waiterReferenceCount := 0\<rparr>) \<and>
           listeners w' = (listeners w)(l := None) \<and> attached w' = attached w \<and>
           freed w' = freed w @ [waiter] \<and> nextPtr w' = nextPtr w \<and>
           descStatus w' = descStatus w \<and> logged w' = logged w"
proof -
  let ?w1 = "setProc (\<lambda>p. p\<lparr>referenceCount := referenceCount p - 1\<rparr>)
               ((call (ListenerUnref l) w)\<lparr>listeners := (listeners w)(l := None)\<rparr>)"
  have "waiters ?w1 waiter = Some W" using assms by simp
  from process_unrefWaiter_last[OF this assms(6)]
  obtain w' where w': "process_unrefWaiter waiter ?w1 = Inr w'"
    "trace w' = trace ?w1 @ waiterRelease waiter W" "proc w' = proc ?w1"
    "waiters w' = (waiters ?w1)(waiter \<mapsto> W\<lparr>waiterReferenceCount := 0\<rparr>)"
    "listeners w' = listeners ?w1" "attached w' = attached ?w1"
    "freed w' = freed ?w1 @ [waiter]" "nextPtr w' = nextPtr ?w1"
    "descStatus w' = descStatus ?w1" "logged w' = logged ?w1"
    by blast
  have "descriptorlistener_unref l w = Inr w'"
    using assms w'(1)
    by (simp add: descriptorlistener_unref_def Let_def process_unref_keep)
  with w' show ?thesis by simp
qed

lemma detachSides_sel [simp]:
  "proc (detachSides sides w) = proc w"
  "waiters (detachSides sides w) = waiters w"
  "nextPtr (detachSides sides w) = nextPtr w"
  "freed (detachSides sides w) = freed w"
  "descStatus (detachSides sides w) = descStatus w"
  "logged (detachSides sides w) = logged w"
  "threads (detachSides sides w) = threads w"
  "guest (detachSides sides w) = guest w"
  "pluginErrors (detachSides sides w) = pluginErrors w"
  by (induction sides w rule: detachSides.induct; simp)+


lemma detachSides_attached:
  "l' \<in> set (attached (detachSides sides w) d') \<longleftrightarrow>
     l' \<in> set (attached w d') \<and> (d', l') \<notin> set sides"
  by (induction sides w rule: detachSides.induct) auto

lemma detachSides_listeners:
  "listeners (detachSides sides w) l' =
     (if l' \<in> snd ` set sides
      then map_option (\<lambda>L. L\<lparr>monitorStatus := {}, monitorFilter := DLF_NEVER\<rparr>) (listeners w l')
      else listeners w l')"
  by (induction sides w rule: detachSides.induct)
     (auto simp: option.map_comp comp_def split: option.splits)

lemma thread_isRunning_detachSides [simp]:
  "thread_isRunning t (detachSides sides w) = thread_isRunning t w"
  by (simp add: thread_isRunning_def)

lemma process_notifyStatusChanged_eq:
  assumes "waiters w waiter = Some W"
  shows "process_notifyStatusChanged waiter w =
     (let w3 = process_continue (thread W) (detachSides (waiterSides W) w)
      in (case (case Option.bind (waiters w3 waiter) timerListener of
                  None \<Rightarrow> Inr w3
                | Some lt \<Rightarrow> descriptorlistener_unref lt w3) of
            Inl e \<Rightarrow> Inl e
          | Inr w4 \<Rightarrow>
              (case Option.bind (waiters w4 waiter) descriptorListener of
                 None \<Rightarrow> Inr w4
               | Some ld \<Rightarrow> descriptorlistener_unref ld w4)))"
  using assms
  by (cases "timer W"; cases "timerListener W"; cases "descriptor W";
      cases "descriptorListener W")
     (simp_all add: process_notifyStatusChanged_def Let_def waiterSides_def)





subsection \<open>The waiter's invariant\<close>

lemma isCallbackFor_isCallback: "isCallbackFor n e \<Longrightarrow> isCallback e"
  by (cases e) simp_all

lemma callbacksFor_filter: "callbacksFor n (filter isCallback es) = callbacksFor n es"
proof -
  have "filter (isCallbackFor n) (filter isCallback es) = filter (isCallbackFor n) es"
    by (induction es) (auto dest: isCallbackFor_isCallback)
  then show ?thesis by (simp add: callbacksFor_def)
qed

lemma callbacksFor_cong:
  "filter isCallback es' = filter isCallback es \<Longrightarrow> callbacksFor n es' = callbacksFor n es"
  by (metis callbacksFor_filter)

lemma callbacksFor_append [simp]:
  "callbacksFor n (es @ es') = callbacksFor n es + callbacksFor n es'"
  by (simp add: callbacksFor_def)

lemma callbacksFor_simps [simp]:
  "callbacksFor n [] = 0"
  "callbacksFor n (e # es) = (if isCallbackFor n e then 1 else 0) + callbacksFor n es"
  by (simp_all add: callbacksFor_def)

lemma frame_callbacks:
  "frame w w' \<Longrightarrow> callbacksFor n (trace w') = callbacksFor n (trace w)"
  by (rule callbacksFor_cong) (simp add: frame_def)

lemma frame_parts:
  assumes "frame w w'"
  shows "nextPtr w \<le> nextPtr w'"
    and "\<And>p. waiters w' p = waiters w p \<or>
          (nextPtr w \<le> p \<and> p < nextPtr w' \<and>
           (\<forall>W l. waiters w' p = Some W \<longrightarrow>
                  timerListener W = Some l \<or> descriptorListener W = Some l \<longrightarrow>
                  nextPtr w \<le> l \<and> l < nextPtr w'))"
    and "\<And>p. listeners w' p = listeners w p \<or>
          (nextPtr w \<le> p \<and> p < nextPtr w' \<and>
           (\<forall>L. listeners w' p = Some L \<longrightarrow>
                nextPtr w \<le> listenerArgument L \<and> listenerArgument L < nextPtr w'))"
    and "\<And>x l. (l \<in> set (attached w' x) \<longleftrightarrow> l \<in> set (attached w x)) \<or>
            (nextPtr w \<le> l \<and> l < nextPtr w')"
  using assms unfolding frame_def by blast+

lemma frame_tidy:
  assumes f: "frame w w'" and t: "tidy n t d w"
  shows "tidy n t d w'"
proof -
  note fp = frame_parts[OF f]
  from t have n: "Suc (Suc n) < nextPtr w" by (simp add: tidy_def)
  have 1: "Suc (Suc n) < nextPtr w'" using n fp(1) by linarith
  have 2: "l = Suc n \<or> l = Suc (Suc n)"
    if "listeners w' l = Some L" "listenerArgument L = n" for l L
  proof (cases "listeners w' l = listeners w l")
    case True
    with that t show ?thesis unfolding tidy_def by metis
  next
    case False
    with fp(3)[of l] that have "nextPtr w \<le> n" by auto
    with n show ?thesis by linarith
  qed
  have 3: "l \<noteq> Suc n \<and> l \<noteq> Suc (Suc n)"
    if "waiters w' p = Some W" "p \<noteq> n"
      "timerListener W = Some l \<or> descriptorListener W = Some l" for p W l
  proof (cases "waiters w' p = waiters w p")
    case True
    with that t show ?thesis unfolding tidy_def by metis
  next
    case False
    with fp(2)[of p] that have "nextPtr w \<le> l" by blast
    with n show ?thesis by linarith
  qed
  have 4: "x = t" if "Suc n \<in> set (attached w' x)" for x
  proof -
    from fp(4)[of "Suc n" x] n have "Suc n \<in> set (attached w' x) \<longleftrightarrow> Suc n \<in> set (attached w x)"
      by auto
    with that t show ?thesis unfolding tidy_def by blast
  qed
  have 5: "x = d" if "Suc (Suc n) \<in> set (attached w' x)" for x
  proof -
    from fp(4)[of "Suc (Suc n)" x] n
    have "Suc (Suc n) \<in> set (attached w' x) \<longleftrightarrow> Suc (Suc n) \<in> set (attached w x)"
      by auto
    with that t show ?thesis unfolding tidy_def by blast
  qed
  show ?thesis
    unfolding tidy_def using 1 2 3 4 5 by blast
qed

lemma frame_armed:
  assumes f: "frame w w'" and n: "Suc (Suc n) < nextPtr w" and a: "armed n t d s w"
  shows "armed n t d s w'"
proof -
  have "waiters w' n = waiters w n" "listeners w' (Suc n) = listeners w (Suc n)"
    "listeners w' (Suc (Suc n)) = listeners w (Suc (Suc n))"
    "Suc n \<in> set (attached w' t) \<longleftrightarrow> Suc n \<in> set (attached w t)"
    "Suc (Suc n) \<in> set (attached w' d) \<longleftrightarrow> Suc (Suc n) \<in> set (attached w d)"
    using frame_old[OF f] n by simp_all
  with a show ?thesis by (simp add: armed_def)
qed

lemma frame_detached:
  assumes f: "frame w w'" and n: "Suc (Suc n) < nextPtr w" and a: "detached n w"
  shows "detached n w'"
proof -
  have "Suc n \<in> set (attached w' x) \<longleftrightarrow> Suc n \<in> set (attached w x)"
    "Suc (Suc n) \<in> set (attached w' x) \<longleftrightarrow> Suc (Suc n) \<in> set (attached w x)" for x
    using frame_old(3)[OF f] n by simp_all
  with a show ?thesis by (simp add: detached_def)
qed

lemma opt_call_frame:
  "waiters (case x of None \<Rightarrow> w | Some s \<Rightarrow> call (f s) w) = waiters w"
  "listeners (case x of None \<Rightarrow> w | Some s \<Rightarrow> call (f s) w) = listeners w"
  "attached (case x of None \<Rightarrow> w | Some s \<Rightarrow> call (f s) w) = attached w"
  "nextPtr (case x of None \<Rightarrow> w | Some s \<Rightarrow> call (f s) w) = nextPtr w"
  "descStatus (case x of None \<Rightarrow> w | Some s \<Rightarrow> call (f s) w) = descStatus w"
  "logged (case x of None \<Rightarrow> w | Some s \<Rightarrow> call (f s) w) = logged w"
  "pluginErrors (case x of None \<Rightarrow> w | Some s \<Rightarrow> call (f s) w) = pluginErrors w"
  "freed (case x of None \<Rightarrow> w | Some s \<Rightarrow> call (f s) w) = freed w"
  "guest (case x of None \<Rightarrow> w | Some s \<Rightarrow> call (f s) w) = guest w"
  "tasks (case x of None \<Rightarrow> w | Some s \<Rightarrow> call (f s) w) = tasks w"
  "queue (case x of None \<Rightarrow> w | Some s \<Rightarrow> call (f s) w) = queue w"
  by (cases x; simp)+

lemma opt_host_unref_frame:
  "waiters (case x of None \<Rightarrow> w | Some h \<Rightarrow> host_unref h w) = waiters w"
  "listeners (case x of None \<Rightarrow> w | Some h \<Rightarrow> host_unref h w) = listeners w"
  "attached (case x of None \<Rightarrow> w | Some h \<Rightarrow> host_unref h w) = attached w"
  "nextPtr (case x of None \<Rightarrow> w | Some h \<Rightarrow> host_unref h w) = nextPtr w"
  "descStatus (case x of None \<Rightarrow> w | Some h \<Rightarrow> host_unref h w) = descStatus w"
  "logged (case x of None \<Rightarrow> w | Some h \<Rightarrow> host_unref h w) = logged w"
  "pluginErrors (case x of None \<Rightarrow> w | Some h \<Rightarrow> host_unref h w) = pluginErrors w"
  "freed (case x of None \<Rightarrow> w | Some h \<Rightarrow> host_unref h w) = freed w"
  "guest (case x of None \<Rightarrow> w | Some h \<Rightarrow> host_unref h w) = guest w"
  "tasks (case x of None \<Rightarrow> w | Some h \<Rightarrow> host_unref h w) = tasks w"
  "queue (case x of None \<Rightarrow> w | Some h \<Rightarrow> host_unref h w) = queue w"
  by (cases x; simp)+

lemma opt_thread_unref_frame:
  "waiters (case x of None \<Rightarrow> w | Some t \<Rightarrow> thread_unref t w) = waiters w"
  "listeners (case x of None \<Rightarrow> w | Some t \<Rightarrow> thread_unref t w) = listeners w"
  "attached (case x of None \<Rightarrow> w | Some t \<Rightarrow> thread_unref t w) = attached w"
  "nextPtr (case x of None \<Rightarrow> w | Some t \<Rightarrow> thread_unref t w) = nextPtr w"
  "descStatus (case x of None \<Rightarrow> w | Some t \<Rightarrow> thread_unref t w) = descStatus w"
  "logged (case x of None \<Rightarrow> w | Some t \<Rightarrow> thread_unref t w) = logged w"
  "pluginErrors (case x of None \<Rightarrow> w | Some t \<Rightarrow> thread_unref t w) = pluginErrors w"
  "freed (case x of None \<Rightarrow> w | Some t \<Rightarrow> thread_unref t w) = freed w"
  "guest (case x of None \<Rightarrow> w | Some t \<Rightarrow> thread_unref t w) = guest w"
  "tasks (case x of None \<Rightarrow> w | Some t \<Rightarrow> thread_unref t w) = tasks w"
  "queue (case x of None \<Rightarrow> w | Some t \<Rightarrow> thread_unref t w) = queue w"
  by (cases x; simp)+

lemma opt_descriptor_unref_frame:
  "waiters (case x of None \<Rightarrow> w | Some d \<Rightarrow> descriptor_unref d w) = waiters w"
  "listeners (case x of None \<Rightarrow> w | Some d \<Rightarrow> descriptor_unref d w) = listeners w"
  "attached (case x of None \<Rightarrow> w | Some d \<Rightarrow> descriptor_unref d w) = attached w"
  "nextPtr (case x of None \<Rightarrow> w | Some d \<Rightarrow> descriptor_unref d w) = nextPtr w"
  "descStatus (case x of None \<Rightarrow> w | Some d \<Rightarrow> descriptor_unref d w) = descStatus w"
  "logged (case x of None \<Rightarrow> w | Some d \<Rightarrow> descriptor_unref d w) = logged w"
  "pluginErrors (case x of None \<Rightarrow> w | Some d \<Rightarrow> descriptor_unref d w) = pluginErrors w"
  "freed (case x of None \<Rightarrow> w | Some d \<Rightarrow> descriptor_unref d w) = freed w"
  "guest (case x of None \<Rightarrow> w | Some d \<Rightarrow> descriptor_unref d w) = guest w"
  "tasks (case x of None \<Rightarrow> w | Some d \<Rightarrow> descriptor_unref d w) = tasks w"
  "queue (case x of None \<Rightarrow> w | Some d \<Rightarrow> descriptor_unref d w) = queue w"
  by (cases x; simp)+

lemma if_close_frame:
  "waiters (if c then sys_close fd w else w) = waiters w"
  "listeners (if c then sys_close fd w else w) = listeners w"
  "attached (if c then sys_close fd w else w) = attached w"
  "nextPtr (if c then sys_close fd w else w) = nextPtr w"
  "descStatus (if c then sys_close fd w else w) = descStatus w"
  "logged (if c then sys_close fd w else w) = logged w"
  "pluginErrors (if c then sys_close fd w else w) = pluginErrors w"
  "freed (if c then sys_close fd w else w) = freed w"
  "guest (if c then sys_close fd w else w) = guest w"
  "tasks (if c then sys_close fd w else w) = tasks w"
  "queue (if c then sys_close fd w else w) = queue w"
  by simp_all

lemma process_free_mainThread_frame [simp]:
  "waiters (process_free_mainThread w) = waiters w"
  "listeners (process_free_mainThread w) = listeners w"
  "attached (process_free_mainThread w) = attached w"
  "nextPtr (process_free_mainThread w) = nextPtr w"
  "descStatus (process_free_mainThread w) = descStatus w"
  "logged (process_free_mainThread w) = logged w"
  "pluginErrors (process_free_mainThread w) = pluginErrors w"
  "freed (process_free_mainThread w) = freed w"
  "guest (process_free_mainThread w) = guest w"
  "tasks (process_free_mainThread w) = tasks w"
  "queue (process_free_mainThread w) = queue w"
  by (cases "mainThread (proc w)"; simp add: process_free_mainThread_def)+

lemma process_free_frame [simp]:
  "waiters (process_free w) = waiters w"
  "listeners (process_free w) = listeners w"
  "attached (process_free w) = attached w"
  "nextPtr (process_free w) = nextPtr w"
  "descStatus (process_free w) = descStatus w"
  "logged (process_free w) = logged w"
  "pluginErrors (process_free w) = pluginErrors w"
  "freed (process_free w) = freed w"
  "guest (process_free w) = guest w"
  "tasks (process_free w) = tasks w"
  "queue (process_free w) = queue w"
  unfolding process_free_def Let_def
  by (simp_all only: opt_call_frame opt_host_unref_frame if_close_frame
      process_free_mainThread_frame call_sel worker_countObject_sel)

lemma callbacks_process_free [simp]:
  "filter isCallback (trace (process_free w)) = filter isCallback (trace w)"
  by (simp add: process_free_trace split: option.splits)

lemma process_unref_view:
  assumes "process_unref w = Inr w'"
  shows "waiters w' = waiters w" "listeners w' = listeners w" "attached w' = attached w"
    "nextPtr w' = nextPtr w" "descStatus w' = descStatus w" "freed w' = freed w"
    "filter isCallback (trace w') = filter isCallback (trace w)"
    "logged w' = logged w" "pluginErrors w' = pluginErrors w"
    "didLogReturnCode (proc w') = didLogReturnCode (proc w)"
  using assms
  by (auto simp: process_unref_def Let_def process_free_proc split: if_splits)

lemma process_unrefWaiter_view:
  assumes "process_unrefWaiter waiter w = Inr w'"
  shows "map_option links (waiters w' p) = map_option links (waiters w p)"
    "listeners w' = listeners w" "attached w' = attached w"
    "nextPtr w' = nextPtr w" "descStatus w' = descStatus w"
    "filter isCallback (trace w') = filter isCallback (trace w)"
    "logged w' = logged w" "pluginErrors w' = pluginErrors w" "proc w' = proc w"
  using assms
  by (auto simp: process_unrefWaiter_def Let_def links_def
      opt_thread_unref_sel opt_descriptor_unref_sel opt_thread_unref_frame
      opt_descriptor_unref_frame
      split: option.splits if_splits)

lemma listener_unref_view:
  assumes "descriptorlistener_unref l w = Inr w'"
  shows "(\<forall>p. map_option links (waiters w' p) = map_option links (waiters w p)) \<and>
    (\<forall>l'. l' \<noteq> l \<longrightarrow> listeners w' l' = listeners w l') \<and>
    (listeners w' l = None \<or>
       (\<exists>L. listeners w l = Some L \<and> listeners w' l = Some (L\<lparr>listenerRefs := listenerRefs L - 1\<rparr>))) \<and>
    attached w' = attached w \<and>
    nextPtr w' = nextPtr w \<and> descStatus w' = descStatus w \<and>
    filter isCallback (trace w') = filter isCallback (trace w) \<and>
    logged w' = logged w \<and> pluginErrors w' = pluginErrors w \<and>
    didLogReturnCode (proc w') = didLogReturnCode (proc w)"
proof -
  let ?w1 = "call (ListenerUnref l) w"
  from assms obtain L where L: "listeners w l = Some L"
    by (auto simp: descriptorlistener_unref_def Let_def split: option.splits)
  show ?thesis
  proof (cases "listenerRefs L - 1 > 0")
    case True
    with assms L have "w' = ?w1\<lparr>listeners := (listeners ?w1)(l \<mapsto> L\<lparr>listenerRefs := listenerRefs L - 1\<rparr>)\<rparr>"
      by (simp add: descriptorlistener_unref_def Let_def)
    with L show ?thesis by simp
  next
    case False
    let ?w2 = "?w1\<lparr>listeners := (listeners ?w1)(l := None)\<rparr>"
    from False assms L obtain w3 where w3: "process_unref ?w2 = Inr w3"
      "process_unrefWaiter (listenerArgument L) w3 = Inr w'"
      by (auto simp: descriptorlistener_unref_def Let_def split: sum.splits)
    note a = process_unref_view[OF w3(1)]
    note b = process_unrefWaiter_view[OF w3(2)]
    show ?thesis
      using a b(1) b(2-) by simp
  qed
qed

lemma links_eq:
  "map_option links (Some W') = map_option links (Some W) \<longleftrightarrow>
     timer W' = timer W \<and> timerListener W' = timerListener W \<and>
     descriptor W' = descriptor W \<and> descriptorListener W' = descriptorListener W"
  by (auto simp: links_def)

lemma links_Some:
  assumes "map_option links (waiters w' p) = map_option links (waiters w p)"
    and "waiters w' p = Some W'"
  shows "\<exists>W. waiters w p = Some W \<and> timer W' = timer W \<and> timerListener W' = timerListener W \<and>
           descriptor W' = descriptor W \<and> descriptorListener W' = descriptorListener W"
  using assms by (cases "waiters w p") (auto simp: links_def)

lemma tidy_step:
  assumes t: "tidy n t d w" and np: "nextPtr w' = nextPtr w"
    and ls: "\<And>l L'. listeners w' l = Some L' \<Longrightarrow>
               \<exists>L. listeners w l = Some L \<and> listenerArgument L = listenerArgument L'"
    and ws: "\<And>p. map_option links (waiters w' p) = map_option links (waiters w p)"
    and at: "\<And>x l. l \<in> set (attached w' x) \<Longrightarrow> l \<in> set (attached w x)"
  shows "tidy n t d w'"
proof -
  have 2: "l = Suc n \<or> l = Suc (Suc n)"
    if "listeners w' l = Some L" "listenerArgument L = n" for l L
    using ls[OF that(1)] that(2) t unfolding tidy_def by metis
  have 3: "l \<noteq> Suc n \<and> l \<noteq> Suc (Suc n)"
    if "waiters w' p = Some W" "p \<noteq> n"
      "timerListener W = Some l \<or> descriptorListener W = Some l" for p W l
  proof -
    from links_Some[OF ws that(1)] obtain V where "waiters w p = Some V"
      "timerListener W = timerListener V" "descriptorListener W = descriptorListener V"
      by auto
    with that t show ?thesis unfolding tidy_def by metis
  qed
  have 1: "Suc (Suc n) < nextPtr w'" using t np by (simp add: tidy_def)
  have 4: "x = t" if "Suc n \<in> set (attached w' x)" for x
    using at[OF that] t unfolding tidy_def by blast
  have 5: "x = d" if "Suc (Suc n) \<in> set (attached w' x)" for x
    using at[OF that] t unfolding tidy_def by blast
  show ?thesis
    unfolding tidy_def using 1 2 3 4 5 by blast
qed

lemma detached_step:
  assumes "detached n w" and "\<And>x l. l \<in> set (attached w' x) \<Longrightarrow> l \<in> set (attached w x)"
  shows "detached n w'"
  using assms unfolding detached_def by blast

lemma armed_step:
  assumes a: "armed n t d s w"
    and ws: "map_option links (waiters w' n) = map_option links (waiters w n)"
    and l1: "\<And>L. listeners w (Suc n) = Some L \<Longrightarrow>
               \<exists>L'. listeners w' (Suc n) = Some L' \<and> listenerArgument L' = listenerArgument L \<and>
                 monitorStatus L' = monitorStatus L \<and> monitorFilter L' = monitorFilter L"
    and l2: "\<And>L. listeners w (Suc (Suc n)) = Some L \<Longrightarrow>
               \<exists>L'. listeners w' (Suc (Suc n)) = Some L' \<and> listenerArgument L' = listenerArgument L \<and>
                 monitorStatus L' = monitorStatus L \<and> monitorFilter L' = monitorFilter L"
    and a1: "Suc n \<in> set (attached w t) \<Longrightarrow> Suc n \<in> set (attached w' t)"
    and a2: "Suc (Suc n) \<in> set (attached w d) \<Longrightarrow> Suc (Suc n) \<in> set (attached w' d)"
  shows "armed n t d s w'"
proof -
  from a obtain W where W: "waiters w n = Some W" "timer W = Some t"
    "timerListener W = Some (Suc n)" "descriptor W = Some d"
    "descriptorListener W = Some (Suc (Suc n))"
    unfolding armed_def by blast
  from ws W(1) obtain W' where W': "waiters w' n = Some W'" "links W' = links W"
    by (cases "waiters w' n") auto
  from a obtain L1 where L1: "listeners w (Suc n) = Some L1" "listenerArgument L1 = n"
    "monitorStatus L1 = {DS_READABLE}" "monitorFilter L1 = DLF_OFF_TO_ON"
    unfolding armed_def by blast
  from a obtain L2 where L2: "listeners w (Suc (Suc n)) = Some L2" "listenerArgument L2 = n"
    "monitorStatus L2 = s" "monitorFilter L2 = DLF_OFF_TO_ON"
    unfolding armed_def by blast
  from a have at: "Suc n \<in> set (attached w t)" "Suc (Suc n) \<in> set (attached w d)"
    unfolding armed_def by blast+
  show ?thesis
    unfolding armed_def
    using W W' l1[OF L1(1)] L1 l2[OF L2(1)] L2 a1[OF at(1)] a2[OF at(2)]
    by (auto simp: links_def)
qed

lemma detachSides_inv:
  assumes t: "tidy n t d w"
  shows "tidy n t d (detachSides sides w)"
    and "detached n w \<Longrightarrow> detached n (detachSides sides w)"
    and "armed n t d s w \<Longrightarrow> Suc n \<notin> snd ` set sides \<Longrightarrow> Suc (Suc n) \<notin> snd ` set sides \<Longrightarrow>
         armed n t d s (detachSides sides w)"
    and "(t, Suc n) \<in> set sides \<Longrightarrow> (d, Suc (Suc n)) \<in> set sides \<Longrightarrow>
         detached n (detachSides sides w)"
proof -
  show "tidy n t d (detachSides sides w)"
    by (rule tidy_step[OF t]) (auto simp: detachSides_listeners detachSides_attached split: if_splits)
  show "detached n w \<Longrightarrow> detached n (detachSides sides w)"
    by (erule detached_step) (simp add: detachSides_attached)
  show "armed n t d s w \<Longrightarrow> Suc n \<notin> snd ` set sides \<Longrightarrow> Suc (Suc n) \<notin> snd ` set sides \<Longrightarrow>
         armed n t d s (detachSides sides w)"
    by (erule armed_step) (force simp: detachSides_listeners detachSides_attached)+
  show "(t, Suc n) \<in> set sides \<Longrightarrow> (d, Suc (Suc n)) \<in> set sides \<Longrightarrow>
         detached n (detachSides sides w)"
    using t unfolding detached_def tidy_def
    by (auto simp: detachSides_attached)
qed

lemma listener_unref_inv:
  assumes t: "tidy n t d w" and u: "descriptorlistener_unref l w = Inr w'"
  shows "tidy n t d w'"
    and "detached n w \<Longrightarrow> detached n w'"
    and "armed n t d s w \<Longrightarrow> l \<noteq> Suc n \<Longrightarrow> l \<noteq> Suc (Suc n) \<Longrightarrow> armed n t d s w'"
    and "descStatus w' = descStatus w"
    and "callbacksFor n (trace w') = callbacksFor n (trace w)"
proof -
  note v = listener_unref_view[OF u]
  from v have ws: "\<And>p. map_option links (waiters w' p) = map_option links (waiters w p)"
    and lo: "\<And>l'. l' \<noteq> l \<Longrightarrow> listeners w' l' = listeners w l'"
    and ll: "listeners w' l = None \<or>
       (\<exists>L. listeners w l = Some L \<and> listeners w' l = Some (L\<lparr>listenerRefs := listenerRefs L - 1\<rparr>))"
    and at: "attached w' = attached w" and np: "nextPtr w' = nextPtr w"
    and ds: "descStatus w' = descStatus w"
    and cb: "filter isCallback (trace w') = filter isCallback (trace w)"
    by blast+
  have ls: "\<exists>L. listeners w l' = Some L \<and> listenerArgument L = listenerArgument L'"
    if "listeners w' l' = Some L'" for l' L'
  proof (cases "l' = l")
    case True
    with ll that show ?thesis by auto
  next
    case False
    with lo[of l'] that show ?thesis by metis
  qed
  show "tidy n t d w'"
    by (rule tidy_step[OF t np ls ws]) (simp_all add: at)
  show "detached n w \<Longrightarrow> detached n w'"
    by (erule detached_step) (simp add: at)
  show "armed n t d s w \<Longrightarrow> l \<noteq> Suc n \<Longrightarrow> l \<noteq> Suc (Suc n) \<Longrightarrow> armed n t d s w'"
    by (erule armed_step) (simp_all add: ws lo at)
  show "descStatus w' = descStatus w" by (rule ds)
  show "callbacksFor n (trace w') = callbacksFor n (trace w)"
    by (rule callbacksFor_cong[OF cb])
qed

lemma callbacks_detachSides [simp]:
  "callbacksFor n (trace (detachSides sides w)) = callbacksFor n (trace w)"
  by (induction sides w rule: detachSides.induct) simp_all

lemma waiterSides_foreign:
  assumes t: "tidy n t d w" and W: "waiters w p = Some W" and p: "p \<noteq> n"
  shows "Suc n \<notin> snd ` set (waiterSides W)" "Suc (Suc n) \<notin> snd ` set (waiterSides W)"
  using t W p unfolding tidy_def
  by (auto simp: waiterSides_def split: option.splits) metis+

lemma waiterSides_armed:
  assumes "armed n t d s w" and "waiters w n = Some W"
  shows "waiterSides W = [(t, Suc n), (d, Suc (Suc n))]"
  using assms by (auto simp: armed_def waiterSides_def)

lemma tidy_foreign:
  assumes t: "tidy n t d w" and p: "p \<noteq> n"
  shows "Option.bind (waiters w p) timerListener = Some l \<Longrightarrow> l \<noteq> Suc n \<and> l \<noteq> Suc (Suc n)"
    and "Option.bind (waiters w p) descriptorListener = Some l \<Longrightarrow>
         l \<noteq> Suc n \<and> l \<noteq> Suc (Suc n)"
proof -
  have *: "l \<noteq> Suc n \<and> l \<noteq> Suc (Suc n)"
    if "waiters w p = Some W" "timerListener W = Some l \<or> descriptorListener W = Some l" for W
    using t p that unfolding tidy_def by blast
  show "Option.bind (waiters w p) timerListener = Some l \<Longrightarrow> l \<noteq> Suc n \<and> l \<noteq> Suc (Suc n)"
    by (cases "waiters w p") (auto dest: *)
  show "Option.bind (waiters w p) descriptorListener = Some l \<Longrightarrow>
         l \<noteq> Suc n \<and> l \<noteq> Suc (Suc n)"
    by (cases "waiters w p") (auto dest: *)
qed

lemma notify_inv:
  assumes t: "tidy n t d w" and r: "process_notifyStatusChanged p w = Inr w'"
  shows "tidy n t d w' \<and> descStatus w' = descStatus w \<and>
         callbacksFor n (trace w') = callbacksFor n (trace w) \<and>
         (detached n w \<longrightarrow> detached n w') \<and>
         (armed n t d s w \<longrightarrow> (if p = n then detached n w' else armed n t d s w'))"
proof -
  from r obtain W where W: "waiters w p = Some W"
    by (auto simp: process_notifyStatusChanged_def split: option.splits)
  define w2 where "w2 = detachSides (waiterSides W) w"
  define w3 where "w3 = process_continue (thread W) w2"
  have fr: "frame w2 w3" unfolding w3_def by (rule frame_process_continue)
  have t2: "tidy n t d w2" unfolding w2_def by (rule detachSides_inv(1)[OF t])
  have t3: "tidy n t d w3" by (rule frame_tidy[OF fr t2])
  have n2: "Suc (Suc n) < nextPtr w2" using t2 by (simp add: tidy_def)
  have ds3: "descStatus w3 = descStatus w" using fr by (simp add: frame_def w2_def)
  have cb3: "callbacksFor n (trace w3) = callbacksFor n (trace w)"
    using frame_callbacks[OF fr, of n] by (simp add: w2_def)
  have d3: "detached n w3" if "detached n w"
    using frame_detached[OF fr n2] detachSides_inv(2)[OF t that] by (simp add: w2_def)
  have a3: "armed n t d s w3" if "armed n t d s w" "p \<noteq> n"
    using frame_armed[OF fr n2] detachSides_inv(3)[OF t that(1)]
      waiterSides_foreign[OF t W that(2)]
    by (simp add: w2_def)
  have f3: "detached n w3" if "armed n t d s w" "p = n"
  proof -
    have ws: "waiterSides W = [(t, Suc n), (d, Suc (Suc n))]"
      using waiterSides_armed[OF that(1)] W that(2) by simp
    have "detached n (detachSides [(t, Suc n), (d, Suc (Suc n))] w)"
      by (rule detachSides_inv(4)[OF t]) simp_all
    then have "detached n w2" unfolding w2_def ws .
    then show ?thesis by (rule frame_detached[OF fr n2])
  qed
  have eq: "process_notifyStatusChanged p w =
     (case (case Option.bind (waiters w3 p) timerListener of
                  None \<Rightarrow> Inr w3
                | Some lt \<Rightarrow> descriptorlistener_unref lt w3) of
            Inl e \<Rightarrow> Inl e
          | Inr w4 \<Rightarrow>
              (case Option.bind (waiters w4 p) descriptorListener of
                 None \<Rightarrow> Inr w4
               | Some ld \<Rightarrow> descriptorlistener_unref ld w4))"
    unfolding w3_def w2_def
    using process_notifyStatusChanged_eq[OF W] unfolding Let_def .
  from r eq obtain w4 where w4:
    "(case Option.bind (waiters w3 p) timerListener of
        None \<Rightarrow> Inr w3 | Some lt \<Rightarrow> descriptorlistener_unref lt w3) = Inr w4"
    "(case Option.bind (waiters w4 p) descriptorListener of
        None \<Rightarrow> Inr w4 | Some ld \<Rightarrow> descriptorlistener_unref ld w4) = Inr w'"
    by (auto split: sum.splits)
  have s4: "tidy n t d w4 \<and> descStatus w4 = descStatus w \<and>
         callbacksFor n (trace w4) = callbacksFor n (trace w) \<and>
         (detached n w \<longrightarrow> detached n w4) \<and>
         (armed n t d s w \<longrightarrow> (if p = n then detached n w4 else armed n t d s w4))"
  proof (cases "Option.bind (waiters w3 p) timerListener")
    case None
    with w4(1) have "w4 = w3" by simp
    with t3 ds3 cb3 d3 a3 f3 show ?thesis by auto
  next
    case (Some lt)
    with w4(1) have u: "descriptorlistener_unref lt w3 = Inr w4" by simp
    note i = listener_unref_inv[OF t3 u]
    have foreign: "lt \<noteq> Suc n \<and> lt \<noteq> Suc (Suc n)" if "p \<noteq> n"
      using tidy_foreign(1)[OF t3 that Some] .
    show ?thesis
      using i(1) i(2) i(3)[of s] i(4) i(5) ds3 cb3 d3 a3 f3 foreign by auto
  qed
  then have t4: "tidy n t d w4" by simp
  show ?thesis
  proof (cases "Option.bind (waiters w4 p) descriptorListener")
    case None
    with w4(2) have "w' = w4" by simp
    with s4 show ?thesis by simp
  next
    case (Some ld)
    with w4(2) have u: "descriptorlistener_unref ld w4 = Inr w'" by simp
    note i = listener_unref_inv[OF t4 u]
    have foreign: "ld \<noteq> Suc n \<and> ld \<noteq> Suc (Suc n)" if "p \<noteq> n"
      using tidy_foreign(2)[OF t4 that Some] .
    show ?thesis
      using i(1) i(2) i(3)[of s] i(4) i(5) s4 foreign by auto
  qed
qed

lemma call_inv [simp]:
  "tidy n t d (call e w) = tidy n t d w"
  "armed n t d s (call e w) = armed n t d s w"
  "detached n (call e w) = detached n w"
  by (simp_all add: tidy_def armed_def detached_def)

lemma descStatus_inv [simp]:
  "tidy n t d (w\<lparr>descStatus := st\<rparr>) = tidy n t d w"
  "armed n t d s (w\<lparr>descStatus := st\<rparr>) = armed n t d s w"
  "detached n (w\<lparr>descStatus := st\<rparr>) = detached n w"
  by (simp_all add: tidy_def armed_def detached_def)

lemma armed_not_detached: "armed n t d s w \<Longrightarrow> \<not> detached n w"
  by (auto simp: armed_def detached_def)

lemma notifyListeners_skip:
  "l \<notin> set (attached w x) \<Longrightarrow>
   notifyListeners x changed (l # ls) w = notifyListeners x changed ls w"
  by simp

lemma notifyListeners_quiet:
  "listeners w l = Some L \<Longrightarrow> \<not> listenerFires L (descStatus w x) changed \<Longrightarrow>
   notifyListeners x changed (l # ls) w = notifyListeners x changed ls w"
  by simp

lemma notifyListeners_fire:
  "l \<in> set (attached w x) \<Longrightarrow> listeners w l = Some L \<Longrightarrow>
   listenerFires L (descStatus w x) changed \<Longrightarrow>
   notifyListeners x changed (l # ls) w = Inr w' \<Longrightarrow>
   \<exists>w2. process_notifyStatusChanged (listenerArgument L)
           (call (ListenerCallback l (listenerArgument L)) w) = Inr w2 \<and>
        notifyListeners x changed ls w2 = Inr w'"
  by (simp split: sum.splits)

lemma notifyListeners_known:
  "l \<in> set (attached w x) \<Longrightarrow> notifyListeners x changed (l # ls) w = Inr w' \<Longrightarrow>
   \<exists>L. listeners w l = Some L"
  by (cases "listeners w l") simp_all

lemma armed_timerL:
  "armed n t d s w \<Longrightarrow> listeners w (Suc n) = Some L \<Longrightarrow>
   listenerArgument L = n \<and> monitorStatus L = {DS_READABLE} \<and> monitorFilter L = DLF_OFF_TO_ON"
  unfolding armed_def by clarsimp

lemma armed_descL:
  "armed n t d s w \<Longrightarrow> listeners w (Suc (Suc n)) = Some L \<Longrightarrow>
   listenerArgument L = n \<and> monitorStatus L = s \<and> monitorFilter L = DLF_OFF_TO_ON"
  unfolding armed_def by clarsimp

lemma armed_attached:
  "armed n t d s w \<Longrightarrow> Suc n \<in> set (attached w t) \<and> Suc (Suc n) \<in> set (attached w d)"
  unfolding armed_def by simp

lemma tidy_own:
  "tidy n t d w \<Longrightarrow> listeners w l = Some L \<Longrightarrow> listenerArgument L = n \<Longrightarrow>
   l = Suc n \<or> l = Suc (Suc n)"
  unfolding tidy_def by blast

lemma tidy_at:
  "tidy n t d w \<Longrightarrow> l \<in> set (attached w x) \<Longrightarrow>
   (l = Suc n \<longrightarrow> x = t) \<and> (l = Suc (Suc n) \<longrightarrow> x = d)"
  unfolding tidy_def by blast

lemma detached_foreign:
  "detached n w \<Longrightarrow> tidy n t d w \<Longrightarrow> l \<in> set (attached w x) \<Longrightarrow>
   listeners w l = Some L \<Longrightarrow> listenerArgument L \<noteq> n"
  unfolding detached_def tidy_def by blast

lemma hits_Cons:
  "hits n t d s x changed cur (l # ls) \<longleftrightarrow>
     (l = Suc n \<and> x = t \<and> DS_READABLE \<in> changed \<inter> cur) \<or>
     (l = Suc (Suc n) \<and> x = d \<and> s \<inter> changed \<inter> cur \<noteq> {}) \<or>
     hits n t d s x changed cur ls"
  unfolding hits_def by (simp only: list.set insert_iff) blast

lemma hits_skip:
  assumes a: "armed n t d s w" and l: "l \<notin> set (attached w x)"
  shows "hits n t d s x changed cur (l # ls) = hits n t d s x changed cur ls"
proof -
  from armed_attached[OF a] l have "\<not> (l = Suc n \<and> x = t)" "\<not> (l = Suc (Suc n) \<and> x = d)"
    by blast+
  then show ?thesis unfolding hits_Cons by blast
qed

lemma hits_quiet:
  assumes a: "armed n t d s w" and L: "listeners w l = Some L"
    and f: "\<not> listenerFires L cur changed"
  shows "hits n t d s x changed cur (l # ls) = hits n t d s x changed cur ls"
proof -
  have "\<not> (l = Suc n \<and> DS_READABLE \<in> changed \<inter> cur)"
  proof
    assume h: "l = Suc n \<and> DS_READABLE \<in> changed \<inter> cur"
    with armed_timerL[OF a] L
    have "monitorStatus L = {DS_READABLE}" "monitorFilter L = DLF_OFF_TO_ON" by simp_all
    with h have "listenerFires L cur changed" unfolding listenerFires_def by blast
    with f show False ..
  qed
  moreover have "\<not> (l = Suc (Suc n) \<and> s \<inter> changed \<inter> cur \<noteq> {})"
  proof
    assume h: "l = Suc (Suc n) \<and> s \<inter> changed \<inter> cur \<noteq> {}"
    with armed_descL[OF a] L
    have "monitorStatus L = s" "monitorFilter L = DLF_OFF_TO_ON" by simp_all
    with h have "listenerFires L cur changed" unfolding listenerFires_def by blast
    with f show False ..
  qed
  ultimately show ?thesis unfolding hits_Cons by blast
qed

lemma hits_other:
  assumes a: "armed n t d s w" and L: "listeners w l = Some L" and p: "listenerArgument L \<noteq> n"
  shows "hits n t d s x changed cur (l # ls) = hits n t d s x changed cur ls"
proof -
  from armed_timerL[OF a] armed_descL[OF a] L p have "l \<noteq> Suc n" "l \<noteq> Suc (Suc n)"
    by blast+
  then show ?thesis unfolding hits_Cons by blast
qed

lemma hits_own:
  assumes a: "armed n t d s w" and t: "tidy n t d w" and att: "l \<in> set (attached w x)"
    and L: "listeners w l = Some L" and f: "listenerFires L cur changed"
    and p: "listenerArgument L = n"
  shows "hits n t d s x changed cur (l # ls)"
proof -
  from tidy_own[OF t L p] show ?thesis
  proof
    assume l: "l = Suc n"
    with tidy_at[OF t att] have "x = t" by blast
    moreover have "DS_READABLE \<in> changed \<inter> cur"
    proof -
      from armed_timerL[OF a L[unfolded l]] have "monitorStatus L = {DS_READABLE}" by simp
      with f have "{DS_READABLE} \<inter> changed \<inter> cur \<noteq> {}"
        unfolding listenerFires_def by simp
      then show ?thesis by blast
    qed
    ultimately show ?thesis unfolding hits_Cons using l by blast
  next
    assume l: "l = Suc (Suc n)"
    with tidy_at[OF t att] have "x = d" by blast
    moreover have "s \<inter> changed \<inter> cur \<noteq> {}"
    proof -
      from armed_descL[OF a L[unfolded l]] have "monitorStatus L = s" by simp
      with f show ?thesis unfolding listenerFires_def by simp
    qed
    ultimately show ?thesis unfolding hits_Cons using l by blast
  qed
qed

lemma notifyListeners_inv:
  assumes "notifyListeners x changed ls w = Inr w'" and "tidy n t d w"
  shows "tidy n t d w' \<and> descStatus w' = descStatus w \<and>
     (detached n w \<longrightarrow>
        detached n w' \<and> callbacksFor n (trace w') = callbacksFor n (trace w)) \<and>
     (armed n t d s w \<longrightarrow>
        (if hits n t d s x changed (descStatus w x) ls
         then detached n w' \<and> callbacksFor n (trace w') = callbacksFor n (trace w) + 1
         else armed n t d s w' \<and> callbacksFor n (trace w') = callbacksFor n (trace w)))"
  using assms
proof (induction ls arbitrary: w)
  case Nil
  then show ?case by (simp add: hits_def)
next
  case (Cons l ls)
  note t = Cons.prems(2)
  show ?case
  proof (cases "l \<in> set (attached w x)")
    case False
    from Cons.prems(1) have r: "notifyListeners x changed ls w = Inr w'"
      unfolding notifyListeners_skip[OF False] .
    from Cons.IH[OF r t] show ?thesis
      by (simp add: hits_skip[OF _ False])
  next
    case True
    note att = True
    from notifyListeners_known[OF att Cons.prems(1)]
    obtain L where L: "listeners w l = Some L" ..
    show ?thesis
    proof (cases "listenerFires L (descStatus w x) changed")
      case False
      from Cons.prems(1) have r: "notifyListeners x changed ls w = Inr w'"
        unfolding notifyListeners_quiet[OF L False] .
      from Cons.IH[OF r t] show ?thesis
        by (simp add: hits_quiet[OF _ L False])
    next
      case True
      let ?p = "listenerArgument L"
      let ?w1 = "call (ListenerCallback l ?p) w"
      from notifyListeners_fire[OF att L True Cons.prems(1)] obtain w2 where
        w2: "process_notifyStatusChanged ?p ?w1 = Inr w2"
        and r: "notifyListeners x changed ls w2 = Inr w'"
        by blast
      have t1: "tidy n t d ?w1" using t by simp
      have c1: "callbacksFor n (trace ?w1) =
                callbacksFor n (trace w) + (if ?p = n then 1 else 0)"
        by simp
      from notify_inv[OF t1 w2, of s]
      have i: "tidy n t d w2" "descStatus w2 = descStatus w"
        "callbacksFor n (trace w2) = callbacksFor n (trace ?w1)"
        "detached n w \<Longrightarrow> detached n w2"
        "armed n t d s w \<Longrightarrow> (if ?p = n then detached n w2 else armed n t d s w2)"
        by simp_all
      note ih = Cons.IH[OF r i(1)]
      from ih have T: "tidy n t d w'" and S: "descStatus w' = descStatus w"
        using i(2) by simp_all
      have D: "detached n w' \<and> callbacksFor n (trace w') = callbacksFor n (trace w)"
        if dt: "detached n w"
      proof -
        have "?p \<noteq> n" by (rule detached_foreign[OF dt t att L])
        with ih i(3) c1 i(4)[OF dt] show ?thesis by simp
      qed
      have A: "if hits n t d s x changed (descStatus w x) (l # ls)
         then detached n w' \<and> callbacksFor n (trace w') = callbacksFor n (trace w) + 1
         else armed n t d s w' \<and> callbacksFor n (trace w') = callbacksFor n (trace w)"
        if a: "armed n t d s w"
      proof (cases "?p = n")
        case True
        have h: "hits n t d s x changed (descStatus w x) (l # ls)"
          by (rule hits_own[OF a t att L \<open>listenerFires L (descStatus w x) changed\<close> True])
        have "detached n w2" using i(5)[OF a] True by simp
        with ih have "detached n w' \<and> callbacksFor n (trace w') = callbacksFor n (trace w2)"
          by simp
        with h i(3) c1 True show ?thesis by simp
      next
        case False
        have h: "hits n t d s x changed (descStatus w x) (l # ls) =
                 hits n t d s x changed (descStatus w x) ls"
          by (rule hits_other[OF a L False])
        have "armed n t d s w2" using i(5)[OF a] False by simp
        with ih i(2) have "if hits n t d s x changed (descStatus w x) ls
           then detached n w' \<and> callbacksFor n (trace w') = callbacksFor n (trace w2) + 1
           else armed n t d s w' \<and> callbacksFor n (trace w') = callbacksFor n (trace w2)"
          by simp
        with i(3) c1 False show ?thesis unfolding h by simp
      qed
      from T S D A show ?thesis by blast
    qed
  qed
qed

lemma hits_armed:
  assumes a: "armed n t d s w"
  shows "hits n t d s x changed cur (attached w x) \<longleftrightarrow>
         (x = t \<and> DS_READABLE \<in> changed \<inter> cur) \<or> (x = d \<and> s \<inter> changed \<inter> cur \<noteq> {})"
proof -
  from armed_attached[OF a] have 1: "Suc n \<in> set (attached w t)"
    and 2: "Suc (Suc n) \<in> set (attached w d)" by simp_all
  show ?thesis unfolding hits_def using 1 2 by metis
qed

lemma attached_descStatus: "attached (w\<lparr>descStatus := st\<rparr>) = attached w"
  by simp

lemma descriptor_adjustStatus_eq:
  "descriptor_adjustStatus x bits b w =
     (if (descStatus w x - (if b then descStatus w x \<union> bits else descStatus w x - bits)) \<union>
         ((if b then descStatus w x \<union> bits else descStatus w x - bits) - descStatus w x) = {}
      then Inr (w\<lparr>descStatus := (descStatus w)
                  (x := if b then descStatus w x \<union> bits else descStatus w x - bits)\<rparr>)
      else notifyListeners x
             ((descStatus w x - (if b then descStatus w x \<union> bits else descStatus w x - bits)) \<union>
              ((if b then descStatus w x \<union> bits else descStatus w x - bits) - descStatus w x))
             (attached w x)
             (w\<lparr>descStatus := (descStatus w)
                  (x := if b then descStatus w x \<union> bits else descStatus w x - bits)\<rparr>))"
  unfolding descriptor_adjustStatus_def Let_def by (simp only: attached_descStatus)

lemma adjust_generic:
  assumes r: "(if changed = {} then Inr w1
               else notifyListeners x changed (attached w x) w1) = Inr w'"
    and w1: "w1 = w\<lparr>descStatus := (descStatus w)(x := new)\<rparr>"
    and t: "tidy n t d w"
  shows "tidy n t d w' \<and> descStatus w' = (descStatus w)(x := new) \<and>
     (detached n w \<longrightarrow>
        detached n w' \<and> callbacksFor n (trace w') = callbacksFor n (trace w)) \<and>
     (armed n t d s w \<longrightarrow>
        (if (x = t \<and> DS_READABLE \<in> changed \<inter> new) \<or> (x = d \<and> s \<inter> changed \<inter> new \<noteq> {})
         then detached n w' \<and> callbacksFor n (trace w') = callbacksFor n (trace w) + 1
         else armed n t d s w' \<and> callbacksFor n (trace w') = callbacksFor n (trace w)))"
proof -
  have t1: "tidy n t d w1" and d1: "detached n w1 = detached n w"
    and a1: "armed n t d s w1 = armed n t d s w"
    and s1: "descStatus w1 = (descStatus w)(x := new)" and c1: "trace w1 = trace w"
    and at1: "attached w1 = attached w"
    using t unfolding w1 by simp_all
  show ?thesis
  proof (cases "changed = {}")
    case True
    with r have e: "w' = w1" by simp
    have n: "\<not> ((x = t \<and> DS_READABLE \<in> changed \<inter> new) \<or>
                 (x = d \<and> s \<inter> changed \<inter> new \<noteq> {}))"
      unfolding True by simp
    show ?thesis unfolding e if_not_P[OF n] d1 a1 s1 c1 using t1 by simp
  next
    case False
    with r have r1: "notifyListeners x changed (attached w1 x) w1 = Inr w'"
      unfolding at1 by simp
    note inv = notifyListeners_inv[OF r1 t1, of s, unfolded d1 a1 c1 s1 fun_upd_same]
    have hit: "hits n t d s x changed new (attached w1 x) \<longleftrightarrow>
         (x = t \<and> DS_READABLE \<in> changed \<inter> new) \<or> (x = d \<and> s \<inter> changed \<inter> new \<noteq> {})"
      if a: "armed n t d s w"
      by (rule hits_armed) (simp add: a1 a)
    from inv have 1: "tidy n t d w'" and 2: "descStatus w' = (descStatus w)(x := new)"
      by simp_all
    have 3: "detached n w' \<and> callbacksFor n (trace w') = callbacksFor n (trace w)"
      if "detached n w"
      using inv that by simp
    have 4: "if (x = t \<and> DS_READABLE \<in> changed \<inter> new) \<or> (x = d \<and> s \<inter> changed \<inter> new \<noteq> {})
         then detached n w' \<and> callbacksFor n (trace w') = callbacksFor n (trace w) + 1
         else armed n t d s w' \<and> callbacksFor n (trace w') = callbacksFor n (trace w)"
      if a: "armed n t d s w"
    proof -
      from inv a have "if hits n t d s x changed new (attached w1 x)
         then detached n w' \<and> callbacksFor n (trace w') = callbacksFor n (trace w) + 1
         else armed n t d s w' \<and> callbacksFor n (trace w') = callbacksFor n (trace w)"
        by simp
      then show ?thesis by (simp only: hit[OF a])
    qed
    from 1 2 3 4 show ?thesis by blast
  qed
qed

lemma adjustStatus_inv:
  assumes r: "descriptor_adjustStatus x bits b w = Inr w'" and t: "tidy n t d w"
  shows "let new = (if b then descStatus w x \<union> bits else descStatus w x - bits);
             changed = (descStatus w x - new) \<union> (new - descStatus w x)
    in tidy n t d w' \<and> descStatus w' = (descStatus w)(x := new) \<and>
     (detached n w \<longrightarrow>
        detached n w' \<and> callbacksFor n (trace w') = callbacksFor n (trace w)) \<and>
     (armed n t d s w \<longrightarrow>
        (if (x = t \<and> DS_READABLE \<in> changed \<inter> new) \<or> (x = d \<and> s \<inter> changed \<inter> new \<noteq> {})
         then detached n w' \<and> callbacksFor n (trace w') = callbacksFor n (trace w) + 1
         else armed n t d s w' \<and> callbacksFor n (trace w') = callbacksFor n (trace w)))"
  unfolding Let_def
  by (rule adjust_generic[OF r[unfolded descriptor_adjustStatus_eq] refl t])

lemma deliver_Cons:
  "deliver ((x, bits, b) # evs) w = Inr w' \<Longrightarrow>
   \<exists>w1. descriptor_adjustStatus x bits b w = Inr w1 \<and> deliver evs w1 = Inr w'"
  by (cases "descriptor_adjustStatus x bits b w") simp_all

lemma triggered_Cons:
  "triggered t d s st ((x, bits, b) # evs) \<longleftrightarrow>
     (x = t \<and> DS_READABLE \<in>
        ((st x - (if b then st x \<union> bits else st x - bits)) \<union>
         ((if b then st x \<union> bits else st x - bits) - st x)) \<inter>
        (if b then st x \<union> bits else st x - bits)) \<or>
     (x = d \<and> s \<inter>
        ((st x - (if b then st x \<union> bits else st x - bits)) \<union>
         ((if b then st x \<union> bits else st x - bits) - st x)) \<inter>
        (if b then st x \<union> bits else st x - bits) \<noteq> {}) \<or>
     triggered t d s (st(x := if b then st x \<union> bits else st x - bits)) evs"
  unfolding triggered.simps Let_def ..

lemma deliver_inv:
  assumes "deliver evs w = Inr w'" and "tidy n t d w"
  shows "tidy n t d w' \<and>
     (detached n w \<longrightarrow>
        detached n w' \<and> callbacksFor n (trace w') = callbacksFor n (trace w)) \<and>
     (armed n t d s w \<longrightarrow>
        (if triggered t d s (descStatus w) evs
         then detached n w' \<and> callbacksFor n (trace w') = callbacksFor n (trace w) + 1
         else armed n t d s w' \<and> callbacksFor n (trace w') = callbacksFor n (trace w)))"
  using assms
proof (induction evs arbitrary: w)
  case Nil
  then show ?case by simp
next
  case (Cons ev evs)
  obtain x bits b where ev: "ev = (x, bits, b)" by (cases ev) auto
  from deliver_Cons[OF Cons.prems(1)[unfolded ev]] obtain w1 where
    r1: "descriptor_adjustStatus x bits b w = Inr w1" and r2: "deliver evs w1 = Inr w'"
    by blast
  define new where "new = (if b then descStatus w x \<union> bits else descStatus w x - bits)"
  define changed where "changed = (descStatus w x - new) \<union> (new - descStatus w x)"
  define fire where "fire \<longleftrightarrow> (x = t \<and> DS_READABLE \<in> changed \<inter> new) \<or>
                            (x = d \<and> s \<inter> changed \<inter> new \<noteq> {})"
  from adjustStatus_inv[OF r1 Cons.prems(2), of s]
  have i: "tidy n t d w1" "descStatus w1 = (descStatus w)(x := new)"
    "detached n w \<Longrightarrow> detached n w1 \<and> callbacksFor n (trace w1) = callbacksFor n (trace w)"
    "armed n t d s w \<Longrightarrow>
       (if fire then detached n w1 \<and> callbacksFor n (trace w1) = callbacksFor n (trace w) + 1
        else armed n t d s w1 \<and> callbacksFor n (trace w1) = callbacksFor n (trace w))"
    unfolding Let_def new_def[symmetric] changed_def[symmetric] fire_def[symmetric]
    by blast+
  note ih = Cons.IH[OF r2 i(1)]
  have tr: "triggered t d s (descStatus w) (ev # evs) \<longleftrightarrow>
            fire \<or> triggered t d s (descStatus w1) evs"
    unfolding ev triggered_Cons i(2) fire_def changed_def new_def by blast
  from ih have T: "tidy n t d w'" by simp
  have D: "detached n w' \<and> callbacksFor n (trace w') = callbacksFor n (trace w)"
    if dt: "detached n w"
    using ih i(3)[OF dt] by simp
  have A: "if triggered t d s (descStatus w) (ev # evs)
       then detached n w' \<and> callbacksFor n (trace w') = callbacksFor n (trace w) + 1
       else armed n t d s w' \<and> callbacksFor n (trace w') = callbacksFor n (trace w)"
    if a: "armed n t d s w"
  proof (cases fire)
    case True
    with i(4)[OF a] have "detached n w1"
      "callbacksFor n (trace w1) = callbacksFor n (trace w) + 1" by simp_all
    with ih True show ?thesis unfolding tr by simp
  next
    case False
    with i(4)[OF a] have "armed n t d s w1"
      "callbacksFor n (trace w1) = callbacksFor n (trace w)" by simp_all
    with ih False show ?thesis unfolding tr by simp
  qed
  from T D A show ?case by blast
qed

lemma isCallbackFor_iff: "isCallbackFor n e \<longleftrightarrow> (\<exists>l. e = ListenerCallback l n)"
  by (cases e) auto

lemma callbacksFor_none:
  assumes "\<forall>l p. ListenerCallback l p \<in> set es \<longrightarrow> p < n"
  shows "callbacksFor n es = 0"
proof -
  have "\<not> isCallbackFor n e" if "e \<in> set es" for e
    using assms that unfolding isCallbackFor_iff by blast
  then have "filter (isCallbackFor n) es = []" by (simp add: filter_empty_conv)
  then show ?thesis by (simp add: callbacksFor_def)
qed

lemma wellformed_parts:
  assumes "wellformed w"
  shows "\<And>l L. listeners w l = Some L \<Longrightarrow> listenerArgument L < nextPtr w"
    and "\<And>p W l. waiters w p = Some W \<Longrightarrow>
           timerListener W = Some l \<or> descriptorListener W = Some l \<Longrightarrow> l < nextPtr w"
    and "\<And>x l. l \<in> set (attached w x) \<Longrightarrow> l < nextPtr w"
    and "\<forall>l p. ListenerCallback l p \<in> set (trace w) \<longrightarrow> p < nextPtr w"
  using assms unfolding wellformed_def by blast+

lemma arm_tidy:
  assumes wf: "wellformed w0"
  shows "tidy (nextPtr w0) t d (process_listenForStatus thr (Some t) (Some d) s w0)"
proof -
  let ?n = "nextPtr w0"
  let ?w1 = "process_listenForStatus thr (Some t) (Some d) s w0"
  note b = listenForStatus_both[of thr t d s w0]
  note p = wellformed_parts[OF wf]
  have 1: "Suc (Suc ?n) < nextPtr ?w1" unfolding b(1) by simp
  have 2: "l = Suc ?n \<or> l = Suc (Suc ?n)"
    if "listeners ?w1 l = Some L" "listenerArgument L = ?n" for l L
  proof (rule ccontr)
    assume "\<not> ?thesis"
    with that(1) have "listeners w0 l = Some L" unfolding b(3) by simp
    from p(1)[OF this] that(2) show False by simp
  qed
  have 3: "l \<noteq> Suc ?n \<and> l \<noteq> Suc (Suc ?n)"
    if "waiters ?w1 q = Some W" "q \<noteq> ?n"
      "timerListener W = Some l \<or> descriptorListener W = Some l" for q W l
  proof -
    from that(1,2) have "waiters w0 q = Some W" unfolding b(2) by simp
    from p(2)[OF this that(3)] show ?thesis by simp
  qed
  have 4: "x = t" if "Suc ?n \<in> set (attached ?w1 x)" for x
  proof (rule ccontr)
    assume "x \<noteq> t"
    with that have "Suc ?n \<in> set (attached w0 x)" unfolding b(4) by (simp split: if_splits)
    from p(3)[OF this] show False by simp
  qed
  have 5: "x = d" if "Suc (Suc ?n) \<in> set (attached ?w1 x)" for x
  proof (rule ccontr)
    assume "x \<noteq> d"
    with that have "Suc (Suc ?n) \<in> set (attached w0 x)" unfolding b(4) by (simp split: if_splits)
    from p(3)[OF this] show False by simp
  qed
  show ?thesis unfolding tidy_def using 1 2 3 4 5 by blast
qed

lemma arm_armed:
  "armed (nextPtr w0) t d s (process_listenForStatus thr (Some t) (Some d) s w0)"
  unfolding armed_def listenForStatus_both by simp

lemma arm_callbacks:
  assumes wf: "wellformed w0"
  shows "callbacksFor (nextPtr w0)
           (trace (process_listenForStatus thr (Some t) (Some d) s w0)) = 0"
proof -
  have "callbacksFor (nextPtr w0) (trace (process_listenForStatus thr (Some t) (Some d) s w0)) =
        callbacksFor (nextPtr w0) (trace w0)"
    by (rule frame_callbacks[OF frame_listenForStatus])
  also have "\<dots> = 0" by (rule callbacksFor_none[OF wellformed_parts(4)[OF wf]])
  finally show ?thesis .
qed

lemma arm_descStatus:
  "descStatus (process_listenForStatus thr (Some t) (Some d) s w0) = descStatus w0"
  using frame_listenForStatus[of w0 thr "Some t" "Some d" s] unfolding frame_def by blast

lemma process_continue_idle: "\<not> process_isRunning w \<Longrightarrow> process_continue thr w = w"
  by (simp add: process_continue_def)

lemma process_isRunning_detachSides [simp]:
  "process_isRunning (detachSides sides w) = process_isRunning w"
  by (simp add: process_isRunning_def split: option.splits)

lemma notify_idle:
  assumes W: "waiters w n = Some W"
    and side: "timer W = Some t" "timerListener W = Some lt"
      "descriptor W = Some d" "descriptorListener W = Some ld" "lt \<noteq> ld"
    and wrc: "waiterReferenceCount W = 2"
    and Lt: "listeners w lt = Some Lt" "listenerRefs Lt = 1" "listenerArgument Lt = n"
    and Ld: "listeners w ld = Some Ld" "listenerRefs Ld = 1" "listenerArgument Ld = n"
    and rc: "2 < referenceCount (proc w)"
    and idle: "\<not> process_isRunning w"
  shows "\<exists>w'. process_notifyStatusChanged n w = Inr w' \<and>
           (\<forall>x. set (attached w' x) = set (attached w x) - {l. (x, l) \<in> {(t, lt), (d, ld)}})"
proof -
  have sides: "waiterSides W = [(t, lt), (d, ld)]"
    using side by (simp add: waiterSides_def)
  define w2 where "w2 = detachSides [(t, lt), (d, ld)] w"
  have w3: "process_continue (thread W) w2 = w2"
    by (rule process_continue_idle) (simp only: w2_def process_isRunning_detachSides idle not_False_eq_True)
  have eq: "process_notifyStatusChanged n w =
     (case (case Option.bind (waiters w2 n) timerListener of
                  None \<Rightarrow> Inr w2
                | Some lt \<Rightarrow> descriptorlistener_unref lt w2) of
            Inl e \<Rightarrow> Inl e
          | Inr w4 \<Rightarrow>
              (case Option.bind (waiters w4 n) descriptorListener of
                 None \<Rightarrow> Inr w4
               | Some ld \<Rightarrow> descriptorlistener_unref ld w4))"
    using process_notifyStatusChanged_eq[OF W] unfolding Let_def sides w2_def[symmetric] w3 .
  have W2: "waiters w2 n = Some W" and rc2: "1 < referenceCount (proc w2)"
    using W rc by (simp_all add: w2_def)
  have at2: "set (attached w2 x) = set (attached w x) - {l. (x, l) \<in> {(t, lt), (d, ld)}}" for x
    unfolding w2_def using detachSides_attached[of _ "[(t, lt), (d, ld)]" w x] by auto
  define Lt2 where "Lt2 = Lt\<lparr>monitorStatus := {}, monitorFilter := DLF_NEVER\<rparr>"
  define Ld2 where "Ld2 = Ld\<lparr>monitorStatus := {}, monitorFilter := DLF_NEVER\<rparr>"
  have Lt2: "listeners w2 lt = Some Lt2" "listenerRefs Lt2 = 1" "listenerArgument Lt2 = n"
    using Lt by (simp_all add: w2_def Lt2_def detachSides_listeners)
  have Ld2: "listeners w2 ld = Some Ld2" "listenerRefs Ld2 = 1" "listenerArgument Ld2 = n"
    using Ld side(5) by (auto simp add: w2_def Ld2_def detachSides_listeners)
  have "1 < waiterReferenceCount W" using wrc by simp
  from listener_unref_keep[OF Lt2 rc2 W2 this] obtain w4 where
    w4: "descriptorlistener_unref lt w2 = Inr w4"
      "proc w4 = (proc w2)\<lparr>referenceCount := referenceCount (proc w2) - 1\<rparr>"
      "waiters w4 = (waiters w2)(n \<mapsto> W\<lparr>waiterReferenceCount := waiterReferenceCount W - 1\<rparr>)"
      "listeners w4 = (listeners w2)(lt := None)" "attached w4 = attached w2"
    by blast
  have W4: "waiters w4 n = Some (W\<lparr>waiterReferenceCount := waiterReferenceCount W - 1\<rparr>)"
    unfolding w4(3) by simp
  have Ld4: "listeners w4 ld = Some Ld2" unfolding w4(4) using Ld2(1) side(5) by simp
  have rc4: "1 < referenceCount (proc w4)" unfolding w4(2) using rc by (simp add: w2_def)
  have "waiterReferenceCount (W\<lparr>waiterReferenceCount := waiterReferenceCount W - 1\<rparr>) = 1"
    using wrc by simp
  from listener_unref_last[OF Ld4 Ld2(2,3) rc4 W4 this] obtain w' where
    w': "descriptorlistener_unref ld w4 = Inr w'" "attached w' = attached w4"
    by blast
  have "process_notifyStatusChanged n w = Inr w'"
    unfolding eq W2 using side w4(1) W4 w'(1) by simp
  moreover have "set (attached w' x) = set (attached w x) - {l. (x, l) \<in> {(t, lt), (d, ld)}}"
    for x
    unfolding w'(2) w4(5) by (rule at2)
  ultimately show ?thesis by blast
qed

lemma notifyListeners_Nil_attached:
  "attached w x = [] \<Longrightarrow> descriptor_adjustStatus x bits b w =
     Inr (w\<lparr>descStatus := (descStatus w)
            (x := if b then descStatus w x \<union> bits else descStatus w x - bits)\<rparr>)"
  unfolding descriptor_adjustStatus_eq by simp

lemma deliver_quiet:
  "\<forall>x. attached w x = [] \<Longrightarrow> \<exists>w'. deliver evs w = Inr w' \<and> trace w' = trace w"
proof (induction evs arbitrary: w)
  case Nil
  then show ?case by simp
next
  case (Cons ev evs)
  obtain x bits b where ev: "ev = (x, bits, b)" by (cases ev) auto
  let ?w1 = "w\<lparr>descStatus := (descStatus w)
            (x := if b then descStatus w x \<union> bits else descStatus w x - bits)\<rparr>"
  from Cons.prems have 1: "descriptor_adjustStatus x bits b w = Inr ?w1"
    by (simp add: notifyListeners_Nil_attached)
  have "\<forall>x. attached ?w1 x = []" using Cons.prems by simp
  from Cons.IH[OF this] show ?case unfolding ev by (simp add: 1)
qed

lemma listenForStatus_both_attached:
  "attached w = (\<lambda>x. []) \<Longrightarrow> t \<noteq> d \<Longrightarrow>
   attached (process_listenForStatus thr (Some t) (Some d) s w) =
     (\<lambda>x. if x = t then [Suc (nextPtr w)] else if x = d then [Suc (Suc (nextPtr w))] else [])"
  by (auto simp: process_listenForStatus_def Let_def split_beta fun_eq_iff split: option.splits)

lemma waiter_invariant:
  assumes wf: "wellformed w0"
    and r: "deliver evs (process_listenForStatus thr (Some t) (Some d) status w0) = Inr w'"
  shows "callbacksFor (nextPtr w0) (trace w') =
           (if triggered t d status (descStatus w0) evs then 1 else 0)"
    and "triggered t d status (descStatus w0) evs \<Longrightarrow> detached (nextPtr w0) w'"
    and "\<not> triggered t d status (descStatus w0) evs \<Longrightarrow> armed (nextPtr w0) t d status w'"
proof -
  let ?w1 = "process_listenForStatus thr (Some t) (Some d) status w0"
  note i = deliver_inv[OF r arm_tidy[OF wf], of status,
      unfolded arm_callbacks[OF wf] arm_descStatus]
  from i arm_armed[of w0 t d status thr]
  have *: "if triggered t d status (descStatus w0) evs
     then detached (nextPtr w0) w' \<and> callbacksFor (nextPtr w0) (trace w') = 0 + 1
     else armed (nextPtr w0) t d status w' \<and> callbacksFor (nextPtr w0) (trace w') = 0"
    by blast
  from * show "callbacksFor (nextPtr w0) (trace w') =
           (if triggered t d status (descStatus w0) evs then 1 else 0)"
    by (simp split: if_splits)
  from * show "detached (nextPtr w0) w'" if "triggered t d status (descStatus w0) evs"
    using that by simp
  from * show "armed (nextPtr w0) t d status w'"
    if "\<not> triggered t d status (descStatus w0) evs"
    using that by simp
qed

lemma wellformed_exampleWorld: "wellformed (exampleWorld g)"
  by (simp add: wellformed_def exampleWorld_def)

lemma example_armed_fires:
  fixes evs :: "(ptr \<times> DescriptorStatus set \<times> bool) list"
  defines "w1 \<equiv> process_listenForStatus None (Some 5) (Some 6) {DS_WRITABLE} (exampleWorld [])"
  shows "\<exists>w'. deliver ((5, {DS_READABLE}, True) # evs) w1 = Inr w'"
proof -
  let ?w0 = "exampleWorld []"
  note b = listenForStatus_both[of None 5 6 "{DS_WRITABLE}" ?w0, folded w1_def]
  have np: "nextPtr ?w0 = 10" by simp
  have at0: "attached ?w0 = (\<lambda>x. [])" by (simp add: exampleWorld_def)
  have at1: "attached w1 = (\<lambda>x. if x = 5 then [11] else if x = 6 then [12] else [])"
  proof -
    have ne: "(5::nat) \<noteq> 6" by simp
    note a = listenForStatus_both_attached[OF at0 ne, of None "{DS_WRITABLE}", unfolded np]
    show ?thesis unfolding w1_def a by (auto simp: fun_eq_iff)
  qed
  have ds1: "descStatus w1 = (\<lambda>d. {})"
    unfolding w1_def arm_descStatus by (simp add: exampleWorld_def)
  define W where "W = \<lparr>thread = None, timer = Some 5, timerListener = Some 11,
      descriptor = Some 6, descriptorListener = Some 12, waiterReferenceCount = 2\<rparr>"
  define L11 where "L11 = \<lparr>listenerArgument = 10, monitorStatus = {DS_READABLE},
      monitorFilter = DLF_OFF_TO_ON, listenerRefs = 1\<rparr>"
  define L12 where "L12 = \<lparr>listenerArgument = 10, monitorStatus = {DS_WRITABLE},
      monitorFilter = DLF_OFF_TO_ON, listenerRefs = 1\<rparr>"
  have W1: "waiters w1 10 = Some W" unfolding b(2) W_def by (simp add: np)
  have l11: "listeners w1 11 = Some L11" unfolding b(3) L11_def by (simp add: np)
  have l12: "listeners w1 12 = Some L12" unfolding b(3) L12_def by (simp add: np)
  have rc1: "referenceCount (proc w1) = 3" unfolding w1_def by (simp add: exampleProcess_def)
  have idle1: "\<not> process_isRunning w1"
    unfolding w1_def by (simp add: process_isRunning_def exampleProcess_def)
  define wa where "wa = call (ListenerCallback 11 10)
      (w1\<lparr>descStatus := (descStatus w1)(5 := {DS_READABLE})\<rparr>)"
  have Wa: "waiters wa 10 = Some W" and la11: "listeners wa 11 = Some L11"
    and la12: "listeners wa 12 = Some L12" and rca: "2 < referenceCount (proc wa)"
    and ata: "attached wa = attached w1"
    using W1 l11 l12 rc1 by (simp_all add: wa_def)
  have idlea: "\<not> process_isRunning wa"
    using idle1
    by (simp add: wa_def process_isRunning_def thread_isRunning_def split: option.splits)
  have "\<exists>w2. process_notifyStatusChanged 10 wa = Inr w2 \<and>
           (\<forall>x. set (attached w2 x) = set (attached wa x) - {l. (x, l) \<in> {(5, 11), (6, 12)}})"
    by (rule notify_idle[OF Wa _ _ _ _ _ _ la11 _ _ la12 _ _ rca idlea])
       (simp_all add: W_def L11_def L12_def)
  then obtain w2 where w2: "process_notifyStatusChanged 10 wa = Inr w2"
    and at2: "\<And>x. set (attached w2 x) = set (attached wa x) - {l. (x, l) \<in> {(5, 11), (6, 12)}}"
    by blast
  have quiet: "\<forall>x. attached w2 x = []"
  proof
    fix x
    have "set (attached w2 x) = {}" unfolding at2 ata at1 by auto
    then show "attached w2 x = []" by simp
  qed
  have fires: "listenerFires L11 {DS_READABLE} {DS_READABLE}"
    by (simp add: listenerFires_def L11_def)
  have a11: "listenerArgument L11 = 10" by (simp add: L11_def)
  have adj: "descriptor_adjustStatus 5 {DS_READABLE} True w1 = Inr w2"
    unfolding descriptor_adjustStatus_eq ds1
    using l11 fires w2 a11 by (simp add: at1 ds1 wa_def)
  from deliver_quiet[OF quiet, of evs] obtain w' where "deliver evs w2 = Inr w'" by blast
  with adj have "deliver ((5, {DS_READABLE}, True) # evs) w1 = Inr w'" by simp
  then show ?thesis ..
qed

text \<open>
  Claim C1 (single-fire waiter): a waiter armed by \<open>process_listenForStatus\<close> with
  both a timer and a descriptor sits at the address \<open>nextPtr w0\<close>. Whatever status
  changes \<open>evs\<close> are then applied to whatever descriptors, in any order and any number of
  times, the callbacks bound to that waiter that are delivered, each of which runs
  \<open>_process_notifyStatusChanged\<close> on it, number exactly one as soon as some change
  turns the timer readable or one of the monitored bits of the descriptor on, and none
  before that; and once it has fired, neither of its listeners is attached to any
  descriptor, so that nothing delivers a further callback to it. The world \<open>w0\<close> refers to
  allocated addresses only, and the deliveries return.
\<close>

theorem waiter_fires_once:
  assumes "wellformed w0"
    and "deliver evs (process_listenForStatus thr (Some t) (Some d) status w0) = Inr w'"
  shows "callbacksFor (nextPtr w0) (trace w') =
           (if triggered t d status (descStatus w0) evs then 1 else 0) \<and>
         (triggered t d status (descStatus w0) evs \<longrightarrow> detached (nextPtr w0) w')"
  using waiter_invariant[OF assms] by blast

theorem waiter_fires_once_witness:
  "wellformed (exampleWorld []) \<and>
   (\<exists>w'. deliver [(5, {DS_READABLE}, True), (6, {DS_WRITABLE}, True),
                  (5, {DS_READABLE}, False), (5, {DS_READABLE}, True),
                  (6, {DS_WRITABLE}, False), (6, {DS_WRITABLE}, True)]
            (process_listenForStatus None (Some 5) (Some 6) {DS_WRITABLE} (exampleWorld []))
          = Inr w' \<and>
        callbacksFor 10 (trace w') = 1 \<and> detached 10 w')"
proof -
  let ?evs = "[(5, {DS_READABLE}, True), (6, {DS_WRITABLE}, True),
               (5, {DS_READABLE}, False), (5, {DS_READABLE}, True),
               (6, {DS_WRITABLE}, False), (6, {DS_WRITABLE}, True)]"
  from example_armed_fires obtain w' where
    r: "deliver ?evs
          (process_listenForStatus None (Some 5) (Some 6) {DS_WRITABLE} (exampleWorld [])) = Inr w'"
    by blast
  have tr: "triggered 5 6 {DS_WRITABLE} (descStatus (exampleWorld [])) ?evs"
    by (simp add: exampleWorld_def)
  from waiter_fires_once[OF wellformed_exampleWorld r] tr
  have "callbacksFor 10 (trace w') = 1 \<and> detached 10 w'" by simp
  with r wellformed_exampleWorld show ?thesis by blast
qed

end
